(* ===== verification/Prelude.thy ===== *)
theory Prelude
  imports Main "HOL-Library.Word"
begin

text \<open>
  What every component shares: the machine integers of the Nios II target, the register-level
  world (a chronological history of bus accesses and an environment that answers reads), the
  result-and-state-passing programs the C functions are translated to, the polling loop, the
  weakest-precondition calculus the proofs run on, and a few lemmas on lists.
\<close>

unbundle bit_operations_syntax

named_theorems wp_simps \<open>equations of the weakest precondition of each program construct\<close>

section \<open>Machine integers\<close>

type_synonym u8 = "8 word"
type_synonym u16 = "16 word"
type_synonym u32 = "32 word"

abbreviation bits_set :: "u32 \<Rightarrow> u32 \<Rightarrow> bool" where
  "bits_set v m \<equiv> v AND m \<noteq> 0"

lemma ucast_u8_u32 [simp]: "ucast (ucast (b :: u8) :: u32) = b"
  by (rule bit_word_eqI) (auto simp: bit_simps)

lemma unat_u8_less [simp]: "unat (b :: u8) < 256"
  using unsigned_less [of b] by simp

lemma unat_u8_Suc: "unat (b :: u8) < 255 \<Longrightarrow> unat (b + 1) = Suc (unat b)"
  by (simp add: unat_word_ariths)

section \<open>The world: register accesses and who answers them\<close>

text \<open>
  \<open>Rd a v\<close> is a 32-bit load of address \<open>a\<close> that returned \<open>v\<close>, \<open>Wr a v\<close> a 32-bit store,
  \<open>Usleep n\<close> a delay of \<open>n\<close> microseconds, \<open>Nops n\<close> a run of \<open>n\<close> nop instructions.
  The history lists them oldest first. The hardware is an arbitrary function of the history:
  any behaviour of the devices, however they keep state, is one such function.
\<close>

datatype io = Rd u32 u32 | Wr u32 u32 | Usleep nat | Nops nat

type_synonym history = "io list"
type_synonym env = "history \<Rightarrow> u32 \<Rightarrow> u32"

section \<open>Programs\<close>

text \<open>
  A C function over a state \<open>'s\<close> is a function from the environment and the state to a fault
  or a value and the next state. \<open>Hang\<close> is a loop that never ends, \<open>OutOfBounds\<close> an access
  outside an array (undefined behaviour of the C program), \<open>DivByZero\<close> an integer division by zero.
\<close>

datatype fault = Hang | OutOfBounds | DivByZero

type_synonym ('s, 'a) prog = "env \<Rightarrow> 's \<Rightarrow> fault + 'a \<times> 's"

definition ret :: "'a \<Rightarrow> ('s, 'a) prog" where
  "ret a = (\<lambda>env s. Inr (a, s))"

definition fail :: "fault \<Rightarrow> ('s, 'a) prog" where
  "fail f = (\<lambda>env s. Inl f)"

definition bnd :: "('s, 'a) prog \<Rightarrow> ('a \<Rightarrow> ('s, 'b) prog) \<Rightarrow> ('s, 'b) prog" where
  "bnd m k = (\<lambda>env s. case m env s of Inl f \<Rightarrow> Inl f | Inr (a, s') \<Rightarrow> k a env s')"

definition gets :: "('s \<Rightarrow> 'a) \<Rightarrow> ('s, 'a) prog" where
  "gets f = (\<lambda>env s. Inr (f s, s))"

definition modify :: "('s \<Rightarrow> 's) \<Rightarrow> ('s, unit) prog" where
  "modify f = (\<lambda>env s. Inr ((), f s))"

definition void :: "('s, 'a) prog \<Rightarrow> ('s, unit) prog" where
  "void m = bnd m (\<lambda>_. ret ())"

text \<open>A statement list runs its statements in order.\<close>

fun seqs :: "('s, unit) prog list \<Rightarrow> ('s, unit) prog" where
  "seqs [] = ret ()"
| "seqs (p # ps) = bnd p (\<lambda>_. seqs ps)"

text \<open>\<open>each xs body\<close> runs \<open>body\<close> on the elements in order: a \<open>for\<close> loop over a known range.\<close>

fun each :: "'a list \<Rightarrow> ('a \<Rightarrow> ('s, unit) prog) \<Rightarrow> ('s, unit) prog" where
  "each [] body = ret ()"
| "each (x # xs) body = bnd (body x) (\<lambda>_. each xs body)"

text \<open>\<open>collect xs body\<close> runs \<open>body\<close> on the elements in order and returns the results.\<close>

fun collect :: "'a list \<Rightarrow> ('a \<Rightarrow> ('s, 'b) prog) \<Rightarrow> ('s, 'b list) prog" where
  "collect [] body = ret []"
| "collect (x # xs) body = bnd (body x) (\<lambda>y. bnd (collect xs body) (\<lambda>ys. ret (y # ys)))"

section \<open>Weakest preconditions\<close>

text \<open>
  \<open>wp m env Q F s\<close>: run from \<open>s\<close>, the program returns with \<open>Q\<close>, or faults with a fault
  that \<open>F\<close> allows. \<open>F = (\<lambda>_. False)\<close> is total correctness, \<open>F = (\<lambda>f. f = Hang)\<close> memory
  safety with partial correctness.
\<close>

definition wp :: "('s, 'a) prog \<Rightarrow> env \<Rightarrow> ('a \<Rightarrow> 's \<Rightarrow> bool) \<Rightarrow> (fault \<Rightarrow> bool) \<Rightarrow> 's \<Rightarrow> bool" where
  "wp m env Q F s = (case m env s of Inl f \<Rightarrow> F f | Inr (a, s') \<Rightarrow> Q a s')"

lemma wp_ret [wp_simps]: "wp (ret a) env Q F = Q a"
  by (simp add: wp_def ret_def fun_eq_iff)

lemma wp_fail [wp_simps]: "wp (fail f) env Q F s = F f"
  by (simp add: wp_def fail_def)

lemma wp_bnd [wp_simps]: "wp (bnd m k) env Q F = wp m env (\<lambda>a. wp (k a) env Q F) F"
  by (auto simp: wp_def bnd_def fun_eq_iff split: sum.splits prod.splits)

lemma wp_gets [wp_simps]: "wp (gets f) env Q F = (\<lambda>s. Q (f s) s)"
  by (simp add: wp_def gets_def fun_eq_iff)

lemma wp_modify [wp_simps]: "wp (modify f) env Q F = (\<lambda>s. Q () (f s))"
  by (simp add: wp_def modify_def fun_eq_iff)

lemma wp_void [wp_simps]: "wp (void m) env Q F = wp m env (\<lambda>_. Q ()) F"
  by (simp add: void_def wp_simps)

lemma wp_seqs [wp_simps]:
  "wp (seqs []) env Q F = Q ()"
  "wp (seqs (p # ps)) env Q F = wp p env (\<lambda>_. wp (seqs ps) env Q F) F"
  by (simp_all add: wp_simps)

lemma wp_if [wp_simps]:
  "wp (if c then m else m') env Q F = (if c then wp m env Q F else wp m' env Q F)"
  by simp

lemma wp_mono:
  "wp m env Q F s \<Longrightarrow> (\<And>a s'. Q a s' \<Longrightarrow> Q' a s') \<Longrightarrow> (\<And>f. F f \<Longrightarrow> F' f) \<Longrightarrow> wp m env Q' F' s"
  by (auto simp: wp_def split: sum.splits)

lemma wp_conj:
  "wp m env Q F s \<Longrightarrow> wp m env Q' F s \<Longrightarrow> wp m env (\<lambda>a s'. Q a s' \<and> Q' a s') F s"
  by (auto simp: wp_def split: sum.splits)

text \<open>Reading a precondition back as a statement about the run.\<close>

lemma wp_totalD: "wp m env Q (\<lambda>_. False) s \<Longrightarrow> \<exists>a s'. m env s = Inr (a, s') \<and> Q a s'"
  by (auto simp: wp_def split: sum.splits)

lemma wp_returnD: "wp m env Q F s \<Longrightarrow> m env s = Inr (a, s') \<Longrightarrow> Q a s'"
  by (simp add: wp_def)

lemma wp_faultD: "wp m env Q F s \<Longrightarrow> m env s = Inl f \<Longrightarrow> F f"
  by (simp add: wp_def)

lemma wp_eqI: "m env s = Inr (a, s') \<Longrightarrow> Q a s' \<Longrightarrow> wp m env Q F s"
  by (simp add: wp_def)

lemma wp_result: "m env s = Inr (a, s') \<Longrightarrow> wp m env Q F s = Q a s'"
  by (simp add: wp_def)

lemma wp_unitD: "wp m env Q (\<lambda>_. False) s \<Longrightarrow> \<exists>s'. m env s = Inr ((), s') \<and> Q () s'"
  by (auto simp: wp_def split: sum.splits)

text \<open>Loops over a known range keep an invariant of the elements already done.\<close>

lemma wp_each:
  assumes "I [] s"
    and "\<And>ys x zs s. xs = ys @ x # zs \<Longrightarrow> I ys s \<Longrightarrow> wp (body x) env (\<lambda>_. I (ys @ [x])) F s"
    and "\<And>s. I xs s \<Longrightarrow> Q () s"
  shows "wp (each xs body) env Q F s"
proof -
  have "I ys s \<Longrightarrow> xs = ys @ zs \<Longrightarrow> wp (each zs body) env (\<lambda>_. I xs) F s" for ys zs s
  proof (induction zs arbitrary: ys s)
    case Nil
    then show ?case by (simp add: wp_simps)
  next
    case (Cons z zs)
    then have "wp (body z) env (\<lambda>_. I (ys @ [z])) F s" using assms(2) by blast
    moreover have "wp (each zs body) env (\<lambda>_. I xs) F s'" if "I (ys @ [z]) s'" for s'
      using that Cons.prems by (intro Cons.IH) auto
    ultimately show ?case by (simp add: wp_simps) (erule wp_mono, auto)
  qed
  from this [OF assms(1), of xs] have "wp (each xs body) env (\<lambda>_. I xs) F s" by simp
  then show ?thesis by (rule wp_mono) (auto intro: assms(3))
qed

section \<open>Register accesses\<close>

definition rd_at :: "u32 \<Rightarrow> (history, u32) prog" where
  "rd_at a = (\<lambda>env h. Inr (env h a, h @ [Rd a (env h a)]))"

definition wr_at :: "u32 \<Rightarrow> u32 \<Rightarrow> (history, unit) prog" where
  "wr_at a v = (\<lambda>env h. Inr ((), h @ [Wr a v]))"

lemma wp_rd_at [wp_simps]: "wp (rd_at a) env Q F = (\<lambda>h. Q (env h a) (h @ [Rd a (env h a)]))"
  by (simp add: wp_def rd_at_def fun_eq_iff)

lemma wp_wr_at [wp_simps]: "wp (wr_at a v) env Q F = (\<lambda>h. Q () (h @ [Wr a v]))"
  by (simp add: wp_def wr_at_def fun_eq_iff)

section \<open>Polling loops\<close>

text \<open>
  \<open>do { v = *a; } while (c v)\<close>. The loop has no bound of its own: \<open>None\<close> is never leaving it.
\<close>

partial_function (option) poll_while :: "(u32 \<Rightarrow> bool) \<Rightarrow> u32 \<Rightarrow> env \<Rightarrow> history \<Rightarrow> (u32 \<times> history) option" where
  "poll_while c a env h =
     (if c (env h a) then poll_while c a env (h @ [Rd a (env h a)])
      else Some (env h a, h @ [Rd a (env h a)]))"

definition poll :: "(u32 \<Rightarrow> bool) \<Rightarrow> u32 \<Rightarrow> (history, u32) prog" where
  "poll c a = (\<lambda>env h. case poll_while c a env h of None \<Rightarrow> Inl Hang | Some r \<Rightarrow> Inr r)"

text \<open>The history after \<open>n\<close> loads of \<open>a\<close>.\<close>

primrec polls :: "env \<Rightarrow> u32 \<Rightarrow> nat \<Rightarrow> history \<Rightarrow> history" where
  "polls env a 0 h = h"
| "polls env a (Suc n) h = polls env a n (h @ [Rd a (env h a)])"

lemma polls_append: "\<exists>vs. polls env a n h = h @ map (Rd a) vs"
proof (induction n arbitrary: h)
  case 0
  show ?case by (rule exI [of _ "[]"]) simp
next
  case (Suc n)
  then obtain vs where "polls env a n (h @ [Rd a (env h a)]) = (h @ [Rd a (env h a)]) @ map (Rd a) vs"
    by blast
  then show ?case by (intro exI [of _ "env h a # vs"]) simp
qed

text \<open>Some load satisfies \<open>p\<close> if the register is read often enough.\<close>

definition eventually_reads :: "env \<Rightarrow> u32 \<Rightarrow> (u32 \<Rightarrow> bool) \<Rightarrow> history \<Rightarrow> bool" where
  "eventually_reads env a p h \<longleftrightarrow> (\<exists>n. p (env (polls env a n h) a))"

lemma eventually_reads_mono:
  "eventually_reads env a p h \<Longrightarrow> (\<And>v. p v \<Longrightarrow> q v) \<Longrightarrow> eventually_reads env a q h"
  by (auto simp: eventually_reads_def)

lemma eventually_reads_now: "p (env h a) \<Longrightarrow> eventually_reads env a p h"
  unfolding eventually_reads_def by (rule exI [of _ 0]) simp

lemma poll_while_returns:
  "\<not> c (env (polls env a n h) a) \<Longrightarrow> \<exists>r. poll_while c a env h = Some r"
proof (induction n arbitrary: h)
  case 0
  then show ?case by (simp add: poll_while.simps)
next
  case (Suc n)
  then show ?case by (subst poll_while.simps) simp
qed

lemma poll_while_result:
  assumes "poll_while c a env h = Some (v, h')"
  shows "\<not> c v \<and> (\<exists>vs. h' = h @ map (Rd a) (vs @ [v]) \<and> v = env (h @ map (Rd a) vs) a \<and>
           (\<forall>w\<in>set vs. c w) \<and> h @ map (Rd a) vs = polls env a (length vs) h)"
proof -
  let ?P = "\<lambda>c a env h r. \<not> c (fst r) \<and> (\<exists>vs. snd r = h @ map (Rd a) (vs @ [fst r]) \<and>
              fst r = env (h @ map (Rd a) vs) a \<and> (\<forall>w\<in>set vs. c w) \<and>
              h @ map (Rd a) vs = polls env a (length vs) h)"
  have "?P c a env h (v, h')"
  proof (rule poll_while.raw_induct [where P = ?P, OF _ assms])
    fix f :: "(u32 \<Rightarrow> bool) \<Rightarrow> u32 \<Rightarrow> env \<Rightarrow> history \<Rightarrow> (u32 \<times> history) option"
    fix c :: "u32 \<Rightarrow> bool" and a :: u32 and env :: env and h :: history and r :: "u32 \<times> history"
    assume IH: "\<And>c a env h r. f c a env h = Some r \<Longrightarrow> ?P c a env h r"
      and eq: "(if c (env h a) then f c a env (h @ [Rd a (env h a)])
                else Some (env h a, h @ [Rd a (env h a)])) = Some r"
    show "?P c a env h r"
    proof (cases "c (env h a)")
      case True
      with eq have "?P c a env (h @ [Rd a (env h a)]) r" by (intro IH) simp
      then obtain vs where "\<not> c (fst r)" "snd r = h @ map (Rd a) ((env h a # vs) @ [fst r])"
        "fst r = env (h @ map (Rd a) (env h a # vs)) a" "\<forall>w\<in>set vs. c w"
        "h @ map (Rd a) (env h a # vs) = polls env a (length (env h a # vs)) h" by auto
      with True show ?thesis by (intro conjI exI [of _ "env h a # vs"]) auto
    next
      case False
      with eq show ?thesis by (intro conjI exI [of _ "[]"]) auto
    qed
  qed
  then show ?thesis by simp
qed

lemma poll_while_None: "poll_while c a env h = None \<longleftrightarrow> (\<forall>n. c (env (polls env a n h) a))"
proof
  assume "poll_while c a env h = None"
  then show "\<forall>n. c (env (polls env a n h) a)"
    by (metis option.distinct(1) poll_while_returns)
next
  assume all: "\<forall>n. c (env (polls env a n h) a)"
  show "poll_while c a env h = None"
  proof (rule ccontr)
    assume "poll_while c a env h \<noteq> None"
    then obtain v h' where "poll_while c a env h = Some (v, h')" by auto
    from poll_while_result [OF this] all show False by metis
  qed
qed

lemma wp_pollI:
  assumes "F Hang \<or> eventually_reads env a (\<lambda>v. \<not> c v) h"
    and "\<And>vs v. \<not> c v \<Longrightarrow> v = env (h @ map (Rd a) vs) a \<Longrightarrow> \<forall>w\<in>set vs. c w \<Longrightarrow>
           Q v (h @ map (Rd a) (vs @ [v]))"
  shows "wp (poll c a) env Q F h"
proof (cases "poll_while c a env h")
  case None
  then have "\<not> eventually_reads env a (\<lambda>v. \<not> c v) h"
    by (simp add: eventually_reads_def poll_while_None)
  with None assms(1) show ?thesis by (simp add: wp_def poll_def)
next
  case (Some r)
  obtain v h' where r: "r = (v, h')" by (cases r)
  with Some have "poll_while c a env h = Some (v, h')" by simp
  from poll_while_result [OF this] obtain vs where "\<not> c v" "v = env (h @ map (Rd a) vs) a"
    "\<forall>w\<in>set vs. c w" and h': "h' = h @ map (Rd a) (vs @ [v])" by blast
  then have "Q v h'" unfolding h' by (intro assms(2))
  with Some r show ?thesis by (simp add: wp_def poll_def)
qed

text \<open>Small words are the same number signed and unsigned.\<close>

lemma sint_pos:
  assumes "unat (r :: u32) < 2 ^ 31"
  shows "sint r = int (unat r)"
proof -
  have r: "uint r = int (unat r)" by (rule uint_nat)
  have "int (unat r) < int (2 ^ 31)" using assms by (simp only: of_nat_less_iff)
  then have "uint r < 2 ^ 31" unfolding r by simp
  moreover have "- (2 ^ 31) \<le> uint r" by (rule order_trans [OF _ uint_ge_0]) simp
  ultimately have "signed_take_bit 31 (uint r) = uint r" by (intro signed_take_bit_int_eq_self)
  moreover have "sint r = signed_take_bit 31 (uint r)" by (simp add: sint_uint)
  ultimately have "sint r = uint r" by (simp only:)
  with r show ?thesis by (simp only:)
qed

lemma sint_of_nat:
  assumes "n < 2 ^ 31"
  shows "sint (of_nat n :: u32) = int n"
proof -
  have "unat (of_nat n :: u32) = n" using assms by (simp add: unat_of_nat)
  with assms sint_pos [of "of_nat n"] show ?thesis by simp
qed

lemma sint_Suc:
  assumes "sint (r :: u32) = int n" "Suc n < 2 ^ 31"
  shows "sint (r + 1) = int (Suc n)"
proof -
  have "r = word_of_int (sint r)" by simp
  then have "r = of_nat n" using assms(1) by simp
  then have "r + 1 = of_nat (Suc n)" by simp
  with sint_of_nat [OF assms(2)] show ?thesis by (simp only:)
qed

end
