(* ===== verification/Platform.thy ===== *)
theory Platform
  imports Prelude
begin

text \<open>
  The hardware interface of the firmware: the native bus macros of \<^verbatim>\<open>HAL/inc/io.h\<close> and the
  address map of the Nios II system, \<^verbatim>\<open>system.h\<close>. Every register access of the drivers goes
  through \<open>IORD\<close> and \<open>IOWR\<close> with one of these base addresses.
\<close>

named_theorems address_map \<open>the base addresses of the system's devices\<close>

section \<open>Native bus access\<close>

text \<open>\<^verbatim>\<open>__IO_CALC_ADDRESS_NATIVE\<close> with a 32-bit system bus: a register is four bytes.\<close>

definition IOADDR :: "u32 \<Rightarrow> u32 \<Rightarrow> u32" where
  "IOADDR base regnum = base + regnum * 4"

definition IORD :: "u32 \<Rightarrow> u32 \<Rightarrow> (history, u32) prog" where
  "IORD base regnum = rd_at (IOADDR base regnum)"

definition IOWR :: "u32 \<Rightarrow> u32 \<Rightarrow> u32 \<Rightarrow> (history, unit) prog" where
  "IOWR base regnum v = wr_at (IOADDR base regnum) v"

lemma wp_IORD [wp_simps]:
  "wp (IORD base r) env Q F =
     (\<lambda>h. Q (env h (IOADDR base r)) (h @ [Rd (IOADDR base r) (env h (IOADDR base r))]))"
  by (simp add: IORD_def wp_simps)

lemma wp_IOWR [wp_simps]: "wp (IOWR base r v) env Q F = (\<lambda>h. Q () (h @ [Wr (IOADDR base r) v]))"
  by (simp add: IOWR_def wp_simps)

lemma IOADDR_eq_iff [simp]: "IOADDR base r = IOADDR base r' \<longleftrightarrow> r * 4 = r' * 4"
  by (simp add: IOADDR_def)

section \<open>Address map\<close>

definition AV_FIFO_INT_0_BASE :: u32 where [address_map]: "AV_FIFO_INT_0_BASE = 0x110e0"
definition I2C_OPENCORES_0_BASE :: u32 where [address_map]: "I2C_OPENCORES_0_BASE = 0x110a0"
definition LEDS_BASE :: u32 where [address_map]: "LEDS_BASE = 0x110c0"
definition LMS_CTR_GPIO_BASE :: u32 where [address_map]: "LMS_CTR_GPIO_BASE = 0x11060"
definition OC_MEM_BASE :: u32 where [address_map]: "OC_MEM_BASE = 0x8000"
definition SPI_1_BASE :: u32 where [address_map]: "SPI_1_BASE = 0x11020"
definition SPI_1_ADF4002_BASE :: u32 where [address_map]: "SPI_1_ADF4002_BASE = 0x0"
definition SPI_FPGA_AS_BASE :: u32 where [address_map]: "SPI_FPGA_AS_BASE = 0x11000"
definition SPI_LMS_BASE :: u32 where [address_map]: "SPI_LMS_BASE = 0x11040"
definition SWITCH_BASE :: u32 where [address_map]: "SWITCH_BASE = 0x110d0"
definition SYSID_QSYS_0_BASE :: u32 where [address_map]: "SYSID_QSYS_0_BASE = 0x110f0"
definition UART_BASE :: u32 where [address_map]: "UART_BASE = 0x11080"

definition ALT_CPU_FREQ :: u32 where "ALT_CPU_FREQ = 100000000"

text \<open>Base and span (in bytes) of every slave on the CPU's data master.\<close>

definition address_spans :: "(u32 \<times> nat) list" where
  "address_spans =
     [(AV_FIFO_INT_0_BASE, 16), (I2C_OPENCORES_0_BASE, 32), (LEDS_BASE, 16), (LMS_CTR_GPIO_BASE, 32),
      (OC_MEM_BASE, 32768), (SPI_1_BASE, 32), (SPI_1_ADF4002_BASE, 32), (SPI_FPGA_AS_BASE, 32),
      (SPI_LMS_BASE, 32), (SWITCH_BASE, 16), (SYSID_QSYS_0_BASE, 8), (UART_BASE, 32)]"

definition disjoint_spans :: "u32 \<times> nat \<Rightarrow> u32 \<times> nat \<Rightarrow> bool" where
  "disjoint_spans p q \<longleftrightarrow> unat (fst p) + snd p \<le> unat (fst q) \<or> unat (fst q) + snd q \<le> unat (fst p)"

text \<open>The address of a register lies in its device's span when the register number does.\<close>

lemma IOADDR_in_span:
  assumes "unat base + 4 * unat r < 2 ^ 32"
  shows "unat (IOADDR base r) = unat base + 4 * unat r"
proof -
  have "unat (r * 4) = 4 * unat r" using assms by (subst unat_mult_lem [THEN iffD1]) auto
  then show ?thesis using assms by (simp add: IOADDR_def unat_add_lem [THEN iffD1])
qed

end
