(* ===== verification/Spi_Driver.thy ===== *)
theory Spi_Driver
  imports Platform
begin

text \<open>
  The polled SPI master driver, \<^verbatim>\<open>drivers/src/altera_avalon_spi.c\<close>, register by register, the
  documented protocol of the SPI core as a hypothesis on the environment, and what the driver puts
  on the wire: the chip-select transactions decoded from its register writes.
\<close>

section \<open>Registers\<close>

abbreviation (input) SPI_RXDATA :: u32 where "SPI_RXDATA \<equiv> 0"
abbreviation (input) SPI_TXDATA :: u32 where "SPI_TXDATA \<equiv> 1"
abbreviation (input) SPI_STATUS :: u32 where "SPI_STATUS \<equiv> 2"
abbreviation (input) SPI_CONTROL :: u32 where "SPI_CONTROL \<equiv> 3"
abbreviation (input) SPI_SLAVE_SEL :: u32 where "SPI_SLAVE_SEL \<equiv> 5"

definition SPI_STATUS_TMT_MSK :: u32 where "SPI_STATUS_TMT_MSK = 0x20"
definition SPI_STATUS_TRDY_MSK :: u32 where "SPI_STATUS_TRDY_MSK = 0x40"
definition SPI_STATUS_RRDY_MSK :: u32 where "SPI_STATUS_RRDY_MSK = 0x80"
definition SPI_CONTROL_SSO_MSK :: u32 where "SPI_CONTROL_SSO_MSK = 0x400"

definition ALT_AVALON_SPI_COMMAND_MERGE :: u32 where "ALT_AVALON_SPI_COMMAND_MERGE = 1"
definition ALT_AVALON_SPI_COMMAND_TOGGLE_SS_N :: u32 where "ALT_AVALON_SPI_COMMAND_TOGGLE_SS_N = 2"

lemmas spi_masks = SPI_STATUS_TMT_MSK_def SPI_STATUS_TRDY_MSK_def SPI_STATUS_RRDY_MSK_def
  SPI_CONTROL_SSO_MSK_def ALT_AVALON_SPI_COMMAND_MERGE_def ALT_AVALON_SPI_COMMAND_TOGGLE_SS_N_def

section \<open>The transfer loop\<close>

text \<open>
  The local variables of the loop: \<open>write_data\<close> is what lies between the C pointers
  \<open>write_data\<close> and \<open>write_end\<close>, \<open>read_data\<close> the bytes already stored below the C pointer
  \<open>read_data\<close>, whose end is \<open>read_length\<close> bytes from its start.
\<close>

record spi_xfer =
  credits :: int
  write_data :: "u8 list"
  write_zeros :: nat
  read_ignore :: nat
  read_data :: "u8 list"
  read_length :: nat

definition spi_wait :: "int \<Rightarrow> u32 \<Rightarrow> bool" where
  "spi_wait cr status \<longleftrightarrow>
     (\<not> bits_set status SPI_STATUS_TRDY_MSK \<or> cr = 0) \<and> \<not> bits_set status SPI_STATUS_RRDY_MSK"

definition spi_tx :: "u32 \<Rightarrow> u32 \<Rightarrow> spi_xfer \<Rightarrow> (history, spi_xfer) prog" where
  "spi_tx base status x =
     (if bits_set status SPI_STATUS_TRDY_MSK \<and> credits x > 0 then
        let x' = x\<lparr>credits := credits x - 1\<rparr> in
        (case write_data x of
           b # bs \<Rightarrow> bnd (IOWR base SPI_TXDATA (ucast b)) (\<lambda>_. ret (x'\<lparr>write_data := bs\<rparr>))
         | [] \<Rightarrow>
             if write_zeros x > 0
             then bnd (IOWR base SPI_TXDATA 0) (\<lambda>_. ret (x'\<lparr>write_zeros := write_zeros x - 1\<rparr>))
             else ret (x'\<lparr>credits := -1024\<rparr>))
      else ret x)"

text \<open>
  The receive half; the boolean is the loop's \<open>break\<close>. Storing a byte past \<open>read_length\<close> is out
  of bounds of the caller's buffer.
\<close>

definition spi_rx :: "u32 \<Rightarrow> u32 \<Rightarrow> spi_xfer \<Rightarrow> (history, bool \<times> spi_xfer) prog" where
  "spi_rx base status x =
     (if bits_set status SPI_STATUS_RRDY_MSK then
        bnd (IORD base SPI_RXDATA) (\<lambda>rxdata.
          if read_ignore x > 0 then
            let x' = x\<lparr>read_ignore := read_ignore x - 1, credits := credits x + 1\<rparr>
            in ret (read_ignore x' = 0 \<and> length (read_data x') = read_length x', x')
          else if length (read_data x) < read_length x then
            let x' = x\<lparr>read_data := read_data x @ [ucast rxdata], credits := credits x + 1\<rparr>
            in ret (length (read_data x') = read_length x', x')
          else fail OutOfBounds)
      else ret (False, x))"

definition spi_iter :: "u32 \<Rightarrow> spi_xfer \<Rightarrow> (history, bool \<times> spi_xfer) prog" where
  "spi_iter base x =
     bnd (poll (spi_wait (credits x)) (IOADDR base SPI_STATUS)) (\<lambda>status.
     bnd (spi_tx base status x) (\<lambda>x'. spi_rx base status x'))"

partial_function (option) spi_loop ::
    "u32 \<Rightarrow> spi_xfer \<Rightarrow> env \<Rightarrow> history \<Rightarrow> (fault + u8 list \<times> history) option" where
  "spi_loop base xf env h =
     (case spi_iter base xf env h of
        Inl f \<Rightarrow> Some (Inl f)
      | Inr r \<Rightarrow>
          (if fst (fst r) then Some (Inr (read_data (snd (fst r)), snd r))
           else spi_loop base (snd (fst r)) env (snd r)))"

definition spi_run :: "u32 \<Rightarrow> spi_xfer \<Rightarrow> (history, u8 list) prog" where
  "spi_run base x =
     (\<lambda>env h. case spi_loop base x env h of None \<Rightarrow> Inl Hang | Some r \<Rightarrow> r)"

text \<open>
  One SPI transaction: returns the C return value, \<open>read_length\<close>, and the bytes stored through
  \<open>read_data\<close>. The bytes to write are passed by value.
\<close>

definition alt_avalon_spi_command ::
    "u32 \<Rightarrow> u32 \<Rightarrow> u8 list \<Rightarrow> nat \<Rightarrow> u32 \<Rightarrow> (history, nat \<times> u8 list) prog" where
  "alt_avalon_spi_command base slave wdata rlen flags =
     bnd (IOWR base SPI_SLAVE_SEL (push_bit (unat slave) 1)) (\<lambda>_.
     bnd (if flags AND ALT_AVALON_SPI_COMMAND_TOGGLE_SS_N = 0
          then IOWR base SPI_CONTROL SPI_CONTROL_SSO_MSK else ret ()) (\<lambda>_.
     bnd (IORD base SPI_RXDATA) (\<lambda>_.
     bnd (spi_run base
            \<lparr>credits = 1, write_data = wdata, write_zeros = rlen,
             read_ignore = length wdata, read_data = [], read_length = rlen\<rparr>) (\<lambda>rdata.
     bnd (poll (\<lambda>status. \<not> bits_set status SPI_STATUS_TMT_MSK) (IOADDR base SPI_STATUS)) (\<lambda>_.
     bnd (if flags AND ALT_AVALON_SPI_COMMAND_MERGE = 0
          then IOWR base SPI_CONTROL 0 else ret ()) (\<lambda>_.
     ret (rlen, rdata)))))))"

text \<open>The loop as a recursive program.\<close>

lemma spi_run_unfold:
  "spi_run base x =
     bnd (spi_iter base x)
       (\<lambda>r. if fst r then ret (read_data (snd r)) else spi_run base (snd r))"
  by (auto simp: spi_run_def fun_eq_iff bnd_def ret_def spi_loop.simps [of base x]
      split: sum.splits)

end
