(* ===== verification/Bus.thy ===== *)
theory Bus
  imports Platform
begin

text \<open>
  Which accesses of the history belong to which device, and the contract of a decoder that follows
  one device: it looks at that device's registers only. The decoders of the SPI and I2C cores are
  interpretations of the contract.
\<close>

section \<open>The accesses of one device\<close>

text \<open>The drivers of the serial cores use registers 0 to 5.\<close>

fun io_addr :: "io \<Rightarrow> u32 option" where
  "io_addr (Rd a v) = Some a"
| "io_addr (Wr a v) = Some a"
| "io_addr _ = None"

definition device_addrs :: "u32 \<Rightarrow> u32 set" where
  "device_addrs base = IOADDR base ` {0, 1, 2, 3, 4, 5}"

definition confined :: "u32 \<Rightarrow> io list \<Rightarrow> bool" where
  "confined base es \<longleftrightarrow> (\<forall>e\<in>set es. \<exists>a\<in>device_addrs base. io_addr e = Some a)"

lemma confined_append [simp]: "confined base (es @ fs) \<longleftrightarrow> confined base es \<and> confined base fs"
  by (auto simp: confined_def)

lemma confined_Nil [simp]: "confined base []"
  by (simp add: confined_def)

lemma confined_simps [simp]:
  "confined base (Rd a v # es) \<longleftrightarrow> a \<in> device_addrs base \<and> confined base es"
  "confined base (Wr a v # es) \<longleftrightarrow> a \<in> device_addrs base \<and> confined base es"
  by (auto simp: confined_def)

lemma confined_polls [simp]: "a \<in> device_addrs base \<Longrightarrow> confined base (map (Rd a) vs)"
  by (induction vs) auto

lemma device_addrs_I [simp]:
  "IOADDR base 0 \<in> device_addrs base" "IOADDR base 1 \<in> device_addrs base"
  "IOADDR base 2 \<in> device_addrs base" "IOADDR base 3 \<in> device_addrs base"
  "IOADDR base 4 \<in> device_addrs base" "IOADDR base 5 \<in> device_addrs base"
  by (auto simp: device_addrs_def)

definition disjoint_devices :: "u32 \<Rightarrow> u32 \<Rightarrow> bool" where
  "disjoint_devices b b' \<longleftrightarrow> device_addrs b \<inter> device_addrs b' = {}"

lemma disjoint_devices_sym: "disjoint_devices b b' \<Longrightarrow> disjoint_devices b' b"
  by (auto simp: disjoint_devices_def)

section \<open>Decoders\<close>

locale bus_observer =
  fixes step :: "u32 \<Rightarrow> 'l \<Rightarrow> io \<Rightarrow> 'l"
  assumes step_other: "\<forall>a\<in>device_addrs base. io_addr e \<noteq> Some a \<Longrightarrow> step base l e = l"
begin

text \<open>Accesses of another device leave the decoded state alone.\<close>

lemma run_other:
  assumes "confined b es" and "disjoint_devices b base"
  shows "foldl (step base) l es = l"
  using assms(1)
proof (induction es arbitrary: l)
  case (Cons e es)
  then have "step base l e = l"
    using assms(2) by (intro step_other) (auto simp: confined_def disjoint_devices_def)
  with Cons show ?case by (auto simp: confined_def)
qed simp

text \<open>Delays and other accesses without an address change nothing either.\<close>

lemma run_silent: "\<forall>e\<in>set es. io_addr e = None \<Longrightarrow> foldl (step base) l es = l"
  by (induction es arbitrary: l) (auto simp: step_other)

text \<open>The decoded state is a function of the device's own accesses.\<close>

lemma run_filter:
  "foldl (step base) l es = foldl (step base) l (filter (\<lambda>e. \<exists>a\<in>device_addrs base. io_addr e = Some a) es)"
  by (induction es arbitrary: l) (auto simp: step_other)

end

end
