(* ===== verification/Spi_Contract.thy ===== *)
theory Spi_Contract
  imports Spi_Driver Bus
begin

text \<open>
  What one call of the SPI driver does on the wire. The documented protocol of the SPI core is the
  hypothesis \<open>spi_core_ok\<close>; under it the driver returns and its register writes decode to exactly
  one chip-select transaction carrying the bytes to write followed by one zero byte for each byte
  to read.
\<close>

section \<open>The SPI core's documented behaviour\<close>

text \<open>
  \<open>spi_pending\<close> counts the bytes handed to \<open>TXDATA\<close> since \<open>RXDATA\<close> was last read. The core
  raises \<open>RRDY\<close> only for a byte that was clocked out and not yet collected; the transmit holding
  register empties, a byte clocked out is received, and the shifter goes idle, each after finitely
  many looks at the status register.
\<close>

fun spi_pending_ev :: "u32 \<Rightarrow> nat \<Rightarrow> io \<Rightarrow> nat" where
  "spi_pending_ev base n (Wr a v) = (if a = IOADDR base SPI_TXDATA then Suc n else n)"
| "spi_pending_ev base n (Rd a v) = (if a = IOADDR base SPI_RXDATA then 0 else n)"
| "spi_pending_ev base n _ = n"

definition spi_pending :: "u32 \<Rightarrow> history \<Rightarrow> nat" where
  "spi_pending base h = foldl (spi_pending_ev base) 0 h"

definition spi_core_ok :: "env \<Rightarrow> u32 \<Rightarrow> bool" where
  "spi_core_ok env base \<longleftrightarrow>
     (\<forall>h. spi_pending base h = 0 \<longrightarrow> \<not> bits_set (env h (IOADDR base SPI_STATUS)) SPI_STATUS_RRDY_MSK) \<and>
     (\<forall>h. spi_pending base h = 0 \<longrightarrow>
        eventually_reads env (IOADDR base SPI_STATUS) (\<lambda>v. bits_set v SPI_STATUS_TRDY_MSK) h) \<and>
     (\<forall>h. spi_pending base h > 0 \<longrightarrow>
        eventually_reads env (IOADDR base SPI_STATUS) (\<lambda>v. bits_set v SPI_STATUS_RRDY_MSK) h) \<and>
     (\<forall>h. eventually_reads env (IOADDR base SPI_STATUS) (\<lambda>v. bits_set v SPI_STATUS_TMT_MSK) h)"

lemma spi_core_okD:
  assumes "spi_core_ok env base"
  shows "spi_pending base h = 0 \<Longrightarrow> \<not> bits_set (env h (IOADDR base SPI_STATUS)) SPI_STATUS_RRDY_MSK"
    and "spi_pending base h = 0 \<Longrightarrow>
      eventually_reads env (IOADDR base SPI_STATUS) (\<lambda>v. bits_set v SPI_STATUS_TRDY_MSK) h"
    and "spi_pending base h > 0 \<Longrightarrow>
      eventually_reads env (IOADDR base SPI_STATUS) (\<lambda>v. bits_set v SPI_STATUS_RRDY_MSK) h"
    and "eventually_reads env (IOADDR base SPI_STATUS) (\<lambda>v. bits_set v SPI_STATUS_TMT_MSK) h"
  using assms by (simp_all add: spi_core_ok_def)

lemma spi_pending_append:
  "spi_pending base (h @ es) = foldl (spi_pending_ev base) (spi_pending base h) es"
  by (simp add: spi_pending_def)

lemma spi_pending_polls [simp]:
  "foldl (spi_pending_ev base) n (map (Rd (IOADDR base SPI_STATUS)) vs) = n"
  by (induction vs) (auto simp: IOADDR_def)

section \<open>The wire\<close>

text \<open>
  The chip-select line and the bytes shifted out, decoded from the register writes: \<open>line_cs\<close> holds
  the bytes of the transaction in progress, \<open>line_txns\<close> the finished transactions, each with the slave
  select mask it was addressed to. A byte sent without forced chip select is a transaction of its
  own.
\<close>

record spi_line =
  line_sel :: u32
  line_cs :: "u8 list option"
  line_txns :: "(u32 \<times> u8 list) list"

fun spi_line_ev :: "u32 \<Rightarrow> spi_line \<Rightarrow> io \<Rightarrow> spi_line" where
  "spi_line_ev base l (Wr a v) =
     (if a = IOADDR base SPI_SLAVE_SEL then l\<lparr>line_sel := v\<rparr>
      else if a = IOADDR base SPI_CONTROL then
        (if bits_set v SPI_CONTROL_SSO_MSK
         then l\<lparr>line_cs := Some (case line_cs l of None \<Rightarrow> [] | Some bs \<Rightarrow> bs)\<rparr>
         else (case line_cs l of
                 None \<Rightarrow> l
               | Some bs \<Rightarrow> l\<lparr>line_cs := None, line_txns := line_txns l @ [(line_sel l, bs)]\<rparr>))
      else if a = IOADDR base SPI_TXDATA then
        (case line_cs l of
           None \<Rightarrow> l\<lparr>line_txns := line_txns l @ [(line_sel l, [ucast v])]\<rparr>
         | Some bs \<Rightarrow> l\<lparr>line_cs := Some (bs @ [ucast v])\<rparr>)
      else l)"
| "spi_line_ev base l _ = l"

definition spi_wire :: "u32 \<Rightarrow> history \<Rightarrow> spi_line" where
  "spi_wire base h = foldl (spi_line_ev base) \<lparr>line_sel = 0, line_cs = None, line_txns = []\<rparr> h"

lemma spi_wire_append: "spi_wire base (h @ es) = foldl (spi_line_ev base) (spi_wire base h) es"
  by (simp add: spi_wire_def)

lemma spi_wire_polls [simp]: "foldl (spi_line_ev base) l (map (Rd a) vs) = l"
  by (induction vs) auto

text \<open>The bytes received: every load of \<open>RXDATA\<close>.\<close>

fun spi_miso :: "u32 \<Rightarrow> io list \<Rightarrow> u8 list" where
  "spi_miso base [] = []"
| "spi_miso base (Rd a v # es) =
     (if a = IOADDR base SPI_RXDATA then ucast v # spi_miso base es else spi_miso base es)"
| "spi_miso base (e # es) = spi_miso base es"

lemma spi_miso_append [simp]: "spi_miso base (es @ fs) = spi_miso base es @ spi_miso base fs"
  by (induction base es rule: spi_miso.induct) auto

lemma spi_miso_polls [simp]: "spi_miso base (map (Rd (IOADDR base SPI_STATUS)) vs) = []"
  by (induction vs) auto

text \<open>Only the core's own registers matter to the decoder.\<close>

interpretation spi_line: bus_observer spi_line_ev
proof unfold_locales
  fix e :: io and base :: u32 and l :: spi_line
  assume "\<forall>a\<in>device_addrs base. io_addr e \<noteq> Some a"
  then show "spi_line_ev base l e = l" by (cases e) (auto simp: device_addrs_def)
qed

interpretation spi_count: bus_observer spi_pending_ev
proof unfold_locales
  fix e :: io and base :: u32 and n :: nat
  assume "\<forall>a\<in>device_addrs base. io_addr e \<noteq> Some a"
  then show "spi_pending_ev base n e = n" by (cases e) (auto simp: device_addrs_def)
qed

lemmas spi_wire_other = spi_line.run_other

section \<open>The transfer loop delivers every byte\<close>

text \<open>Writes of \<open>TXDATA\<close> under an asserted chip select extend the transaction in progress.\<close>

definition shifted :: "u32 \<Rightarrow> u8 list \<Rightarrow> io list \<Rightarrow> bool" where
  "shifted base bs es \<longleftrightarrow>
     (\<forall>l cur. line_cs l = Some cur \<longrightarrow> foldl (spi_line_ev base) l es = l\<lparr>line_cs := Some (cur @ bs)\<rparr>)"

lemma shifted_Nil [simp]: "shifted base [] []"
  by (simp add: shifted_def)

lemma shifted_append: "shifted base bs es \<Longrightarrow> shifted base cs fs \<Longrightarrow> shifted base (bs @ cs) (es @ fs)"
  by (simp add: shifted_def)

lemma wp_spi_byte_tx:
  assumes ok: "spi_core_ok env base" and "spi_pending base h = 0"
    and "credits x = 1" and "write_data x @ replicate (write_zeros x) 0 = b # bs"
    and Q: "\<And>x' es. credits x' = 0 \<Longrightarrow> write_data x' @ replicate (write_zeros x') 0 = bs \<Longrightarrow>
       read_ignore x' = read_ignore x \<Longrightarrow> read_data x' = read_data x \<Longrightarrow>
       read_length x' = read_length x \<Longrightarrow>
       confined base es \<Longrightarrow> spi_miso base es = [] \<Longrightarrow> shifted base [b] es \<Longrightarrow>
       spi_pending base (h @ es) = 1 \<Longrightarrow> Q (False, x') (h @ es)"
  shows "wp (spi_iter base x) env Q F h"
  unfolding spi_iter_def wp_bnd
proof (rule wp_pollI)
  show "F Hang \<or> eventually_reads env (IOADDR base SPI_STATUS) (\<lambda>v. \<not> spi_wait (credits x) v) h"
    using eventually_reads_mono [OF spi_core_okD(2) [OF assms(1,2)]] assms(3)
    by (auto simp: spi_wait_def)
next
  fix vs v
  let ?es = "map (Rd (IOADDR base SPI_STATUS)) (vs @ [v])"
  assume v: "\<not> spi_wait (credits x) v" "v = env (h @ map (Rd (IOADDR base SPI_STATUS)) vs) (IOADDR base SPI_STATUS)"
  have "spi_pending base (h @ map (Rd (IOADDR base SPI_STATUS)) vs) = 0"
    using assms(2) by (simp add: spi_pending_append)
  then have rrdy: "\<not> bits_set v SPI_STATUS_RRDY_MSK"
    using ok v(2) unfolding spi_core_ok_def by blast
  with v(1) have trdy: "bits_set v SPI_STATUS_TRDY_MSK" by (auto simp: spi_wait_def)
  have step: "Q (False, x') (h @ ?es @ [Wr (IOADDR base SPI_TXDATA) (ucast b)])"
    if "credits x' = 0" "write_data x' @ replicate (write_zeros x') 0 = bs"
      "read_ignore x' = read_ignore x" "read_data x' = read_data x" "read_length x' = read_length x" for x'
    using that assms(2)
    by (intro Q) (auto simp: spi_pending_append shifted_def)
  show "wp (spi_tx base v x) env (\<lambda>x'. wp (spi_rx base v x') env Q F) F (h @ ?es)"
  proof (cases "write_data x")
    case (Cons c cs)
    with assms(4) step [of "x\<lparr>credits := 0, write_data := cs\<rparr>"] show ?thesis
      by (simp add: spi_tx_def spi_rx_def wp_simps trdy rrdy assms(3))
  next
    case Nil
    with assms(4) have "write_zeros x > 0" "b = 0" "bs = replicate (write_zeros x - 1) 0"
      by (cases "write_zeros x"; simp)+
    with Nil step [of "x\<lparr>credits := 0, write_zeros := write_zeros x - 1\<rparr>"] show ?thesis
      by (simp add: spi_tx_def spi_rx_def wp_simps trdy rrdy assms(3))
  qed
qed

lemma wp_spi_byte_rx:
  assumes ok: "spi_core_ok env base" and pend: "spi_pending base h > 0" and cr: "credits x = 0"
    and room: "read_ignore x + (read_length x - length (read_data x)) = Suc m" "length (read_data x) \<le> read_length x"
    and Q: "\<And>x' es r. credits x' = 1 \<Longrightarrow> write_data x' = write_data x \<Longrightarrow>
       write_zeros x' = write_zeros x \<Longrightarrow> read_ignore x' = read_ignore x - 1 \<Longrightarrow>
       read_length x' = read_length x \<Longrightarrow>
       read_data x' = (if read_ignore x > 0 then read_data x else read_data x @ [r]) \<Longrightarrow>
       confined base es \<Longrightarrow> spi_miso base es = [r] \<Longrightarrow> shifted base [] es \<Longrightarrow>
       spi_pending base (h @ es) = 0 \<Longrightarrow> Q (m = 0, x') (h @ es)"
  shows "wp (spi_iter base x) env Q F h"
  unfolding spi_iter_def wp_bnd
proof (rule wp_pollI)
  show "F Hang \<or> eventually_reads env (IOADDR base SPI_STATUS) (\<lambda>v. \<not> spi_wait (credits x) v) h"
    using eventually_reads_mono [OF spi_core_okD(3) [OF ok pend]] by (auto simp: spi_wait_def)
next
  fix vs v
  assume "\<not> spi_wait (credits x) v"
  then have rrdy: "bits_set v SPI_STATUS_RRDY_MSK" using cr by (auto simp: spi_wait_def)
  let ?h = "h @ map (Rd (IOADDR base SPI_STATUS)) (vs @ [v])"
  let ?r = "env ?h (IOADDR base SPI_RXDATA)"
  let ?es = "map (Rd (IOADDR base SPI_STATUS)) (vs @ [v]) @ [Rd (IOADDR base SPI_RXDATA) ?r]"
  have es: "confined base ?es" "spi_miso base ?es = [ucast ?r]" "shifted base [] ?es"
    "spi_pending base (h @ ?es) = 0"
    by (simp_all add: shifted_def spi_pending_append)
  have tx: "spi_tx base v x = ret x" by (simp add: spi_tx_def cr)
  show "wp (spi_tx base v x) env (\<lambda>x'. wp (spi_rx base v x') env Q F) F ?h"
  proof (cases "read_ignore x > 0")
    case True
    then have m: "(read_ignore x - Suc 0 = 0 \<and> length (read_data x) = read_length x) = (m = 0)"
      using room by auto
    from True Q [OF _ _ _ _ _ _ es, of "x\<lparr>read_ignore := read_ignore x - 1, credits := 1\<rparr>"]
    show ?thesis by (simp add: tx spi_rx_def wp_simps rrdy cr Let_def m del: diff_is_0_eq)
  next
    case False
    then have m: "length (read_data x) < read_length x" "(Suc (length (read_data x)) = read_length x) = (m = 0)"
      using room by auto
    from False Q [OF _ _ _ _ _ _ es, of "x\<lparr>read_data := read_data x @ [ucast ?r], credits := 1\<rparr>"]
    show ?thesis by (simp add: tx spi_rx_def wp_simps rrdy cr Let_def m)
  qed
qed

text \<open>One byte is exchanged by two rounds of the loop, the transmit and the receive half.\<close>

lemma wp_spi_exchange:
  assumes ok: "spi_core_ok env base" and "spi_pending base h = 0" and "credits x = 1"
    and "write_data x @ replicate (write_zeros x) 0 = b # bs"
    and room: "read_ignore x + (read_length x - length (read_data x)) = Suc m" "length (read_data x) \<le> read_length x"
    and R: "\<And>x' es r. credits x' = 1 \<Longrightarrow> write_data x' @ replicate (write_zeros x') 0 = bs \<Longrightarrow>
       read_ignore x' = read_ignore x - 1 \<Longrightarrow> read_length x' = read_length x \<Longrightarrow>
       read_data x' = (if read_ignore x > 0 then read_data x else read_data x @ [r]) \<Longrightarrow>
       confined base es \<Longrightarrow> spi_miso base es = [r] \<Longrightarrow> shifted base [b] es \<Longrightarrow>
       spi_pending base (h @ es) = 0 \<Longrightarrow>
       wp (if m = 0 then ret (read_data x') else spi_run base x') env Q F (h @ es)"
  shows "wp (spi_run base x) env Q F h"
proof (subst spi_run_unfold, unfold wp_bnd, rule wp_spi_byte_tx [OF ok assms(2-4)])
  fix x1 :: spi_xfer and es1
  assume 1: "credits x1 = 0" "write_data x1 @ replicate (write_zeros x1) 0 = bs"
    "read_ignore x1 = read_ignore x" "read_data x1 = read_data x" "read_length x1 = read_length x"
    "confined base es1"
    "spi_miso base es1 = []" "shifted base [b] es1" "spi_pending base (h @ es1) = 1"
  have "wp (spi_run base x1) env Q F (h @ es1)"
  proof (subst spi_run_unfold, unfold wp_bnd, rule wp_spi_byte_rx [OF ok _ 1(1), of _ m])
    fix x2 :: spi_xfer and es2 r
    assume 2: "credits x2 = 1" "write_data x2 = write_data x1" "write_zeros x2 = write_zeros x1"
      "read_ignore x2 = read_ignore x1 - 1" "read_length x2 = read_length x1"
      "read_data x2 = (if read_ignore x1 > 0 then read_data x1 else read_data x1 @ [r])"
      "confined base es2" "spi_miso base es2 = [r]" "shifted base [] es2"
      "spi_pending base ((h @ es1) @ es2) = 0"
    have "shifted base [b] (es1 @ es2)" using shifted_append [OF 1(8) 2(9)] by simp
    then have "wp (if m = 0 then ret (read_data x2) else spi_run base x2) env Q F (h @ (es1 @ es2))"
      using 1 2 by (intro R) auto
    then show "wp (if fst (m = 0, x2) then ret (read_data (snd (m = 0, x2)))
        else spi_run base (snd (m = 0, x2))) env Q F ((h @ es1) @ es2)"
      by (cases "m = 0") simp_all
  qed (use 1 room in auto)
  then show "wp (if fst (False, x1) then ret (read_data (snd (False, x1)))
      else spi_run base (snd (False, x1))) env Q F (h @ es1)" by simp
qed

text \<open>
  The whole loop: from an idle interface it sends every byte of \<open>write_data\<close>, then the zero bytes,
  and stores the bytes received after the first \<open>read_ignore\<close>.
\<close>

lemma wp_spi_run:
  assumes ok: "spi_core_ok env base" and "spi_pending base h = 0" and "credits x = 1"
    and "length (write_data x @ replicate (write_zeros x) 0) = Suc m"
    and "read_ignore x + (read_length x - length (read_data x)) = Suc m" and "length (read_data x) \<le> read_length x"
    and Q: "\<And>data es. confined base es \<Longrightarrow>
       shifted base (write_data x @ replicate (write_zeros x) 0) es \<Longrightarrow>
       data = read_data x @ drop (read_ignore x) (spi_miso base es) \<Longrightarrow>
       length (spi_miso base es) = Suc m \<Longrightarrow> spi_pending base (h @ es) = 0 \<Longrightarrow> Q data (h @ es)"
  shows "wp (spi_run base x) env Q F h"
  using assms(2-7)
proof (induction m arbitrary: x h Q)
  case (0 x h Q)
  then obtain b where b: "write_data x @ replicate (write_zeros x) 0 = [b]"
    by (metis length_0_conv length_Suc_conv)
  show ?case
  proof (rule wp_spi_exchange [OF ok 0(1,2) b 0(4,5)])
    fix x' :: spi_xfer and es r
    assume "read_ignore x' = read_ignore x - 1" "read_length x' = read_length x" "confined base es"
      "read_data x' = (if read_ignore x > 0 then read_data x else read_data x @ [r])"
      "spi_miso base es = [r]" "shifted base [b] es" "spi_pending base (h @ es) = 0"
    then show "wp (if 0 = 0 then ret (read_data x') else spi_run base x') env Q F (h @ es)"
      using b by (auto simp: wp_ret intro!: 0(6))
  qed
next
  case (Suc m x h Q)
  then obtain b bs where b: "write_data x @ replicate (write_zeros x) 0 = b # bs"
    and bs: "length bs = Suc m"
    by (metis length_Suc_conv)
  show ?case
  proof (rule wp_spi_exchange [OF ok Suc(2,3) b Suc(5,6)])
    fix x' :: spi_xfer and es r
    assume x': "credits x' = 1" "write_data x' @ replicate (write_zeros x') 0 = bs"
      "read_ignore x' = read_ignore x - 1" "read_length x' = read_length x" "confined base es"
      "read_data x' = (if read_ignore x > 0 then read_data x else read_data x @ [r])"
      "spi_miso base es = [r]" "shifted base [b] es" "spi_pending base (h @ es) = 0"
    have "wp (spi_run base x') env Q F (h @ es)"
    proof (rule Suc.IH)
      fix data es'
      assume e: "confined base es'" "shifted base (write_data x' @ replicate (write_zeros x') 0) es'"
        "data = read_data x' @ drop (read_ignore x') (spi_miso base es')"
        "length (spi_miso base es') = Suc m" "spi_pending base ((h @ es) @ es') = 0"
      have "shifted base (b # bs) (es @ es')"
        using shifted_append [OF x'(8) e(2)] x'(2) by simp
      then have "Q data (h @ (es @ es'))"
        using x' e b by (intro Suc.prems(6)) (auto simp: drop_Cons')
      then show "Q data ((h @ es) @ es')" by simp
    qed (use x' bs Suc.prems in \<open>auto split: if_splits\<close>)
    then show "wp (if Suc m = 0 then ret (read_data x') else spi_run base x') env Q F (h @ es)"
      by simp
  qed
qed

section \<open>One command, one transaction\<close>

lemma wp_alt_avalon_spi_command:
  assumes ok: "spi_core_ok env base" and len: "length wdata + rlen > 0"
    and flags: "flags AND ALT_AVALON_SPI_COMMAND_TOGGLE_SS_N = 0"
    and Q: "\<And>es data. confined base es \<Longrightarrow> length data = rlen \<Longrightarrow>
       data = drop (length wdata) (tl (spi_miso base es)) \<Longrightarrow>
       (\<And>l. foldl (spi_line_ev base) l es =
          (let bs = (case line_cs l of None \<Rightarrow> [] | Some bs \<Rightarrow> bs) @ wdata @ replicate rlen 0;
               m = push_bit (unat slave) 1 in
           if flags AND ALT_AVALON_SPI_COMMAND_MERGE = 0
           then l\<lparr>line_sel := m, line_cs := None, line_txns := line_txns l @ [(m, bs)]\<rparr>
           else l\<lparr>line_sel := m, line_cs := Some bs\<rparr>)) \<Longrightarrow>
       Q (rlen, data) (h @ es)"
  shows "wp (alt_avalon_spi_command base slave wdata rlen flags) env Q F h"
proof -
  let ?pre = "[Wr (IOADDR base SPI_SLAVE_SEL) (push_bit (unat slave) 1),
    Wr (IOADDR base SPI_CONTROL) SPI_CONTROL_SSO_MSK,
    Rd (IOADDR base SPI_RXDATA) (env (h @ [Wr (IOADDR base SPI_SLAVE_SEL) (push_bit (unat slave) 1),
    Wr (IOADDR base SPI_CONTROL) SPI_CONTROL_SSO_MSK]) (IOADDR base SPI_RXDATA))]"
  obtain m where m: "length wdata + rlen = Suc m" using len by (cases "length wdata + rlen") auto
  let ?x = "\<lparr>credits = 1, write_data = wdata, write_zeros = rlen,
             read_ignore = length wdata, read_data = [], read_length = rlen\<rparr>"
  have "wp (spi_run base ?x) env
     (\<lambda>rdata. wp (poll (\<lambda>status. \<not> bits_set status SPI_STATUS_TMT_MSK) (IOADDR base SPI_STATUS)) env
        (\<lambda>_. wp (if flags AND ALT_AVALON_SPI_COMMAND_MERGE = 0 then IOWR base SPI_CONTROL 0 else ret ())
           env (\<lambda>_. Q (rlen, rdata)) F) F) F (h @ ?pre)"
  proof (rule wp_spi_run [OF ok, of _ _ m])
    fix data es
    assume es: "confined base es" "shifted base (write_data ?x @ replicate (write_zeros ?x) 0) es"
      "data = read_data ?x @ drop (read_ignore ?x) (spi_miso base es)"
      "length (spi_miso base es) = Suc m" "spi_pending base ((h @ ?pre) @ es) = 0"
    show "wp (poll (\<lambda>status. \<not> bits_set status SPI_STATUS_TMT_MSK) (IOADDR base SPI_STATUS)) env
        (\<lambda>_. wp (if flags AND ALT_AVALON_SPI_COMMAND_MERGE = 0 then IOWR base SPI_CONTROL 0 else ret ())
           env (\<lambda>_. Q (rlen, data)) F) F ((h @ ?pre) @ es)"
    proof (rule wp_pollI)
      show "F Hang \<or> eventually_reads env (IOADDR base SPI_STATUS)
          (\<lambda>v. \<not> \<not> bits_set v SPI_STATUS_TMT_MSK) ((h @ ?pre) @ es)"
        using spi_core_okD(4) [OF ok] by simp
    next
      fix vs v
      let ?post = "map (Rd (IOADDR base SPI_STATUS)) (vs @ [v])"
      let ?fin = "if flags AND ALT_AVALON_SPI_COMMAND_MERGE = 0 then [Wr (IOADDR base SPI_CONTROL) 0] else []"
      have "Q (rlen, data) (h @ (?pre @ es @ ?post @ ?fin))"
      proof (rule Q)
        fix l
        from es(2) show "foldl (spi_line_ev base) l (?pre @ es @ ?post @ ?fin) =
          (let bs = (case line_cs l of None \<Rightarrow> [] | Some bs \<Rightarrow> bs) @ wdata @ replicate rlen 0;
               m = push_bit (unat slave) 1 in
           if flags AND ALT_AVALON_SPI_COMMAND_MERGE = 0
           then l\<lparr>line_sel := m, line_cs := None, line_txns := line_txns l @ [(m, bs)]\<rparr>
           else l\<lparr>line_sel := m, line_cs := Some bs\<rparr>)"
          by (auto simp: shifted_def spi_masks Let_def)
      qed (use es m in \<open>auto split: if_splits\<close>)
      then show "wp (if flags AND ALT_AVALON_SPI_COMMAND_MERGE = 0 then IOWR base SPI_CONTROL 0 else ret ())
           env (\<lambda>_. Q (rlen, data)) F (((h @ ?pre) @ es) @ ?post)"
        by (simp add: wp_simps split: if_splits)
    qed
  qed (use m in \<open>auto simp: spi_pending_append\<close>)
  then show ?thesis by (simp add: alt_avalon_spi_command_def wp_simps flags)
qed

section \<open>Whatever the hardware does\<close>

text \<open>
  Without any assumption on the core the driver may poll for ever, but it touches only the core's
  registers, never stores outside the caller's buffer, and fills it exactly when it returns.
\<close>

lemma wp_spi_iter_any:
  assumes "F Hang" and room: "0 < read_ignore x + (read_length x - length (read_data x))" "length (read_data x) \<le> read_length x"
    and Q: "\<And>stop x' es. confined base es \<Longrightarrow> length (read_data x') \<le> read_length x' \<Longrightarrow>
       read_length x' = read_length x \<Longrightarrow> stop = (read_ignore x' + (read_length x' - length (read_data x')) = 0) \<Longrightarrow> Q (stop, x') (h @ es)"
  shows "wp (spi_iter base x) env Q F h"
  unfolding spi_iter_def wp_bnd
proof (rule wp_pollI)
  fix vs v
  let ?h = "h @ map (Rd (IOADDR base SPI_STATUS)) (vs @ [v])"
  let ?r = "\<lambda>ts. Rd (IOADDR base SPI_RXDATA) (env (?h @ ts) (IOADDR base SPI_RXDATA))"
  have rx: "wp (spi_rx base v x') env Q F (?h @ ts)"
    if "read_ignore x' = read_ignore x" "read_data x' = read_data x" "read_length x' = read_length x"
      "confined base ts" for x' ts
    using room that
    by (auto simp: spi_rx_def Let_def wp_simps
        intro: Q [of "map (Rd (IOADDR base SPI_STATUS)) (vs @ [v]) @ ts", simplified]
          Q [of "map (Rd (IOADDR base SPI_STATUS)) (vs @ [v]) @ ts @ [?r ts]", simplified])
  show "wp (spi_tx base v x) env (\<lambda>x'. wp (spi_rx base v x') env Q F) F ?h"
    using rx [of _ "[]"] rx [of _ "[Wr (IOADDR base SPI_TXDATA) (ucast (hd (write_data x)))]"]
      rx [of _ "[Wr (IOADDR base SPI_TXDATA) 0]"]
    by (cases "write_data x") (auto simp: spi_tx_def Let_def wp_simps)
qed (use assms(1) in simp)

lemma spi_loop_any:
  assumes "spi_loop base x env h = Some r"
    and "0 < read_ignore x + (read_length x - length (read_data x))" "length (read_data x) \<le> read_length x"
  shows "case r of Inl f \<Rightarrow> f = Hang
     | Inr (d, h') \<Rightarrow> length d = read_length x \<and> (\<exists>es. h' = h @ es \<and> confined base es)"
proof -
  let ?Q = "\<lambda>base (x :: spi_xfer) (env :: env) h (r :: fault + u8 list \<times> history).
      0 < read_ignore x + (read_length x - length (read_data x)) \<longrightarrow> length (read_data x) \<le> read_length x \<longrightarrow>
      (case r of Inl f \<Rightarrow> f = Hang
       | Inr (d, h') \<Rightarrow> length d = read_length x \<and> (\<exists>es. h' = h @ es \<and> confined base es))"
  have "?Q base x env h r"
  proof (rule spi_loop.raw_induct [where P = ?Q, OF _ assms(1)], intro impI)
    fix f base x env h r
    assume IH: "\<And>base x env h r. f base x env h = Some r \<Longrightarrow> ?Q base x env h r"
      and eq: "(case spi_iter base x env h of
                  Inl f \<Rightarrow> Some (Inl f)
                | Inr r \<Rightarrow> (if fst (fst r) then Some (Inr (read_data (snd (fst r)), snd r))
                     else f base (snd (fst r)) env (snd r))) = Some r"
      and room: "0 < read_ignore x + (read_length x - length (read_data x))" "length (read_data x) \<le> read_length x"
    let ?R = "\<lambda>s h'. \<exists>es. h' = h @ es \<and> confined base es \<and>
       length (read_data (snd s)) \<le> read_length (snd s) \<and> read_length (snd s) = read_length x \<and>
       fst s = (read_ignore (snd s) + (read_length (snd s) - length (read_data (snd s))) = 0)"
    have it: "wp (spi_iter base x) env ?R (\<lambda>f. f = Hang) h"
      by (rule wp_spi_iter_any) (use room in auto)
    show "case r of Inl f \<Rightarrow> f = Hang
       | Inr (d, h') \<Rightarrow> length d = read_length x \<and> (\<exists>es. h' = h @ es \<and> confined base es)"
    proof (cases "spi_iter base x env h")
      case (Inl f')
      with eq it show ?thesis by (auto simp: wp_def)
    next
      case (Inr t)
      obtain stop x' h' where t: "t = ((stop, x'), h')" by (metis prod.exhaust)
      with it Inr have "?R (stop, x') h'" by (simp add: wp_def)
      then obtain es where es: "h' = h @ es" "confined base es" "length (read_data x') \<le> read_length x'"
        "read_length x' = read_length x"
        "stop = (read_ignore x' + (read_length x' - length (read_data x')) = 0)"
        unfolding fst_conv snd_conv by (elim exE conjE) (rule that; assumption)
      show ?thesis
      proof (cases stop)
        case True
        with eq Inr t es show ?thesis by auto
      next
        case False
        with eq Inr t have "f base x' env h' = Some r" by simp
        from IH [OF this] es False show ?thesis
          by (auto split: sum.splits prod.splits)
      qed
    qed
  qed
  then show ?thesis using assms(2,3) by simp
qed

lemma wp_spi_run_any:
  assumes "F Hang" and "0 < read_ignore x + (read_length x - length (read_data x))" "length (read_data x) \<le> read_length x"
    and "\<And>d es. confined base es \<Longrightarrow> length d = read_length x \<Longrightarrow> Q d (h @ es)"
  shows "wp (spi_run base x) env Q F h"
proof (cases "spi_loop base x env h")
  case None
  then show ?thesis using assms(1) by (simp add: wp_def spi_run_def)
next
  case (Some r)
  from spi_loop_any [OF this assms(2,3)] Some show ?thesis
    using assms(1,4) by (auto simp: wp_def spi_run_def split: sum.splits prod.splits)
qed

lemma wp_spi_command_any:
  assumes "F Hang" and "length wdata + rlen > 0"
    and Q: "\<And>d es. confined base es \<Longrightarrow> length d = rlen \<Longrightarrow> Q (rlen, d) (h @ es)"
  shows "wp (alt_avalon_spi_command base slave wdata rlen flags) env Q F h"
proof -
  let ?x = "\<lparr>credits = 1, write_data = wdata, write_zeros = rlen,
             read_ignore = length wdata, read_data = [], read_length = rlen\<rparr>"
  let ?rest = "\<lambda>rdata :: u8 list. bnd (poll (\<lambda>status. \<not> bits_set status SPI_STATUS_TMT_MSK) (IOADDR base SPI_STATUS)) (\<lambda>_.
     bnd (if flags AND ALT_AVALON_SPI_COMMAND_MERGE = 0 then IOWR base SPI_CONTROL 0 else ret ()) (\<lambda>_.
     ret (rlen, rdata)))"
  have "wp (spi_run base ?x) env (\<lambda>rdata. wp (?rest rdata) env Q F) F (h @ pre)"
    if pre: "confined base pre" for pre
  proof (rule wp_spi_run_any)
    fix d :: "u8 list" and es
    assume "confined base es" "length d = read_length ?x"
    then have es: "confined base es" "length d = rlen" by simp_all
    show "wp (?rest d) env Q F ((h @ pre) @ es)"
      unfolding wp_bnd
    proof (rule wp_pollI)
      fix vs v
      show "wp (if flags AND ALT_AVALON_SPI_COMMAND_MERGE = 0 then IOWR base SPI_CONTROL 0 else ret ())
          env (\<lambda>_. wp (ret (rlen, d)) env Q F) F
          (((h @ pre) @ es) @ map (Rd (IOADDR base SPI_STATUS)) (vs @ [v]))"
      proof -
        let ?fin = "if flags AND ALT_AVALON_SPI_COMMAND_MERGE = 0 then [Wr (IOADDR base SPI_CONTROL) 0] else []"
        have "Q (rlen, d) (h @ (pre @ es @ map (Rd (IOADDR base SPI_STATUS)) (vs @ [v]) @ ?fin))"
          by (rule Q) (use es pre in auto)
        then show ?thesis by (simp add: wp_simps split: if_splits)
      qed
    qed (use assms(1) in simp)
  qed (use assms(1,2) in auto)
  from this [of "[Wr (IOADDR base SPI_SLAVE_SEL) (push_bit (unat slave) 1),
         Wr (IOADDR base SPI_CONTROL) SPI_CONTROL_SSO_MSK, Rd (IOADDR base SPI_RXDATA) _]"]
    this [of "[Wr (IOADDR base SPI_SLAVE_SEL) (push_bit (unat slave) 1), Rd (IOADDR base SPI_RXDATA) _]"]
  show ?thesis
    by (auto simp: alt_avalon_spi_command_def wp_simps)
qed

section \<open>The contract of an SPI master\<close>

text \<open>
  The effect of one call on the line: the bytes join the transaction in progress, which the call
  ends unless it asks to keep the chip selected.
\<close>

definition spi_effect :: "u32 \<Rightarrow> u32 \<Rightarrow> u8 list \<Rightarrow> spi_line \<Rightarrow> spi_line" where
  "spi_effect flags m bs l =
     (let all = (case line_cs l of None \<Rightarrow> [] | Some cur \<Rightarrow> cur) @ bs in
      if flags AND ALT_AVALON_SPI_COMMAND_MERGE = 0
      then l\<lparr>line_sel := m, line_cs := None, line_txns := line_txns l @ [(m, all)]\<rparr>
      else l\<lparr>line_sel := m, line_cs := Some all\<rparr>)"

text \<open>
  The driver's clients rely on this alone: a call touches only its core's registers and returns
  the requested number of bytes; on a core that keeps its protocol it returns, has exactly
  \<open>spi_effect\<close>, and returns the bytes received after those clocked in while writing (the very
  first load of \<open>RXDATA\<close> only empties the register). A client that must not hang (\<open>\<not> F Hang\<close>) has to provide such a core.
\<close>

locale spi_master = bus_observer step for step :: "u32 \<Rightarrow> spi_line \<Rightarrow> io \<Rightarrow> spi_line" +
  fixes cmd :: "u32 \<Rightarrow> u32 \<Rightarrow> u8 list \<Rightarrow> nat \<Rightarrow> u32 \<Rightarrow> (history, nat \<times> u8 list) prog"
    and core_ok :: "env \<Rightarrow> u32 \<Rightarrow> bool"
    and miso :: "u32 \<Rightarrow> io list \<Rightarrow> u8 list"
  assumes cmd_law:
    "F Hang \<or> core_ok env base \<Longrightarrow> 0 < length wdata + rlen \<Longrightarrow>
     flags AND ALT_AVALON_SPI_COMMAND_TOGGLE_SS_N = 0 \<Longrightarrow>
     (\<And>es d. confined base es \<Longrightarrow> length d = rlen \<Longrightarrow>
        core_ok env base \<longrightarrow> (\<forall>l. foldl (step base) l es =
          spi_effect flags (push_bit (unat slave) 1) (wdata @ replicate rlen 0) l) \<and>
          d = drop (length wdata) (tl (miso base es)) \<Longrightarrow>
        Q (rlen, d) (h @ es)) \<Longrightarrow>
     wp (cmd base slave wdata rlen flags) env Q F h"
begin

text \<open>A burst of writes is one transaction per write, in order.\<close>

lemma burst:
  assumes "core_ok env base" and "\<forall>w\<in>set ws. w \<noteq> []"
    and Q: "\<And>es. confined base es \<Longrightarrow>
       (\<And>l. line_cs l = None \<Longrightarrow> line_txns (foldl (step base) l es) =
          line_txns l @ map (Pair (push_bit (unat slave) 1)) ws) \<Longrightarrow> Q () (h @ es)"
  shows "wp (each ws (\<lambda>w. void (cmd base slave w 0 0))) env Q F h"
proof -
  let ?m = "push_bit (unat slave) (1 :: u32)"
  let ?I = "\<lambda>ws h'. \<exists>es. h' = h @ es \<and> confined base es \<and>
     (\<forall>l. line_cs l = None \<longrightarrow> line_cs (foldl (step base) l es) = None \<and>
        line_txns (foldl (step base) l es) = line_txns l @ map (Pair ?m) ws)"
  show ?thesis
  proof (rule wp_each [where I = ?I])
    show "?I [] h" by (rule exI [of _ "[]"]) simp
  next
    fix ys w zs h'
    assume ws: "ws = ys @ w # zs" and "?I ys h'"
    then obtain es where es: "h' = h @ es" "confined base es"
      "\<And>l. line_cs l = None \<Longrightarrow> line_cs (foldl (step base) l es) = None \<and>
        line_txns (foldl (step base) l es) = line_txns l @ map (Pair ?m) ys" by blast
    show "wp (void (cmd base slave w 0 0)) env (\<lambda>_. ?I (ys @ [w])) F h'"
      unfolding wp_void
    proof (rule cmd_law)
      fix es' d
      assume e: "confined base es'" and "core_ok env base \<longrightarrow> (\<forall>l. foldl (step base) l es' =
          spi_effect 0 ?m (w @ replicate 0 0) l) \<and> d = drop (length w) (tl (miso base es'))"
      then have "\<And>l. foldl (step base) l es' = spi_effect 0 ?m w l" using assms(1) by simp
      with es e show "?I (ys @ [w]) (h' @ es')"
        by (intro exI [of _ "es @ es'"]) (auto simp: spi_effect_def Let_def)
    qed (use assms(1,2) ws in \<open>auto simp: spi_masks\<close>)
  next
    fix h'
    assume "?I ws h'"
    then show "Q () h'" using Q by blast
  qed
qed

end

text \<open>The Avalon SPI driver meets the contract.\<close>

interpretation spi: spi_master spi_line_ev alt_avalon_spi_command spi_core_ok spi_miso
proof unfold_locales
  fix F :: "fault \<Rightarrow> bool" and env base and slave :: u32 and flags h and wdata :: "u8 list" and rlen
    and Q :: "nat \<times> u8 list \<Rightarrow> history \<Rightarrow> bool"
  assume hang: "F Hang \<or> spi_core_ok env base" and len: "0 < length wdata + rlen"
    and flags: "flags AND ALT_AVALON_SPI_COMMAND_TOGGLE_SS_N = 0"
    and Q: "\<And>es d. confined base es \<Longrightarrow> length d = rlen \<Longrightarrow>
        spi_core_ok env base \<longrightarrow> (\<forall>l. foldl (spi_line_ev base) l es =
          spi_effect flags (push_bit (unat slave) 1) (wdata @ replicate rlen 0) l) \<and>
          d = drop (length wdata) (tl (spi_miso base es)) \<Longrightarrow>
        Q (rlen, d) (h @ es)"
  show "wp (alt_avalon_spi_command base slave wdata rlen flags) env Q F h"
  proof (cases "spi_core_ok env base")
    case True
    show ?thesis
      by (rule wp_alt_avalon_spi_command [OF True len flags], rule Q)
        (auto simp: spi_effect_def Let_def)
  next
    case False
    with hang have "F Hang" by simp
    then show ?thesis by (rule wp_spi_command_any [OF _ len]) (use Q False in auto)
  qed
qed

end
