(* ===== verification/I2c_Driver.thy ===== *)
theory I2c_Driver
  imports Bus
begin

text \<open>
  The polled I2C master driver, \<^verbatim>\<open>i2c_opencores.c\<close>, register by register, and what its calls do
  on the bus: a log of addressed, sent and received bytes decoded from the register accesses, with
  the acknowledge each byte got.
\<close>

section \<open>Registers\<close>

abbreviation (input) I2C_PRERLO :: u32 where "I2C_PRERLO \<equiv> 0"
abbreviation (input) I2C_PRERHI :: u32 where "I2C_PRERHI \<equiv> 1"
abbreviation (input) I2C_CTR :: u32 where "I2C_CTR \<equiv> 2"
abbreviation (input) I2C_TXR :: u32 where "I2C_TXR \<equiv> 3"
abbreviation (input) I2C_RXR :: u32 where "I2C_RXR \<equiv> 3"
abbreviation (input) I2C_CR :: u32 where "I2C_CR \<equiv> 4"
abbreviation (input) I2C_SR :: u32 where "I2C_SR \<equiv> 4"

definition I2C_CTR_EN_MSK :: u32 where "I2C_CTR_EN_MSK = 0x80"
definition I2C_CR_STA_MSK :: u32 where "I2C_CR_STA_MSK = 0x80"
definition I2C_CR_STO_MSK :: u32 where "I2C_CR_STO_MSK = 0x40"
definition I2C_CR_RD_MSK :: u32 where "I2C_CR_RD_MSK = 0x20"
definition I2C_CR_WR_MSK :: u32 where "I2C_CR_WR_MSK = 0x10"
definition I2C_CR_NACK_MSK :: u32 where "I2C_CR_NACK_MSK = 0x8"
definition I2C_CR_IACK_MSK :: u32 where "I2C_CR_IACK_MSK = 0x1"
definition I2C_SR_RXNACK_MSK :: u32 where "I2C_SR_RXNACK_MSK = 0x80"
definition I2C_SR_TIP_MSK :: u32 where "I2C_SR_TIP_MSK = 0x2"

lemmas i2c_masks = I2C_CTR_EN_MSK_def I2C_CR_STA_MSK_def I2C_CR_STO_MSK_def I2C_CR_RD_MSK_def
  I2C_CR_WR_MSK_def I2C_CR_NACK_MSK_def I2C_CR_IACK_MSK_def I2C_SR_RXNACK_MSK_def I2C_SR_TIP_MSK_def

definition I2C_ACK :: u32 where "I2C_ACK = 0"
definition I2C_NOACK :: u32 where "I2C_NOACK = 1"

section \<open>The driver\<close>

definition I2C_init :: "u32 \<Rightarrow> u32 \<Rightarrow> u32 \<Rightarrow> (history, unit) prog" where
  "I2C_init base clk speed =
     (if 5 * speed = 0 then fail DivByZero
      else let prescale = clk div (5 * speed) - 1 in
        seqs [IOWR base I2C_CTR 0,
              IOWR base I2C_CR I2C_CR_IACK_MSK,
              IOWR base I2C_PRERLO (0xff AND prescale),
              IOWR base I2C_PRERHI (0xff AND drop_bit 8 prescale),
              IOWR base I2C_CTR I2C_CTR_EN_MSK])"

text \<open>\<open>while (IORD(SR) & TIP);\<close>\<close>

definition I2C_wait_tip :: "u32 \<Rightarrow> (history, u32) prog" where
  "I2C_wait_tip base = poll (\<lambda>v. bits_set v I2C_SR_TIP_MSK) (IOADDR base I2C_SR)"

definition I2C_check_ack :: "u32 \<Rightarrow> (history, u32) prog" where
  "I2C_check_ack base =
     bnd (IORD base I2C_SR) (\<lambda>v. ret (if bits_set v I2C_SR_RXNACK_MSK then I2C_NOACK else I2C_ACK))"

definition I2C_start :: "u32 \<Rightarrow> u32 \<Rightarrow> u32 \<Rightarrow> (history, u32) prog" where
  "I2C_start base add rd =
     bnd (IOWR base I2C_TXR (push_bit 1 add + (0x1 AND rd))) (\<lambda>_.
     bnd (IOWR base I2C_CR (I2C_CR_STA_MSK OR I2C_CR_WR_MSK)) (\<lambda>_.
     bnd (I2C_wait_tip base) (\<lambda>_.
     I2C_check_ack base)))"

definition I2C_read :: "u32 \<Rightarrow> u32 \<Rightarrow> (history, u32) prog" where
  "I2C_read base lst =
     bnd (if lst \<noteq> 0
          then IOWR base I2C_CR (I2C_CR_RD_MSK OR I2C_CR_NACK_MSK OR I2C_CR_STO_MSK)
          else IOWR base I2C_CR I2C_CR_RD_MSK) (\<lambda>_.
     bnd (I2C_wait_tip base) (\<lambda>_.
     IORD base I2C_RXR))"

definition I2C_write :: "u32 \<Rightarrow> u8 \<Rightarrow> u32 \<Rightarrow> (history, u32) prog" where
  "I2C_write base dat lst =
     bnd (IOWR base I2C_TXR (ucast dat)) (\<lambda>_.
     bnd (if lst \<noteq> 0
          then IOWR base I2C_CR (I2C_CR_WR_MSK OR I2C_CR_STO_MSK)
          else IOWR base I2C_CR I2C_CR_WR_MSK) (\<lambda>_.
     bnd (I2C_wait_tip base) (\<lambda>_.
     I2C_check_ack base)))"

section \<open>The bus log\<close>

text \<open>
  \<open>SendAddr b ack\<close> is a (repeated) start condition and the address byte, \<open>SendByte b stop ack\<close> a
  data byte sent, \<open>RecvByte v stop\<close> a byte received; \<open>stop\<close> says that a stop condition follows.
  The decoder remembers the transmit register, the command in progress and whether the core has
  reported its end; a sent byte is logged when its acknowledge is read, a received byte when
  \<open>RXR\<close> is read.
\<close>

datatype i2c_op = SendAddr u8 bool | SendByte u8 bool bool | RecvByte u32 bool

record i2c_line =
  i2c_txr :: u8
  i2c_cmd :: "u32 option"
  i2c_done :: bool
  i2c_log :: "i2c_op list"

definition i2c_sent :: "u32 \<Rightarrow> u8 \<Rightarrow> bool \<Rightarrow> i2c_op list" where
  "i2c_sent cr b ack =
     (if bits_set cr I2C_CR_WR_MSK then
        [if bits_set cr I2C_CR_STA_MSK then SendAddr b ack
         else SendByte b (bits_set cr I2C_CR_STO_MSK) ack]
      else [])"

fun i2c_line_ev :: "u32 \<Rightarrow> i2c_line \<Rightarrow> io \<Rightarrow> i2c_line" where
  "i2c_line_ev base l (Wr a v) =
     (if a = IOADDR base I2C_TXR then l\<lparr>i2c_txr := ucast v\<rparr>
      else if a = IOADDR base I2C_CR then l\<lparr>i2c_cmd := Some v, i2c_done := False\<rparr>
      else l)"
| "i2c_line_ev base l (Rd a v) =
     (case i2c_cmd l of
        None \<Rightarrow> l
      | Some cr \<Rightarrow>
          if a = IOADDR base I2C_SR then
            (if \<not> i2c_done l then l\<lparr>i2c_done := \<not> bits_set v I2C_SR_TIP_MSK\<rparr>
             else if bits_set cr I2C_CR_WR_MSK then
               l\<lparr>i2c_cmd := None,
                 i2c_log := i2c_log l @ i2c_sent cr (i2c_txr l) (\<not> bits_set v I2C_SR_RXNACK_MSK)\<rparr>
             else l)
          else if a = IOADDR base I2C_RXR \<and> i2c_done l \<and> bits_set cr I2C_CR_RD_MSK then
            l\<lparr>i2c_cmd := None, i2c_log := i2c_log l @ [RecvByte v (bits_set cr I2C_CR_STO_MSK)]\<rparr>
          else l)"
| "i2c_line_ev base l _ = l"

definition i2c_bus :: "u32 \<Rightarrow> history \<Rightarrow> i2c_line" where
  "i2c_bus base h = foldl (i2c_line_ev base) \<lparr>i2c_txr = 0, i2c_cmd = None, i2c_done = False, i2c_log = []\<rparr> h"

lemma i2c_bus_append: "i2c_bus base (h @ es) = foldl (i2c_line_ev base) (i2c_bus base h) es"
  by (simp add: i2c_bus_def)

interpretation i2c_line: bus_observer i2c_line_ev
proof unfold_locales
  fix e :: io and base :: u32 and l :: i2c_line
  assume "\<forall>a\<in>device_addrs base. io_addr e \<noteq> Some a"
  then show "i2c_line_ev base l e = l"
    by (cases e) (auto simp: device_addrs_def split: option.splits)
qed

lemma i2c_bus_polls:
  assumes "i2c_cmd l = Some cr" and "\<not> i2c_done l" and "\<forall>w\<in>set vs. bits_set w I2C_SR_TIP_MSK"
  shows "foldl (i2c_line_ev base) l (map (Rd (IOADDR base I2C_SR)) vs) = l"
  using assms(3)
proof (induction vs)
  case (Cons v vs)
  have "i2c_line_ev base l (Rd (IOADDR base I2C_SR) v) = l"
    using Cons.prems assms(1,2) by (cases l) auto
  with Cons show ?case by simp
qed simp

section \<open>What each call does on the bus\<close>

text \<open>The documented behaviour relied on: a transfer in progress ends.\<close>

definition i2c_core_ok :: "env \<Rightarrow> u32 \<Rightarrow> bool" where
  "i2c_core_ok env base \<longleftrightarrow>
     (\<forall>h. eventually_reads env (IOADDR base I2C_SR) (\<lambda>v. \<not> bits_set v I2C_SR_TIP_MSK) h)"

text \<open>\<open>i2c_logs base ops es\<close>: the accesses \<open>es\<close> add exactly \<open>ops\<close> to the bus log.\<close>

definition i2c_logs :: "u32 \<Rightarrow> i2c_op list \<Rightarrow> io list \<Rightarrow> bool" where
  "i2c_logs base ops es \<longleftrightarrow> confined base es \<and>
     (\<forall>l. i2c_log (foldl (i2c_line_ev base) l es) = i2c_log l @ ops)"

lemma i2c_logs_append: "i2c_logs base ops es \<Longrightarrow> i2c_logs base ops' es' \<Longrightarrow> i2c_logs base (ops @ ops') (es @ es')"
  by (simp add: i2c_logs_def)

lemma i2c_logs_Nil [simp]: "i2c_logs base [] []"
  by (simp add: i2c_logs_def)

lemma i2c_log_bus: "i2c_logs base ops es \<Longrightarrow> i2c_log (i2c_bus base (h @ es)) = i2c_log (i2c_bus base h) @ ops"
  by (simp add: i2c_logs_def i2c_bus_append)

lemma wp_I2C_wait_tip:
  assumes "F Hang \<or> i2c_core_ok env base"
    and "\<And>vs v. \<not> bits_set v I2C_SR_TIP_MSK \<Longrightarrow> \<forall>w\<in>set vs. bits_set w I2C_SR_TIP_MSK \<Longrightarrow>
       Q v (h @ map (Rd (IOADDR base I2C_SR)) (vs @ [v]))"
  shows "wp (I2C_wait_tip base) env Q F h"
  unfolding I2C_wait_tip_def
  by (rule wp_pollI) (use assms in \<open>auto simp: i2c_core_ok_def\<close>)

lemma wp_I2C_send:
  assumes ok: "F Hang \<or> i2c_core_ok env base"
    and cr: "bits_set cr I2C_CR_WR_MSK"
    and Q: "\<And>es ack. i2c_logs base (i2c_sent cr (ucast t) ack) es \<Longrightarrow>
       Q (if ack then I2C_ACK else I2C_NOACK) (h @ es)"
  shows "wp (bnd (IOWR base I2C_TXR t) (\<lambda>_. bnd (IOWR base I2C_CR cr) (\<lambda>_.
           bnd (I2C_wait_tip base) (\<lambda>_. I2C_check_ack base)))) env Q F h"
  unfolding I2C_check_ack_def wp_simps
proof (rule wp_I2C_wait_tip [where F = F, OF ok])
  fix vs v
  assume v: "\<not> bits_set v I2C_SR_TIP_MSK" "\<forall>w\<in>set vs. bits_set w I2C_SR_TIP_MSK"
  let ?h = "((h @ [Wr (IOADDR base I2C_TXR) t]) @ [Wr (IOADDR base I2C_CR) cr]) @
    map (Rd (IOADDR base I2C_SR)) (vs @ [v])"
  let ?s = "env ?h (IOADDR base I2C_SR)"
  let ?es = "[Wr (IOADDR base I2C_TXR) t, Wr (IOADDR base I2C_CR) cr] @
    map (Rd (IOADDR base I2C_SR)) vs @ [Rd (IOADDR base I2C_SR) v, Rd (IOADDR base I2C_SR) ?s]"
  have "i2c_logs base (i2c_sent cr (ucast t) (\<not> bits_set ?s I2C_SR_RXNACK_MSK)) ?es"
    using v cr by (simp add: i2c_logs_def i2c_bus_polls)
  from Q [OF this] show "Q (if bits_set ?s I2C_SR_RXNACK_MSK then I2C_NOACK else I2C_ACK)
      (?h @ [Rd (IOADDR base I2C_SR) ?s])"
    by (auto split: if_splits)
qed

lemma wp_I2C_start:
  assumes "F Hang \<or> i2c_core_ok env base"
    and "\<And>es ack. i2c_logs base [SendAddr (ucast (push_bit 1 add + (0x1 AND rd))) ack] es \<Longrightarrow>
       Q (if ack then I2C_ACK else I2C_NOACK) (h @ es)"
  shows "wp (I2C_start base add rd) env Q F h"
  unfolding I2C_start_def
  by (rule wp_I2C_send [where F = F, OF assms(1)]) (use assms(2) in \<open>auto simp: i2c_masks i2c_sent_def\<close>)

lemma wp_I2C_write:
  assumes "F Hang \<or> i2c_core_ok env base"
    and "\<And>es ack. i2c_logs base [SendByte dat (lst \<noteq> 0) ack] es \<Longrightarrow>
       Q (if ack then I2C_ACK else I2C_NOACK) (h @ es)"
  shows "wp (I2C_write base dat lst) env Q F h"
proof -
  let ?cr = "if lst \<noteq> 0 then I2C_CR_WR_MSK OR I2C_CR_STO_MSK else I2C_CR_WR_MSK"
  have "I2C_write base dat lst = bnd (IOWR base I2C_TXR (ucast dat)) (\<lambda>_. bnd (IOWR base I2C_CR ?cr) (\<lambda>_.
           bnd (I2C_wait_tip base) (\<lambda>_. I2C_check_ack base)))"
    by (simp add: I2C_write_def)
  moreover have "wp \<dots> env Q F h"
  proof (rule wp_I2C_send [where F = F, OF assms(1)])
    fix es ack
    assume "i2c_logs base (i2c_sent ?cr (ucast (ucast dat :: u32)) ack) es"
    moreover have "i2c_sent ?cr (ucast (ucast dat :: u32)) ack = [SendByte dat (lst \<noteq> 0) ack]"
      by (simp add: i2c_masks i2c_sent_def)
    ultimately show "Q (if ack then I2C_ACK else I2C_NOACK) (h @ es)"
      by (intro assms(2)) simp
  qed (simp add: i2c_masks)
  ultimately show ?thesis by simp
qed

lemma wp_I2C_read:
  assumes ok: "F Hang \<or> i2c_core_ok env base"
    and Q: "\<And>es v. i2c_logs base [RecvByte v (lst \<noteq> 0)] es \<Longrightarrow> Q v (h @ es)"
  shows "wp (I2C_read base lst) env Q F h"
proof -
  let ?cr = "if lst \<noteq> 0 then I2C_CR_RD_MSK OR I2C_CR_NACK_MSK OR I2C_CR_STO_MSK else I2C_CR_RD_MSK"
  have "I2C_read base lst =
      bnd (IOWR base I2C_CR ?cr) (\<lambda>_. bnd (I2C_wait_tip base) (\<lambda>_. IORD base I2C_RXR))"
    by (simp add: I2C_read_def)
  moreover have "wp \<dots> env Q F h"
    unfolding wp_simps
  proof (rule wp_I2C_wait_tip [where F = F, OF ok])
    fix vs v
    assume v: "\<not> bits_set v I2C_SR_TIP_MSK" "\<forall>w\<in>set vs. bits_set w I2C_SR_TIP_MSK"
    let ?h = "(h @ [Wr (IOADDR base I2C_CR) ?cr]) @ map (Rd (IOADDR base I2C_SR)) (vs @ [v])"
    let ?r = "env ?h (IOADDR base I2C_RXR)"
    let ?es = "[Wr (IOADDR base I2C_CR) ?cr] @ map (Rd (IOADDR base I2C_SR)) vs @
      [Rd (IOADDR base I2C_SR) v, Rd (IOADDR base I2C_RXR) ?r]"
    have "i2c_logs base [RecvByte ?r (lst \<noteq> 0)] ?es"
      using v by (simp add: i2c_logs_def i2c_bus_polls i2c_masks)
    from Q [OF this] show "Q ?r (?h @ [Rd (IOADDR base I2C_RXR) ?r])" by simp
  qed
  ultimately show ?thesis by simp
qed

section \<open>The contract of an I2C master\<close>

text \<open>
  \<open>i2c_track busy ops\<close>: is \<open>ops\<close> well formed for a bus that is free or in a transaction
  (data bytes only inside a transaction, which an address byte opens and a stop condition ends),
  and is the bus busy after it? \<open>i2c_whole\<close>: a sequence of complete transactions.
\<close>

fun i2c_track :: "bool \<Rightarrow> i2c_op list \<Rightarrow> bool option" where
  "i2c_track busy [] = Some busy"
| "i2c_track busy (SendAddr b ack # ops) = i2c_track True ops"
| "i2c_track busy (SendByte b stop ack # ops) = (if busy then i2c_track (\<not> stop) ops else None)"
| "i2c_track busy (RecvByte v stop # ops) = (if busy then i2c_track (\<not> stop) ops else None)"

definition i2c_whole :: "i2c_op list \<Rightarrow> bool" where
  "i2c_whole ops \<longleftrightarrow> i2c_track False ops = Some False"

lemma i2c_track_append:
  "i2c_track busy (ops @ ops') = Option.bind (i2c_track busy ops) (\<lambda>b. i2c_track b ops')"
  by (induction busy ops rule: i2c_track.induct) auto

lemma i2c_whole_append: "i2c_whole ops \<Longrightarrow> i2c_whole ops' \<Longrightarrow> i2c_whole (ops @ ops')"
  by (simp add: i2c_whole_def i2c_track_append)

lemma i2c_whole_Nil [simp]: "i2c_whole []"
  by (simp add: i2c_whole_def)

text \<open>
  What the driver's clients rely on: each call adds one operation to the bus log, and returns on a
  core whose transfers end. \<open>logs base ops es\<close> abstracts how the log is read off the accesses.
\<close>

locale i2c_master =
  fixes start :: "u32 \<Rightarrow> u32 \<Rightarrow> u32 \<Rightarrow> (history, u32) prog"
    and send :: "u32 \<Rightarrow> u8 \<Rightarrow> u32 \<Rightarrow> (history, u32) prog"
    and recv :: "u32 \<Rightarrow> u32 \<Rightarrow> (history, u32) prog"
    and core_ok :: "env \<Rightarrow> u32 \<Rightarrow> bool"
    and logs :: "u32 \<Rightarrow> i2c_op list \<Rightarrow> io list \<Rightarrow> bool"
  assumes logs_Nil: "logs base [] []"
    and logs_append: "logs base ops es \<Longrightarrow> logs base ops' es' \<Longrightarrow> logs base (ops @ ops') (es @ es')"
    and start_law: "F Hang \<or> core_ok env base \<Longrightarrow>
      (\<And>es ack. logs base [SendAddr (ucast (push_bit 1 add + (0x1 AND rd))) ack] es \<Longrightarrow>
         Q (if ack then I2C_ACK else I2C_NOACK) (h @ es)) \<Longrightarrow>
      wp (start base add rd) env Q F h"
    and send_law: "F Hang \<or> core_ok env base \<Longrightarrow>
      (\<And>es ack. logs base [SendByte dat (lst \<noteq> 0) ack] es \<Longrightarrow>
         Q (if ack then I2C_ACK else I2C_NOACK) (h @ es)) \<Longrightarrow>
      wp (send base dat lst) env Q F h"
    and recv_law: "F Hang \<or> core_ok env base \<Longrightarrow>
      (\<And>es v. logs base [RecvByte v (lst \<noteq> 0)] es \<Longrightarrow> Q v (h @ es)) \<Longrightarrow>
      wp (recv base lst) env Q F h"
begin

text \<open>
  A register write, as every configuration routine does it: address the device for writing, send
  the register number, then the value bytes, the last one with a stop condition.
\<close>

lemma write_register:
  assumes ok: "F Hang \<or> core_ok env base"
    and Q: "\<And>es a0 as. length as = length bs \<Longrightarrow>
       logs base (SendAddr (ucast (push_bit 1 add)) a0 #
         map (\<lambda>(b, ack). SendByte b False ack) (zip bs as)) es \<Longrightarrow> Q () (h @ es)"
  shows "wp (bnd (void (start base add 0)) (\<lambda>_. each bs (\<lambda>b. void (send base b 0)))) env Q F h"
  unfolding wp_bnd wp_void
proof (rule start_law [where F = F, OF ok])
  fix es0 a0
  assume start: "logs base [SendAddr (ucast (push_bit 1 add + (0x1 AND 0))) a0] es0"
  let ?I = "\<lambda>bs h'. \<exists>es as. h' = (h @ es0) @ es \<and> length as = length bs \<and>
     logs base (map (\<lambda>(b, ack). SendByte b False ack) (zip bs as)) es"
  show "wp (each bs (\<lambda>b. void (send base b 0))) env Q F (h @ es0)"
  proof (rule wp_each [where I = ?I])
    show "?I [] (h @ es0)" by (rule exI [of _ "[]"]) (simp add: logs_Nil)
  next
    fix ys b zs h'
    assume "?I ys h'"
    then obtain es as where es: "h' = (h @ es0) @ es" "length as = length ys"
      "logs base (map (\<lambda>(b, ack). SendByte b False ack) (zip ys as)) es" by blast
    show "wp (void (send base b 0)) env (\<lambda>_. ?I (ys @ [b])) F h'"
      unfolding wp_void
    proof (rule send_law [where F = F, OF ok])
      fix es' ack
      assume "logs base [SendByte b (0 \<noteq> (0 :: u32)) ack] es'"
      from logs_append [OF es(3) this] es show "?I (ys @ [b]) (h' @ es')"
        by (intro exI [of _ "es @ es'"] exI [of _ "as @ [ack]"]) simp
    qed
  next
    fix h'
    assume "?I bs h'"
    then obtain es as where es: "h' = (h @ es0) @ es" "length as = length bs"
      "logs base (map (\<lambda>(b, ack). SendByte b False ack) (zip bs as)) es" by blast
    from Q [OF es(2), of a0 "es0 @ es"] logs_append [OF start es(3)] es(1)
    show "Q () h'" by simp
  qed
qed

text \<open>Receiving: \<open>n\<close> acknowledged bytes, then the last one.\<close>

lemma receive_bytes:
  assumes ok: "F Hang \<or> core_ok env base"
    and Q: "\<And>es vs. length vs = length xs \<Longrightarrow> logs base (map (\<lambda>v. RecvByte v False) vs) es \<Longrightarrow> Q vs (h @ es)"
  shows "wp (collect xs (\<lambda>_. recv base 0)) env Q F h"
  using Q
proof (induction xs arbitrary: h Q)
  case Nil
  from Nil [of "[]" "[]"] show ?case by (simp add: wp_simps logs_Nil)
next
  case (Cons x xs)
  show ?case
    unfolding collect.simps wp_bnd
  proof (rule recv_law [where F = F, OF ok])
    fix es v
    assume v: "logs base [RecvByte v (0 \<noteq> (0 :: u32))] es"
    show "wp (collect xs (\<lambda>_. recv base 0)) env (\<lambda>ys. wp (ret (v # ys)) env Q F) F (h @ es)"
    proof (rule Cons.IH)
      fix es' vs
      assume vs: "length vs = length xs" "logs base (map (\<lambda>v. RecvByte v False) vs) es'"
      from logs_append [OF v vs(2)] vs(1) Cons.prems [of "v # vs" "es @ es'"]
      show "wp (ret (v # vs)) env Q F ((h @ es) @ es')" by (simp add: wp_simps)
    qed
  qed
qed

end

interpretation i2c: i2c_master I2C_start I2C_write I2C_read i2c_core_ok i2c_logs
  by unfold_locales
    (fact i2c_logs_Nil i2c_logs_append wp_I2C_start wp_I2C_write wp_I2C_read)+

end
