(* ===== verification/Protocol.thy ===== *)
theory Protocol
  imports Prelude
begin

text \<open>
  The control protocol LMS64C (\<^verbatim>\<open>LMS64C_protocol.h\<close>) and the board description
  (\<^verbatim>\<open>sodera_pcie_brd_v1r0.h\<close>): command and status codes, the layout of the 64-byte control
  packet, device numbers and the layout and opcodes of the configuration flash.
\<close>

named_theorems protocol_defs \<open>command, status and board constants\<close>

section \<open>Device and expansion board numbers\<close>

datatype eLMS_DEV =
    LMS_DEV_UNKNOWN | LMS_DEV_EVB6 | LMS_DEV_DIGIGREEN | LMS_DEV_DIGIRED | LMS_DEV_EVB7
  | LMS_DEV_ZIPPER | LMS_DEV_SOCKETBOARD | LMS_DEV_EVB7V2 | LMS_DEV_STREAM | LMS_DEV_NOVENA
  | LMS_DEV_DATASPARK | LMS_DEV_RFSPARK | LMS_DEV_LMS6002USB | LMS_DEV_RFESPARK
  | LMS_DEV_SODERA | LMS_DEV_SODERAPCIE

primrec lms_dev_code :: "eLMS_DEV \<Rightarrow> u8" where
  "lms_dev_code LMS_DEV_UNKNOWN = 0"
| "lms_dev_code LMS_DEV_EVB6 = 1"
| "lms_dev_code LMS_DEV_DIGIGREEN = 2"
| "lms_dev_code LMS_DEV_DIGIRED = 3"
| "lms_dev_code LMS_DEV_EVB7 = 4"
| "lms_dev_code LMS_DEV_ZIPPER = 5"
| "lms_dev_code LMS_DEV_SOCKETBOARD = 6"
| "lms_dev_code LMS_DEV_EVB7V2 = 7"
| "lms_dev_code LMS_DEV_STREAM = 8"
| "lms_dev_code LMS_DEV_NOVENA = 9"
| "lms_dev_code LMS_DEV_DATASPARK = 10"
| "lms_dev_code LMS_DEV_RFSPARK = 11"
| "lms_dev_code LMS_DEV_LMS6002USB = 12"
| "lms_dev_code LMS_DEV_RFESPARK = 13"
| "lms_dev_code LMS_DEV_SODERA = 14"
| "lms_dev_code LMS_DEV_SODERAPCIE = 15"

datatype eEXP_BOARD =
    EXP_BOARD_UNKNOWN | EXP_BOARD_UNSUPPORTED | EXP_BOARD_NO | EXP_BOARD_MYRIAD1
  | EXP_BOARD_MYRIAD2 | EXP_BOARD_MYRIAD_NOVENA | EXP_BOARD_HPM1000 | EXP_BOARD_MYRIAD7
  | EXP_BOARD_HPM7

primrec exp_board_code :: "eEXP_BOARD \<Rightarrow> u8" where
  "exp_board_code EXP_BOARD_UNKNOWN = 0"
| "exp_board_code EXP_BOARD_UNSUPPORTED = 1"
| "exp_board_code EXP_BOARD_NO = 2"
| "exp_board_code EXP_BOARD_MYRIAD1 = 3"
| "exp_board_code EXP_BOARD_MYRIAD2 = 4"
| "exp_board_code EXP_BOARD_MYRIAD_NOVENA = 5"
| "exp_board_code EXP_BOARD_HPM1000 = 6"
| "exp_board_code EXP_BOARD_MYRIAD7 = 7"
| "exp_board_code EXP_BOARD_HPM7 = 8"

text \<open>The C enumerations are ordered by their numbers.\<close>

lemma lms_dev_code_eq: "lms_dev_code a = lms_dev_code b \<Longrightarrow> a = b"
  by (cases a; cases b; simp)

lemma exp_board_code_eq: "exp_board_code a = exp_board_code b \<Longrightarrow> a = b"
  by (cases a; cases b; simp)

instantiation eLMS_DEV :: linorder
begin

definition less_eq_eLMS_DEV :: "eLMS_DEV \<Rightarrow> eLMS_DEV \<Rightarrow> bool" where
  "less_eq_eLMS_DEV a b \<longleftrightarrow> lms_dev_code a \<le> lms_dev_code b"

definition less_eLMS_DEV :: "eLMS_DEV \<Rightarrow> eLMS_DEV \<Rightarrow> bool" where
  "less_eLMS_DEV a b \<longleftrightarrow> lms_dev_code a < lms_dev_code b"

instance
proof
  fix a b :: eLMS_DEV
  show "a \<le> b \<Longrightarrow> b \<le> a \<Longrightarrow> a = b"
    using lms_dev_code_eq by (auto simp: less_eq_eLMS_DEV_def)
qed (auto simp: less_eq_eLMS_DEV_def less_eLMS_DEV_def)

end

instantiation eEXP_BOARD :: linorder
begin

definition less_eq_eEXP_BOARD :: "eEXP_BOARD \<Rightarrow> eEXP_BOARD \<Rightarrow> bool" where
  "less_eq_eEXP_BOARD a b \<longleftrightarrow> exp_board_code a \<le> exp_board_code b"

definition less_eEXP_BOARD :: "eEXP_BOARD \<Rightarrow> eEXP_BOARD \<Rightarrow> bool" where
  "less_eEXP_BOARD a b \<longleftrightarrow> exp_board_code a < exp_board_code b"

instance
proof
  fix a b :: eEXP_BOARD
  show "a \<le> b \<Longrightarrow> b \<le> a \<Longrightarrow> a = b"
    using exp_board_code_eq by (auto simp: less_eq_eEXP_BOARD_def)
qed (auto simp: less_eq_eEXP_BOARD_def less_eEXP_BOARD_def)

end

section \<open>Commands and statuses\<close>

definition LMS_PROTOCOL_VER :: u8 where [protocol_defs]: "LMS_PROTOCOL_VER = 1"
definition LMS_CTRL_PACKET_SIZE :: nat where [protocol_defs]: "LMS_CTRL_PACKET_SIZE = 64"

definition CMD_GET_INFO :: u8 where [protocol_defs]: "CMD_GET_INFO = 0x00"
definition CMD_SI5351_WR :: u8 where [protocol_defs]: "CMD_SI5351_WR = 0x13"
definition CMD_SI5351_RD :: u8 where [protocol_defs]: "CMD_SI5351_RD = 0x14"
definition CMD_LMS_RST :: u8 where [protocol_defs]: "CMD_LMS_RST = 0x20"
definition CMD_LMS7002_WR :: u8 where [protocol_defs]: "CMD_LMS7002_WR = 0x21"
definition CMD_LMS7002_RD :: u8 where [protocol_defs]: "CMD_LMS7002_RD = 0x22"
definition CMD_LMS_MCU_FW_WR :: u8 where [protocol_defs]: "CMD_LMS_MCU_FW_WR = 0x2C"
definition CMD_ADF4002_WR :: u8 where [protocol_defs]: "CMD_ADF4002_WR = 0x31"
definition CMD_GPIO_DIR_WR :: u8 where [protocol_defs]: "CMD_GPIO_DIR_WR = 0x4F"
definition CMD_GPIO_DIR_RD :: u8 where [protocol_defs]: "CMD_GPIO_DIR_RD = 0x50"
definition CMD_GPIO_WR :: u8 where [protocol_defs]: "CMD_GPIO_WR = 0x51"
definition CMD_GPIO_RD :: u8 where [protocol_defs]: "CMD_GPIO_RD = 0x52"
definition CMD_ALTERA_FPGA_GW_WR :: u8 where [protocol_defs]: "CMD_ALTERA_FPGA_GW_WR = 0x53"
definition CMD_BRDSPI16_WR :: u8 where [protocol_defs]: "CMD_BRDSPI16_WR = 0x55"
definition CMD_BRDSPI16_RD :: u8 where [protocol_defs]: "CMD_BRDSPI16_RD = 0x56"
definition CMD_ANALOG_VAL_WR :: u8 where [protocol_defs]: "CMD_ANALOG_VAL_WR = 0x61"
definition CMD_ANALOG_VAL_RD :: u8 where [protocol_defs]: "CMD_ANALOG_VAL_RD = 0x62"
definition CMD_MEMORY_WR :: u8 where [protocol_defs]: "CMD_MEMORY_WR = 0x8C"
definition CMD_MEMORY_RD :: u8 where [protocol_defs]: "CMD_MEMORY_RD = 0x8D"

definition STATUS_COMPLETED_CMD :: u8 where [protocol_defs]: "STATUS_COMPLETED_CMD = 1"
definition STATUS_UNKNOWN_CMD :: u8 where [protocol_defs]: "STATUS_UNKNOWN_CMD = 2"
definition STATUS_BUSY_CMD :: u8 where [protocol_defs]: "STATUS_BUSY_CMD = 3"
definition STATUS_BLOCKS_ERROR_CMD :: u8 where [protocol_defs]: "STATUS_BLOCKS_ERROR_CMD = 4"
definition STATUS_ERROR_CMD :: u8 where [protocol_defs]: "STATUS_ERROR_CMD = 5"
definition STATUS_WRONG_ORDER_CMD :: u8 where [protocol_defs]: "STATUS_WRONG_ORDER_CMD = 6"
definition STATUS_INVALID_PERIPH_ID_CMD :: u8 where [protocol_defs]: "STATUS_INVALID_PERIPH_ID_CMD = 8"

definition LMS_RST_DEACTIVATE :: u8 where [protocol_defs]: "LMS_RST_DEACTIVATE = 0"
definition LMS_RST_ACTIVATE :: u8 where [protocol_defs]: "LMS_RST_ACTIVATE = 1"
definition LMS_RST_PULSE :: u8 where [protocol_defs]: "LMS_RST_PULSE = 2"

section \<open>Packet layout\<close>

text \<open>
  \<open>tLMS_Ctrl_Packet\<close>: an 8-byte header (command, status, number of data blocks, peripheral id,
  four reserved bytes) and 56 data bytes, laid over a 64-byte buffer.
\<close>

definition HDR_COMMAND :: nat where [protocol_defs]: "HDR_COMMAND = 0"
definition HDR_STATUS :: nat where [protocol_defs]: "HDR_STATUS = 1"
definition HDR_DATA_BLOCKS :: nat where [protocol_defs]: "HDR_DATA_BLOCKS = 2"
definition HDR_PERIPH_ID :: nat where [protocol_defs]: "HDR_PERIPH_ID = 3"
definition HDR_SIZE :: nat where [protocol_defs]: "HDR_SIZE = 8"
definition DATA_FIELD_SIZE :: nat where "DATA_FIELD_SIZE = LMS_CTRL_PACKET_SIZE - HDR_SIZE"

lemma DATA_FIELD_SIZE [simp]: "DATA_FIELD_SIZE = 56"
  by (simp add: DATA_FIELD_SIZE_def protocol_defs)

section \<open>Board description\<close>

definition SI5351_I2C_ADDR :: u32 where [protocol_defs]: "SI5351_I2C_ADDR = 0x60"
definition LM75_I2C_ADDR :: u32 where [protocol_defs]: "LM75_I2C_ADDR = 0x48"
definition EEPROM_I2C_ADDR :: u32 where [protocol_defs]: "EEPROM_I2C_ADDR = 0x50"

definition DEV_TYPE :: u8 where [protocol_defs]: "DEV_TYPE = lms_dev_code LMS_DEV_SODERAPCIE"
definition HW_VER :: u8 where [protocol_defs]: "HW_VER = 3"
definition EXP_BOARD :: u8 where [protocol_defs]: "EXP_BOARD = exp_board_code EXP_BOARD_UNKNOWN"
definition FPGA_SIZE :: u32 where [protocol_defs]: "FPGA_SIZE = 2751361"

definition FLASH_PAGE_SIZE :: nat where "FLASH_PAGE_SIZE = 0x100"
definition FLASH_SECTOR_SIZE :: nat where "FLASH_SECTOR_SIZE = 0x10000"
definition FLASH_LAYOUT_FPGA_BITSTREAM :: nat where "FLASH_LAYOUT_FPGA_BITSTREAM = 0"

lemmas flash_sizes = FLASH_PAGE_SIZE_def FLASH_SECTOR_SIZE_def FLASH_LAYOUT_FPGA_BITSTREAM_def

definition FLASH_CMD_SECTOR_ERASE :: u8 where "FLASH_CMD_SECTOR_ERASE = 0x1B"
definition FLASH_CMD_PAGE_WRITE :: u8 where "FLASH_CMD_PAGE_WRITE = 0x40"
definition FLASH_CMD_PAGE_WRITEEN :: u8 where "FLASH_CMD_PAGE_WRITEEN = 0x60"
definition FLASH_CMD_PAGE_READ :: u8 where "FLASH_CMD_PAGE_READ = 0xC0"
definition FLASH_CMD_PAGE_READST :: u8 where "FLASH_CMD_PAGE_READST = 0xA0"
definition FLASH_CMD_READJEDECID :: u8 where "FLASH_CMD_READJEDECID = 0xF9"

lemmas flash_cmds = FLASH_CMD_SECTOR_ERASE_def FLASH_CMD_PAGE_WRITE_def FLASH_CMD_PAGE_WRITEEN_def
  FLASH_CMD_PAGE_READ_def FLASH_CMD_PAGE_READST_def FLASH_CMD_READJEDECID_def

end
