(* ===== verification/Firmware_State.thy ===== *)
theory Firmware_State
  imports Spi_Contract I2c_Driver Protocol "HOL-Library.Signed_Division"
begin

text \<open>
  The global variables of \<^verbatim>\<open>main.c\<close> and \<^verbatim>\<open>spi_flash_lib.c\<close> as one record over the bus history,
  the bounds-checked accessors of its arrays, and the programs that run a driver call from it.
\<close>

section \<open>Globals\<close>

text \<open>
  The two packet buffers are the 64-byte arrays the C pointers \<open>LMS_Ctrl_Packet_Rx\<close> and
  \<open>LMS_Ctrl_Packet_Tx\<close> are laid over. Of the four \<open>int\<close> counters of the flash programming
  code, \<open>flash_page\<close> is counted up without a limit and is kept as the 32-bit word it is, read as a
  signed number (\<open>sint\<close>) and wrapping around; the other three are integers, and \<open>fw_ok\<close> below bounds
  them by the page size.
\<close>

record fw =
  hist :: history
  glEp0Buffer_Rx :: "u8 list"
  glEp0Buffer_Tx :: "u8 list"
  block :: u8
  cmd_errors :: u8
  dac_val :: u8
  converted_val :: u16
  flash_page :: u32
  flash_page_data_cnt :: int
  flash_data_cnt_free :: int
  flash_data_counter_to_copy :: int
  last_portion :: u32
  current_portion :: u32
  data_cnt :: u8
  sc_brdg_data :: "u8 list"
  flash_page_data :: "u8 list"
  fpga_byte :: u32
  MCU_retries :: u8
  spiFastRead :: u8

text \<open>The static initialisers: arrays without one are zero.\<close>

definition fw_boot :: fw where
  "fw_boot =
     \<lparr>hist = [], glEp0Buffer_Rx = replicate 64 0, glEp0Buffer_Tx = replicate 64 0,
      block = 0, cmd_errors = 0, dac_val = 134, converted_val = 300,
      flash_page = 0, flash_page_data_cnt = 0, flash_data_cnt_free = 0,
      flash_data_counter_to_copy = 0, last_portion = 0, current_portion = 0, data_cnt = 0,
      sc_brdg_data = replicate 4 0, flash_page_data = replicate FLASH_PAGE_SIZE 0, fpga_byte = 0,
      MCU_retries = 0, spiFastRead = 0\<rparr>"

text \<open>The C array sizes, and the ranges of the flash programming counters.\<close>

definition fw_ok :: "fw \<Rightarrow> bool" where
  "fw_ok s \<longleftrightarrow> length (glEp0Buffer_Rx s) = 64 \<and> length (glEp0Buffer_Tx s) = 64 \<and>
     length (sc_brdg_data s) = 4 \<and> length (flash_page_data s) = FLASH_PAGE_SIZE \<and>
     0 \<le> flash_page_data_cnt s \<and> flash_page_data_cnt s \<le> int FLASH_PAGE_SIZE \<and>
     0 \<le> flash_data_cnt_free s \<and> flash_data_cnt_free s \<le> int FLASH_PAGE_SIZE \<and>
     0 \<le> flash_data_counter_to_copy s \<and> flash_data_counter_to_copy s \<le> 255"

lemma fw_ok_boot: "fw_ok fw_boot"
  by (simp add: fw_ok_def fw_boot_def)

section \<open>Driver calls\<close>

definition drv :: "(history, 'a) prog \<Rightarrow> (fw, 'a) prog" where
  "drv m = (\<lambda>env s. case m env (hist s) of Inl f \<Rightarrow> Inl f | Inr (a, h) \<Rightarrow> Inr (a, s\<lparr>hist := h\<rparr>))"

definition usleep :: "nat \<Rightarrow> (fw, unit) prog" where
  "usleep us = modify (\<lambda>s. s\<lparr>hist := hist s @ [Usleep us]\<rparr>)"

definition nops :: "nat \<Rightarrow> (fw, unit) prog" where
  "nops n = modify (\<lambda>s. s\<lparr>hist := hist s @ [Nops n]\<rparr>)"

lemma wp_drv [wp_simps]:
  "wp (drv m) env Q F = (\<lambda>s. wp m env (\<lambda>a h. Q a (s\<lparr>hist := h\<rparr>)) F (hist s))"
  by (auto simp: wp_def drv_def fun_eq_iff split: sum.splits)

lemma wp_usleep [wp_simps]: "wp (usleep n) env Q F = (\<lambda>s. Q () (s\<lparr>hist := hist s @ [Usleep n]\<rparr>))"
  by (simp add: usleep_def wp_simps)

lemma wp_nops [wp_simps]: "wp (nops n) env Q F = (\<lambda>s. Q () (s\<lparr>hist := hist s @ [Nops n]\<rparr>))"
  by (simp add: nops_def wp_simps)

text \<open>The driver calls of the application; the SPI driver's return value is never used.\<close>

definition spi_command :: "u32 \<Rightarrow> u32 \<Rightarrow> u8 list \<Rightarrow> nat \<Rightarrow> u32 \<Rightarrow> (fw, u8 list) prog" where
  "spi_command base slave wdata rlen flags =
     drv (bnd (alt_avalon_spi_command base slave wdata rlen flags) (\<lambda>r. ret (snd r)))"

text \<open>What the accesses \<open>es\<close> of one SPI driver call are, given the bytes it sent and returned.\<close>

definition spi_call :: "env \<Rightarrow> u32 \<Rightarrow> u32 \<Rightarrow> u8 list \<Rightarrow> u8 list \<Rightarrow> u32 \<Rightarrow> io list \<Rightarrow> bool" where
  "spi_call env base slave wdata rdata flags es \<longleftrightarrow> confined base es \<and>
     (spi_core_ok env base \<longrightarrow>
        (\<forall>l. foldl (spi_line_ev base) l es =
           spi_effect flags (push_bit (unat slave) 1) (wdata @ replicate (length rdata) 0) l) \<and>
        rdata = drop (length wdata) (tl (spi_miso base es)))"

lemma wp_spi_command:
  assumes "F Hang \<or> spi_core_ok env base" and "0 < length wdata + rlen"
    and "flags AND ALT_AVALON_SPI_COMMAND_TOGGLE_SS_N = 0"
    and Q: "\<And>es d. length d = rlen \<Longrightarrow> spi_call env base slave wdata d flags es \<Longrightarrow>
       Q d (s\<lparr>hist := hist s @ es\<rparr>)"
  shows "wp (spi_command base slave wdata rlen flags) env Q F s"
  unfolding spi_command_def wp_drv wp_bnd wp_ret
  by (rule spi.cmd_law [where F = F, OF assms(1-3)]) (auto simp: spi_call_def intro: Q)

lemma wp_drv_I2C_start:
  assumes "F Hang \<or> i2c_core_ok env base"
    and "\<And>es ack. i2c_logs base [SendAddr (ucast (push_bit 1 add + (0x1 AND rd))) ack] es \<Longrightarrow>
       Q (if ack then I2C_ACK else I2C_NOACK) (s\<lparr>hist := hist s @ es\<rparr>)"
  shows "wp (drv (I2C_start base add rd)) env Q F s"
  unfolding wp_drv by (rule i2c.start_law [where F = F, OF assms(1)]) (rule assms(2))

lemma wp_drv_I2C_write:
  assumes "F Hang \<or> i2c_core_ok env base"
    and "\<And>es ack. i2c_logs base [SendByte dat (lst \<noteq> 0) ack] es \<Longrightarrow>
       Q (if ack then I2C_ACK else I2C_NOACK) (s\<lparr>hist := hist s @ es\<rparr>)"
  shows "wp (drv (I2C_write base dat lst)) env Q F s"
  unfolding wp_drv by (rule i2c.send_law [where F = F, OF assms(1)]) (rule assms(2))

lemma wp_drv_I2C_read:
  assumes "F Hang \<or> i2c_core_ok env base"
    and "\<And>es v. i2c_logs base [RecvByte v (lst \<noteq> 0)] es \<Longrightarrow> Q v (s\<lparr>hist := hist s @ es\<rparr>)"
  shows "wp (drv (I2C_read base lst)) env Q F s"
  unfolding wp_drv by (rule i2c.recv_law [where F = F, OF assms(1)]) (rule assms(2))

lemmas driver_rules = wp_spi_command wp_drv_I2C_start wp_drv_I2C_write wp_drv_I2C_read

section \<open>Packets\<close>

definition rx_hdr :: "nat \<Rightarrow> fw \<Rightarrow> u8" where
  "rx_hdr i s = glEp0Buffer_Rx s ! i"

definition tx_hdr :: "nat \<Rightarrow> fw \<Rightarrow> u8" where
  "tx_hdr i s = glEp0Buffer_Tx s ! i"

definition set_tx_hdr :: "nat \<Rightarrow> u8 \<Rightarrow> (fw, unit) prog" where
  "set_tx_hdr i v = modify (\<lambda>s. s\<lparr>glEp0Buffer_Tx := (glEp0Buffer_Tx s)[i := v]\<rparr>)"

definition set_status :: "u8 \<Rightarrow> (fw, unit) prog" where
  "set_status v = set_tx_hdr HDR_STATUS v"

text \<open>\<open>Data_field[i]\<close> of the received packet, and of the packet to send.\<close>

definition rx_data :: "nat \<Rightarrow> (fw, u8) prog" where
  "rx_data i = (if i < DATA_FIELD_SIZE then gets (\<lambda>s. glEp0Buffer_Rx s ! (HDR_SIZE + i)) else fail OutOfBounds)"

definition set_rx_data :: "nat \<Rightarrow> u8 \<Rightarrow> (fw, unit) prog" where
  "set_rx_data i v =
     (if i < DATA_FIELD_SIZE
      then modify (\<lambda>s. s\<lparr>glEp0Buffer_Rx := (glEp0Buffer_Rx s)[HDR_SIZE + i := v]\<rparr>)
      else fail OutOfBounds)"

definition set_tx_data :: "nat \<Rightarrow> u8 \<Rightarrow> (fw, unit) prog" where
  "set_tx_data i v =
     (if i < DATA_FIELD_SIZE
      then modify (\<lambda>s. s\<lparr>glEp0Buffer_Tx := (glEp0Buffer_Tx s)[HDR_SIZE + i := v]\<rparr>)
      else fail OutOfBounds)"

text \<open>\<open>n\<close> bytes from \<open>&Data_field[i]\<close>, as passed to a driver or to \<open>memcpy\<close>.\<close>

definition rx_slice :: "nat \<Rightarrow> nat \<Rightarrow> (fw, u8 list) prog" where
  "rx_slice i n =
     (if i + n \<le> DATA_FIELD_SIZE then gets (\<lambda>s. take n (drop (HDR_SIZE + i) (glEp0Buffer_Rx s)))
      else fail OutOfBounds)"

text \<open>Store a list from index \<open>i\<close> on.\<close>

fun splice :: "nat \<Rightarrow> 'a list \<Rightarrow> 'a list \<Rightarrow> 'a list" where
  "splice i [] xs = xs"
| "splice i (y # ys) xs = splice (Suc i) ys (xs[i := y])"

definition tx_store :: "nat \<Rightarrow> u8 list \<Rightarrow> (fw, unit) prog" where
  "tx_store i bs =
     (if i + length bs \<le> DATA_FIELD_SIZE
      then modify (\<lambda>s. s\<lparr>glEp0Buffer_Tx := splice (HDR_SIZE + i) bs (glEp0Buffer_Tx s)\<rparr>)
      else fail OutOfBounds)"

definition inc_errors :: "(fw, unit) prog" where
  "inc_errors = modify (\<lambda>s. s\<lparr>cmd_errors := cmd_errors s + 1\<rparr>)"

text \<open>\<open>cmd_errors += e\<close>: the sum is truncated to eight bits.\<close>

definition add_errors :: "u32 \<Rightarrow> (fw, unit) prog" where
  "add_errors e = modify (\<lambda>s. s\<lparr>cmd_errors := ucast (ucast (cmd_errors s) + e)\<rparr>)"

definition set_sc :: "nat \<Rightarrow> u8 \<Rightarrow> (fw, unit) prog" where
  "set_sc i v = modify (\<lambda>s. s\<lparr>sc_brdg_data := (sc_brdg_data s)[i := v]\<rparr>)"

section \<open>Block loops\<close>

text \<open>
  \<open>for (block = 0; block < LMS_Ctrl_Packet_Rx->Header.Data_blocks; block++) body\<close>, with the
  global 8-bit counter and the bound read again in every round. 256 rounds always suffice: the
  bound is at most 255.
\<close>

primrec for_blocks_from :: "nat \<Rightarrow> (nat \<Rightarrow> (fw, unit) prog) \<Rightarrow> (fw, unit) prog" where
  "for_blocks_from 0 body = fail Hang"
| "for_blocks_from (Suc n) body =
     bnd (gets (\<lambda>s. (block s, rx_hdr HDR_DATA_BLOCKS s))) (\<lambda>(b, m).
       if b < m
       then bnd (body (unat b)) (\<lambda>_.
            bnd (modify (\<lambda>s. s\<lparr>block := block s + 1\<rparr>)) (\<lambda>_. for_blocks_from n body))
       else ret ())"

definition for_blocks :: "(nat \<Rightarrow> (fw, unit) prog) \<Rightarrow> (fw, unit) prog" where
  "for_blocks body = bnd (modify (\<lambda>s. s\<lparr>block := 0\<rparr>)) (\<lambda>_. for_blocks_from 256 body)"

section \<open>Preconditions of the accessors\<close>

lemma wp_accessors [wp_simps]:
  "wp (set_tx_hdr i v) env Q F = (\<lambda>s. Q () (s\<lparr>glEp0Buffer_Tx := (glEp0Buffer_Tx s)[i := v]\<rparr>))"
  "wp (set_status v) env Q F = (\<lambda>s. Q () (s\<lparr>glEp0Buffer_Tx := (glEp0Buffer_Tx s)[HDR_STATUS := v]\<rparr>))"
  "wp (rx_data i) env Qb F =
     (\<lambda>s. if i < 56 then Qb (glEp0Buffer_Rx s ! (HDR_SIZE + i)) s else F OutOfBounds)"
  "wp (set_rx_data i v) env Q F =
     (\<lambda>s. if i < 56 then Q () (s\<lparr>glEp0Buffer_Rx := (glEp0Buffer_Rx s)[HDR_SIZE + i := v]\<rparr>)
          else F OutOfBounds)"
  "wp (set_tx_data i v) env Q F =
     (\<lambda>s. if i < 56 then Q () (s\<lparr>glEp0Buffer_Tx := (glEp0Buffer_Tx s)[HDR_SIZE + i := v]\<rparr>)
          else F OutOfBounds)"
  "wp (rx_slice i n) env Ql F =
     (\<lambda>s. if i + n \<le> 56 then Ql (take n (drop (HDR_SIZE + i) (glEp0Buffer_Rx s))) s else F OutOfBounds)"
  "wp (tx_store i bs) env Q F =
     (\<lambda>s. if i + length bs \<le> 56
          then Q () (s\<lparr>glEp0Buffer_Tx := splice (HDR_SIZE + i) bs (glEp0Buffer_Tx s)\<rparr>)
          else F OutOfBounds)"
  "wp inc_errors env Q F = (\<lambda>s. Q () (s\<lparr>cmd_errors := cmd_errors s + 1\<rparr>))"
  "wp (add_errors e) env Q F = (\<lambda>s. Q () (s\<lparr>cmd_errors := ucast (ucast (cmd_errors s) + e)\<rparr>))"
  "wp (set_sc i v) env Q F = (\<lambda>s. Q () (s\<lparr>sc_brdg_data := (sc_brdg_data s)[i := v]\<rparr>))"
  by (auto simp: fun_eq_iff set_tx_hdr_def set_status_def rx_data_def set_rx_data_def set_tx_data_def
      rx_slice_def tx_store_def inc_errors_def add_errors_def set_sc_def wp_simps)

lemma length_splice [simp]: "length (splice i ys xs) = length xs"
  by (induction i ys xs rule: splice.induct) auto

lemma splice_append:
  "splice (length as) ys (as @ xs @ bs) = as @ ys @ bs" if "length xs = length ys"
  using that
proof (induction ys arbitrary: as xs)
  case (Cons y ys)
  then obtain x xs' where "xs = x # xs'" by (cases xs) auto
  with Cons.prems Cons.IH [of xs' "as @ [y]"] show ?case by simp
qed simp

lemma splice_take_drop:
  assumes "i + length ys \<le> length xs"
  shows "splice i ys xs = take i xs @ ys @ drop (i + length ys) xs"
proof -
  have "xs = take i xs @ take (length ys) (drop i xs) @ drop (i + length ys) xs"
    by (metis append_take_drop_id drop_drop add.commute)
  moreover have "splice (length (take i xs)) ys
      (take i xs @ take (length ys) (drop i xs) @ drop (i + length ys) xs)
      = take i xs @ ys @ drop (i + length ys) xs"
    by (rule splice_append) (use assms in simp)
  ultimately show ?thesis using assms by simp
qed

text \<open>The loop rule: an invariant of the number of blocks done, as long as the body keeps the bound.\<close>

lemma wp_for_blocks:
  assumes init: "I 0 (s\<lparr>block := 0\<rparr>)" and bound: "rx_hdr HDR_DATA_BLOCKS s = m"
    and body: "\<And>i s. i < unat m \<Longrightarrow> I i s \<Longrightarrow> unat (block s) = i \<Longrightarrow> rx_hdr HDR_DATA_BLOCKS s = m \<Longrightarrow>
       wp (body i) env (\<lambda>_ s'. block s' = block s \<and> rx_hdr HDR_DATA_BLOCKS s' = m \<and>
         I (Suc i) (s'\<lparr>block := block s' + 1\<rparr>)) F s"
    and final: "\<And>s. I (unat m) s \<Longrightarrow> rx_hdr HDR_DATA_BLOCKS s = m \<Longrightarrow> Q () s"
  shows "wp (for_blocks body) env Q F s"
proof -
  have loop: "wp (for_blocks_from n body) env Q F s"
    if "I (unat (block s)) s" "unat (block s) \<le> unat m" "rx_hdr HDR_DATA_BLOCKS s = m"
      "unat m < unat (block s) + n" for n s
    using that
  proof (induction n arbitrary: s)
    case 0
    then show ?case by simp
  next
    case (Suc n s)
    show ?case
    proof (cases "block s < m")
      case True
      then have lt: "unat (block s) < unat m" by (simp add: word_less_nat_alt)
      then have inc: "unat (block s + 1) = Suc (unat (block s))"
        using unat_u8_less [of m] by (intro unat_u8_Suc) linarith
      have "wp (body (unat (block s))) env (\<lambda>_ s'. block s' = block s \<and> rx_hdr HDR_DATA_BLOCKS s' = m \<and>
         I (Suc (unat (block s))) (s'\<lparr>block := block s' + 1\<rparr>)) F s"
        using lt Suc.prems by (intro body) auto
      then have "wp (body (unat (block s))) env
          (\<lambda>_ s'. wp (for_blocks_from n body) env Q F (s'\<lparr>block := block s' + 1\<rparr>)) F s"
      proof (rule wp_mono)
        fix a s'
        assume s': "block s' = block s \<and> rx_hdr HDR_DATA_BLOCKS s' = m \<and>
          I (Suc (unat (block s))) (s'\<lparr>block := block s' + 1\<rparr>)"
        show "wp (for_blocks_from n body) env Q F (s'\<lparr>block := block s' + 1\<rparr>)"
          by (rule Suc.IH) (use s' lt inc Suc.prems in \<open>auto simp: rx_hdr_def\<close>)
      qed simp
      with True Suc.prems show ?thesis by (simp add: wp_simps)
    next
      case False
      with Suc.prems have "unat (block s) = unat m" by (simp add: word_less_nat_alt)
      with Suc.prems False show ?thesis by (simp add: wp_simps final)
    qed
  qed
  have "wp (for_blocks_from 256 body) env Q F (s\<lparr>block := 0\<rparr>)"
    by (rule loop) (use init bound unat_u8_less [of m] in \<open>auto simp: rx_hdr_def\<close>)
  then show ?thesis by (simp add: for_blocks_def wp_simps)
qed

end
