(* ===== verification/Actions.thy ===== *)
theory Actions
  imports Firmware_State
begin

text \<open>
  What a command does to the board, as the ordered list of the driver-level actions it performs:
  SPI transfers with the bytes sent and received, I2C operations with their acknowledges, single
  register accesses and delays. \<open>does\<close> ties such a list to the register accesses in the history,
  \<open>twp\<close> is the weakest precondition that speaks of actions instead of register accesses.
\<close>

named_theorems twp_intros \<open>introduction rules that run a program symbolically\<close>

section \<open>Actions\<close>

text \<open>The register writes that set up the I2C core.\<close>

definition i2c_setup :: "u32 \<Rightarrow> u32 \<Rightarrow> io list" where
  "i2c_setup base prescale =
     [Wr (IOADDR base I2C_CTR) 0, Wr (IOADDR base I2C_CR) I2C_CR_IACK_MSK,
      Wr (IOADDR base I2C_PRERLO) (0xff AND prescale), Wr (IOADDR base I2C_PRERHI) (0xff AND drop_bit 8 prescale),
      Wr (IOADDR base I2C_CTR) I2C_CTR_EN_MSK]"

lemma i2c_logs_setup: "i2c_logs base [] (i2c_setup base prescale)"
  by (simp add: i2c_logs_def i2c_setup_def)

datatype act =
    Spi u32 u32 "u8 list" "u8 list" u32
  | I2c i2c_op
  | I2cSetup u32
  | Out u32 u32
  | In u32 u32
  | Pause nat
  | Nop nat

primrec act_ok :: "env \<Rightarrow> act \<Rightarrow> io list \<Rightarrow> bool" where
  "act_ok env (Spi base slave sent recvd flags) es = spi_call env base slave sent recvd flags es"
| "act_ok env (I2c i2cop) es = i2c_logs I2C_OPENCORES_0_BASE [i2cop] es"
| "act_ok env (I2cSetup prescale) es = (es = i2c_setup I2C_OPENCORES_0_BASE prescale)"
| "act_ok env (Out a v) es = (es = [Wr a v])"
| "act_ok env (In a v) es = (es = [Rd a v])"
| "act_ok env (Pause n) es = (es = [Usleep n])"
| "act_ok env (Nop n) es = (es = [Nops n])"

fun does :: "env \<Rightarrow> act list \<Rightarrow> io list \<Rightarrow> bool" where
  "does env [] es \<longleftrightarrow> es = []"
| "does env (a # as) es \<longleftrightarrow> (\<exists>es1 es2. es = es1 @ es2 \<and> act_ok env a es1 \<and> does env as es2)"

lemma does_append: "does env as es \<Longrightarrow> does env bs fs \<Longrightarrow> does env (as @ bs) (es @ fs)"
proof (induction as arbitrary: es)
  case (Cons a as)
  then obtain es1 es2 where "es = es1 @ es2" "act_ok env a es1" "does env as es2" by auto
  moreover from Cons.IH [OF this(3) Cons.prems(2)] have "does env (as @ bs) (es2 @ fs)" .
  ultimately show ?case by (simp, metis append_assoc)
qed simp

lemma does_one: "act_ok env a es \<Longrightarrow> does env [a] es"
  by simp

text \<open>The program returns, having done \<open>acts\<close>.\<close>

definition performs :: "env \<Rightarrow> (fw, 'a) prog \<Rightarrow> fw \<Rightarrow> act list \<Rightarrow> 'a \<Rightarrow> fw \<Rightarrow> bool" where
  "performs env m s acts a s' \<longleftrightarrow>
     m env s = Inr (a, s') \<and> (\<exists>es. hist s' = hist s @ es \<and> does env acts es)"

section \<open>Weakest preconditions over actions\<close>

definition twp :: "(fw, 'a) prog \<Rightarrow> env \<Rightarrow> ('a \<Rightarrow> act list \<Rightarrow> fw \<Rightarrow> bool) \<Rightarrow> (fault \<Rightarrow> bool) \<Rightarrow> fw \<Rightarrow> bool" where
  "twp m env Q F s \<longleftrightarrow>
     wp m env (\<lambda>a s'. \<exists>acts es. hist s' = hist s @ es \<and> does env acts es \<and> Q a acts s') F s"

lemma twp_totalD:
  "twp m env Q (\<lambda>_. False) s \<Longrightarrow> \<exists>a acts s'. performs env m s acts a s' \<and> Q a acts s'"
  unfolding twp_def performs_def by (drule wp_totalD) blast

lemma twp_unitD:
  "twp m env Q (\<lambda>_. False) s \<Longrightarrow> \<exists>acts s'. performs env m s acts () s' \<and> Q () acts s'"
  by (drule twp_totalD) auto

lemma twp_mono:
  "twp m env Q F s \<Longrightarrow> (\<And>a acts s'. Q a acts s' \<Longrightarrow> Q' a acts s') \<Longrightarrow> twp m env Q' F s"
  unfolding twp_def by (erule wp_mono) blast+

lemma twp_faults_mono:
  "twp m env Q F s \<Longrightarrow> (\<And>f. F f \<Longrightarrow> F' f) \<Longrightarrow> twp m env Q F' s"
  unfolding twp_def by (erule wp_mono) blast+

lemma twp_wp: "twp m env Q F s \<Longrightarrow> (\<And>a acts s'. Q a acts s' \<Longrightarrow> Q' a s') \<Longrightarrow> wp m env Q' F s"
  unfolding twp_def by (erule wp_mono) blast+

text \<open>A program that leaves the history alone.\<close>

lemma twp_silent: "wp m env (\<lambda>a s'. hist s' = hist s \<and> Q a [] s') F s \<Longrightarrow> twp m env Q F s"
  unfolding twp_def by (erule wp_mono) (auto intro!: exI [of _ "[]"])

lemma twp_ret [twp_intros]: "Q a [] s \<Longrightarrow> twp (ret a) env Q F s"
  by (rule twp_silent) (simp add: wp_simps)

lemma twp_fail [twp_intros]: "F f \<Longrightarrow> twp (fail f) env Q F s"
  by (simp add: twp_def wp_simps)

lemma twp_gets [twp_intros]: "Q (f s) [] s \<Longrightarrow> twp (gets f) env Q F s"
  by (rule twp_silent) (simp add: wp_simps)

lemma twp_modify [twp_intros]: "hist (f s) = hist s \<Longrightarrow> Q () [] (f s) \<Longrightarrow> twp (modify f) env Q F s"
  by (rule twp_silent) (simp add: wp_simps)

lemma twp_bnd [twp_intros]:
  assumes "twp m env (\<lambda>a as. twp (k a) env (\<lambda>b bs. Q b (as @ bs)) F) F s"
  shows "twp (bnd m k) env Q F s"
proof -
  have "wp m env (\<lambda>a. wp (k a) env
          (\<lambda>b s'. \<exists>acts es. hist s' = hist s @ es \<and> does env acts es \<and> Q b acts s') F) F s"
    using assms unfolding twp_def
  proof (rule wp_mono)
    fix a s1
    assume "\<exists>as es. hist s1 = hist s @ es \<and> does env as es \<and>
      wp (k a) env (\<lambda>b s'. \<exists>bs fs. hist s' = hist s1 @ fs \<and> does env bs fs \<and> Q b (as @ bs) s') F s1"
    then obtain as es where "hist s1 = hist s @ es" "does env as es"
      "wp (k a) env (\<lambda>b s'. \<exists>bs fs. hist s' = hist s1 @ fs \<and> does env bs fs \<and> Q b (as @ bs) s') F s1"
      by blast
    from this(3) show "wp (k a) env (\<lambda>b s'. \<exists>acts es. hist s' = hist s @ es \<and> does env acts es \<and> Q b acts s') F s1"
      by (rule wp_mono)
        (use \<open>hist s1 = hist s @ es\<close> \<open>does env as es\<close> does_append in \<open>auto, blast\<close>)
  qed
  then show ?thesis by (simp add: twp_def wp_simps)
qed

lemma twp_void [twp_intros]: "twp m env (\<lambda>_. Q ()) F s \<Longrightarrow> twp (void m) env Q F s"
  by (simp add: twp_def wp_simps)

lemma twp_seqs_Nil [twp_intros]: "Q () [] s \<Longrightarrow> twp (seqs []) env Q F s"
  by (simp add: twp_ret)

lemma twp_seqs_Cons [twp_intros]:
  "twp p env (\<lambda>_ as. twp (seqs ps) env (\<lambda>b bs. Q b (as @ bs)) F) F s \<Longrightarrow> twp (seqs (p # ps)) env Q F s"
  by (simp add: twp_bnd)

lemma twp_if [twp_intros]:
  "(c \<Longrightarrow> twp m env Q F s) \<Longrightarrow> (\<not> c \<Longrightarrow> twp m' env Q F s) \<Longrightarrow> twp (if c then m else m') env Q F s"
  by simp

lemma twp_let [twp_intros]: "twp (f x) env Q F s \<Longrightarrow> twp (let v = x in f v) env Q F s"
  by simp

lemma twp_prod [twp_intros]: "twp (f (fst p) (snd p)) env Q F s \<Longrightarrow> twp (case p of (a, b) \<Rightarrow> f a b) env Q F s"
  by (cases p) simp

text \<open>A program that does one action and changes the history only.\<close>

lemma twp_one:
  assumes "\<And>Q'. (\<And>a act es. R a act \<Longrightarrow> act_ok env act es \<Longrightarrow> Q' a (s\<lparr>hist := hist s @ es\<rparr>)) \<Longrightarrow> wp m env Q' F s"
    and "\<And>a act h. R a act \<Longrightarrow> Q a [act] (s\<lparr>hist := h\<rparr>)"
  shows "twp m env Q F s"
  unfolding twp_def
proof (rule assms(1))
  fix a act es
  assume a: "R a act" "act_ok env act es"
  show "\<exists>acts es'. hist (s\<lparr>hist := hist s @ es\<rparr>) = hist s @ es' \<and> does env acts es' \<and> Q a acts (s\<lparr>hist := hist s @ es\<rparr>)"
    using assms(2) [OF a(1)] does_one [OF a(2)] by (intro exI [of _ "[act]"] exI [of _ es]) simp
qed

lemma twp_spi_command [twp_intros]:
  assumes "F Hang \<or> spi_core_ok env base" and "0 < length wdata + rlen"
    and "flags AND ALT_AVALON_SPI_COMMAND_TOGGLE_SS_N = 0"
    and "\<And>d h. length d = rlen \<Longrightarrow> Q d [Spi base slave wdata d flags] (s\<lparr>hist := h\<rparr>)"
  shows "twp (spi_command base slave wdata rlen flags) env Q F s"
  by (rule twp_one [where R = "\<lambda>d act. length d = rlen \<and> act = Spi base slave wdata d flags"])
    (use assms(4) in \<open>auto intro!: wp_spi_command [where F = F, OF assms(1-3)]\<close>)

lemma twp_I2C_start [twp_intros]:
  assumes "F Hang \<or> i2c_core_ok env I2C_OPENCORES_0_BASE"
    and "\<And>ack h. Q (if ack then I2C_ACK else I2C_NOACK)
       [I2c (SendAddr (ucast (push_bit 1 add + (0x1 AND rd))) ack)] (s\<lparr>hist := h\<rparr>)"
  shows "twp (drv (I2C_start I2C_OPENCORES_0_BASE add rd)) env Q F s"
proof (rule twp_one [where R = "\<lambda>r act. \<exists>ack. r = (if ack then I2C_ACK else I2C_NOACK) \<and>
        act = I2c (SendAddr (ucast (push_bit 1 add + (0x1 AND rd))) ack)"])
  fix Q' :: "u32 \<Rightarrow> fw \<Rightarrow> bool"
  assume step: "\<And>a act es. \<exists>ack. a = (if ack then I2C_ACK else I2C_NOACK) \<and>
      act = I2c (SendAddr (ucast (push_bit 1 add + (0x1 AND rd))) ack) \<Longrightarrow>
      act_ok env act es \<Longrightarrow> Q' a (s\<lparr>hist := hist s @ es\<rparr>)"
  show "wp (drv (I2C_start I2C_OPENCORES_0_BASE add rd)) env Q' F s"
    by (rule wp_drv_I2C_start [where F = F, OF assms(1)], rule step) auto
qed (use assms(2) in auto)

lemma twp_I2C_write [twp_intros]:
  assumes "F Hang \<or> i2c_core_ok env I2C_OPENCORES_0_BASE"
    and "\<And>ack h. Q (if ack then I2C_ACK else I2C_NOACK)
       [I2c (SendByte dat (lst \<noteq> 0) ack)] (s\<lparr>hist := h\<rparr>)"
  shows "twp (drv (I2C_write I2C_OPENCORES_0_BASE dat lst)) env Q F s"
proof (rule twp_one [where R = "\<lambda>r act. \<exists>ack. r = (if ack then I2C_ACK else I2C_NOACK) \<and>
        act = I2c (SendByte dat (lst \<noteq> 0) ack)"])
  fix Q' :: "u32 \<Rightarrow> fw \<Rightarrow> bool"
  assume step: "\<And>a act es. \<exists>ack. a = (if ack then I2C_ACK else I2C_NOACK) \<and>
      act = I2c (SendByte dat (lst \<noteq> 0) ack) \<Longrightarrow>
      act_ok env act es \<Longrightarrow> Q' a (s\<lparr>hist := hist s @ es\<rparr>)"
  show "wp (drv (I2C_write I2C_OPENCORES_0_BASE dat lst)) env Q' F s"
    by (rule wp_drv_I2C_write [where F = F, OF assms(1)], rule step) auto
qed (use assms(2) in auto)

lemma twp_I2C_read [twp_intros]:
  assumes "F Hang \<or> i2c_core_ok env I2C_OPENCORES_0_BASE"
    and "\<And>v h. Q v [I2c (RecvByte v (lst \<noteq> 0))] (s\<lparr>hist := h\<rparr>)"
  shows "twp (drv (I2C_read I2C_OPENCORES_0_BASE lst)) env Q F s"
  by (rule twp_one [where R = "\<lambda>v act. act = I2c (RecvByte v (lst \<noteq> 0))"],
      rule wp_drv_I2C_read [where F = F, OF assms(1)])
    (use assms(2) in auto)

lemma twp_I2C_init [twp_intros]:
  assumes "5 * speed \<noteq> 0"
    and "\<And>h. Q () [I2cSetup (clk div (5 * speed) - 1)] (s\<lparr>hist := h\<rparr>)"
  shows "twp (drv (I2C_init I2C_OPENCORES_0_BASE clk speed)) env Q F s"
  by (rule twp_one [where R = "\<lambda>_ act. act = I2cSetup (clk div (5 * speed) - 1)"])
    (use assms in \<open>simp_all add: I2C_init_def wp_simps i2c_setup_def Let_def\<close>)

lemma twp_IOWR [twp_intros]:
  "(\<And>h. Q () [Out (IOADDR base r) v] (s\<lparr>hist := h\<rparr>)) \<Longrightarrow> twp (drv (IOWR base r v)) env Q F s"
  by (rule twp_one [where R = "\<lambda>_ act. act = Out (IOADDR base r) v"]) (simp_all add: wp_simps)

lemma twp_IORD [twp_intros]:
  "(\<And>w h. Q w [In (IOADDR base r) w] (s\<lparr>hist := h\<rparr>)) \<Longrightarrow> twp (drv (IORD base r)) env Q F s"
  by (rule twp_one [where R = "\<lambda>w act. act = In (IOADDR base r) w"]) (simp_all add: wp_simps)

lemma twp_usleep [twp_intros]: "(\<And>h. Q () [Pause n] (s\<lparr>hist := h\<rparr>)) \<Longrightarrow> twp (usleep n) env Q F s"
  by (rule twp_one [where R = "\<lambda>_ act. act = Pause n"]) (simp_all add: wp_simps)

lemma twp_nops [twp_intros]: "(\<And>h. Q () [Nop n] (s\<lparr>hist := h\<rparr>)) \<Longrightarrow> twp (nops n) env Q F s"
  by (rule twp_one [where R = "\<lambda>_ act. act = Nop n"]) (simp_all add: wp_simps)

section \<open>Accessors\<close>

lemma twp_accessors [twp_intros]:
  "Qu () [] (s\<lparr>glEp0Buffer_Tx := (glEp0Buffer_Tx s)[i := v]\<rparr>) \<Longrightarrow> twp (set_tx_hdr i v) env Qu F s"
  "(i < 56 \<Longrightarrow> Qb (glEp0Buffer_Rx s ! (HDR_SIZE + i)) [] s) \<Longrightarrow> (\<not> i < 56 \<Longrightarrow> F OutOfBounds) \<Longrightarrow>
     twp (rx_data i) env Qb F s"
  "(i < 56 \<Longrightarrow> Qu () [] (s\<lparr>glEp0Buffer_Rx := (glEp0Buffer_Rx s)[HDR_SIZE + i := v]\<rparr>)) \<Longrightarrow>
     (\<not> i < 56 \<Longrightarrow> F OutOfBounds) \<Longrightarrow> twp (set_rx_data i v) env Qu F s"
  "(i < 56 \<Longrightarrow> Qu () [] (s\<lparr>glEp0Buffer_Tx := (glEp0Buffer_Tx s)[HDR_SIZE + i := v]\<rparr>)) \<Longrightarrow>
     (\<not> i < 56 \<Longrightarrow> F OutOfBounds) \<Longrightarrow> twp (set_tx_data i v) env Qu F s"
  "(i + n \<le> 56 \<Longrightarrow> Ql (take n (drop (HDR_SIZE + i) (glEp0Buffer_Rx s))) [] s) \<Longrightarrow>
     (\<not> i + n \<le> 56 \<Longrightarrow> F OutOfBounds) \<Longrightarrow> twp (rx_slice i n) env Ql F s"
  "(i + length bs \<le> 56 \<Longrightarrow> Qu () [] (s\<lparr>glEp0Buffer_Tx := splice (HDR_SIZE + i) bs (glEp0Buffer_Tx s)\<rparr>)) \<Longrightarrow>
     (\<not> i + length bs \<le> 56 \<Longrightarrow> F OutOfBounds) \<Longrightarrow> twp (tx_store i bs) env Qu F s"
  "Qu () [] (s\<lparr>cmd_errors := cmd_errors s + 1\<rparr>) \<Longrightarrow> twp inc_errors env Qu F s"
  "Qu () [] (s\<lparr>cmd_errors := ucast (ucast (cmd_errors s) + e)\<rparr>) \<Longrightarrow> twp (add_errors e) env Qu F s"
  "Qu () [] (s\<lparr>sc_brdg_data := (sc_brdg_data s)[i := v]\<rparr>) \<Longrightarrow> twp (set_sc i v) env Qu F s"
  by (rule twp_silent, simp add: wp_accessors split: if_splits)+

lemma twp_set_status:
  "Qu () [] (s\<lparr>glEp0Buffer_Tx := (glEp0Buffer_Tx s)[HDR_STATUS := v]\<rparr>) \<Longrightarrow> twp (set_status v) env Qu F s"
  by (rule twp_silent, simp add: wp_accessors)

section \<open>Loops\<close>

text \<open>
  The state was reached from the history \<open>h\<close> by doing \<open>acts\<close>; the loop rules carry this along, so
  that their invariants speak of the rounds done and of the actions performed so far.
\<close>

definition after :: "env \<Rightarrow> history \<Rightarrow> act list \<Rightarrow> fw \<Rightarrow> bool" where
  "after env h acts s \<longleftrightarrow> (\<exists>es. hist s = h @ es \<and> does env acts es)"

lemma twp_after: "twp m env Q F s \<longleftrightarrow> wp m env (\<lambda>a s'. \<exists>acts. after env (hist s) acts s' \<and> Q a acts s') F s"
  unfolding twp_def after_def by (rule arg_cong [of _ _ "\<lambda>q. wp m env q F s"]) (auto simp: fun_eq_iff)

lemma after_start: "after env (hist s) [] s"
  by (simp add: after_def)

lemma after_trans: "after env h as s \<Longrightarrow> after env (hist s) bs s' \<Longrightarrow> after env h (as @ bs) s'"
  unfolding after_def using does_append by fastforce

lemma wp_after:
  assumes "after env h acts s" and "twp m env (\<lambda>a as. Q a (acts @ as)) F s"
  shows "wp m env (\<lambda>a s'. \<exists>as. after env h as s' \<and> Q a as s') F s"
  using assms(2) unfolding twp_after
  by (rule wp_mono) (use after_trans [OF assms(1)] in blast)+

lemma twp_each:
  assumes "I [] [] s"
    and body: "\<And>ys x zs acts s. xs = ys @ x # zs \<Longrightarrow> I ys acts s \<Longrightarrow>
       twp (body x) env (\<lambda>_ as. I (ys @ [x]) (acts @ as)) F s"
    and final: "\<And>acts s. I xs acts s \<Longrightarrow> Q () acts s"
  shows "twp (each xs body) env Q F s"
  unfolding twp_after
proof (rule wp_each [where I = "\<lambda>ys s'. \<exists>acts. after env (hist s) acts s' \<and> I ys acts s'"])
  show "\<exists>acts. after env (hist s) acts s \<and> I [] acts s"
    using assms(1) after_start by blast
next
  fix ys x zs s'
  assume xs: "xs = ys @ x # zs" and "\<exists>acts. after env (hist s) acts s' \<and> I ys acts s'"
  then obtain acts where h: "after env (hist s) acts s'" and I: "I ys acts s'" by blast
  show "wp (body x) env (\<lambda>_ s'. \<exists>acts. after env (hist s) acts s' \<and> I (ys @ [x]) acts s') F s'"
    by (rule wp_after [OF h body [OF xs I]])
next
  fix s'
  assume "\<exists>acts. after env (hist s) acts s' \<and> I xs acts s'"
  then show "\<exists>acts. after env (hist s) acts s' \<and> Q () acts s'" using final by blast
qed

lemma twp_for_blocks:
  assumes init: "I 0 [] (s\<lparr>block := 0\<rparr>)" and bound: "rx_hdr HDR_DATA_BLOCKS s = m"
    and body: "\<And>i acts s. i < unat m \<Longrightarrow> I i acts s \<Longrightarrow> unat (block s) = i \<Longrightarrow> rx_hdr HDR_DATA_BLOCKS s = m \<Longrightarrow>
       twp (body i) env (\<lambda>_ as s'. block s' = block s \<and> rx_hdr HDR_DATA_BLOCKS s' = m \<and>
         I (Suc i) (acts @ as) (s'\<lparr>block := block s' + 1\<rparr>)) F s"
    and final: "\<And>acts s. I (unat m) acts s \<Longrightarrow> rx_hdr HDR_DATA_BLOCKS s = m \<Longrightarrow> Q () acts s"
  shows "twp (for_blocks body) env Q F s"
  unfolding twp_after
proof (rule wp_for_blocks [where I = "\<lambda>i s'. \<exists>acts. after env (hist s) acts s' \<and> I i acts s'", OF _ bound])
  show "\<exists>acts. after env (hist s) acts (s\<lparr>block := 0\<rparr>) \<and> I 0 acts (s\<lparr>block := 0\<rparr>)"
    using init by (intro exI [of _ "[]"]) (simp add: after_def)
next
  fix i s'
  assume i: "i < unat m" and "\<exists>acts. after env (hist s) acts s' \<and> I i acts s'"
    and s': "unat (block s') = i" "rx_hdr HDR_DATA_BLOCKS s' = m"
  then obtain acts where h: "after env (hist s) acts s'" and I: "I i acts s'" by blast
  have "wp (body i) env (\<lambda>_ t. \<exists>as. after env (hist s) as t \<and> block t = block s' \<and>
      rx_hdr HDR_DATA_BLOCKS t = m \<and> I (Suc i) as (t\<lparr>block := block t + 1\<rparr>)) F s'"
    by (rule wp_after [OF h body [OF i I s']])
  then show "wp (body i) env (\<lambda>_ t. block t = block s' \<and> rx_hdr HDR_DATA_BLOCKS t = m \<and>
      (\<exists>acts. after env (hist s) acts (t\<lparr>block := block t + 1\<rparr>) \<and>
         I (Suc i) acts (t\<lparr>block := block t + 1\<rparr>))) F s'"
    by (rule wp_mono) (auto simp: after_def)
next
  fix s'
  assume "\<exists>acts. after env (hist s) acts s' \<and> I (unat m) acts s'" "rx_hdr HDR_DATA_BLOCKS s' = m"
  then show "\<exists>acts. after env (hist s) acts s' \<and> Q () acts s'" using final by blast
qed

end
