(* ===== verification/Board.thy ===== *)
theory Board
  imports Actions
begin

text \<open>
  The board seen by the command handlers: which serial cores there are and what is assumed of them,
  what a list of actions puts on each wire, and the general contract of a command: it keeps the
  packet headers and array sizes and leaves every bus released.
\<close>

named_theorems board_simps \<open>equations of the board-level predicates on concrete action lists\<close>

section \<open>The board's cores\<close>

definition spi_bases :: "u32 set" where
  "spi_bases = {SPI_LMS_BASE, SPI_1_BASE, SPI_1_ADF4002_BASE, SPI_FPGA_AS_BASE}"

definition board_ok :: "env \<Rightarrow> bool" where
  "board_ok env \<longleftrightarrow> spi_core_ok env SPI_LMS_BASE \<and> spi_core_ok env SPI_1_BASE \<and>
     spi_core_ok env SPI_1_ADF4002_BASE \<and> spi_core_ok env SPI_FPGA_AS_BASE \<and>
     i2c_core_ok env I2C_OPENCORES_0_BASE"

lemma board_okD [intro, dest]:
  assumes "board_ok env"
  shows "spi_core_ok env SPI_LMS_BASE" "spi_core_ok env SPI_1_BASE" "spi_core_ok env SPI_1_ADF4002_BASE"
    "spi_core_ok env SPI_FPGA_AS_BASE" "i2c_core_ok env I2C_OPENCORES_0_BASE"
  using assms by (simp_all add: board_ok_def)

lemma board_core_ok: "board_ok env \<Longrightarrow> base \<in> spi_bases \<Longrightarrow> spi_core_ok env base"
  by (auto simp: board_ok_def spi_bases_def)

lemma device_addrs_disjoint:
  assumes "unat b + 24 \<le> unat b' \<or> unat b' + 24 \<le> unat b" "unat b < 2 ^ 31" "unat b' < 2 ^ 31"
  shows "disjoint_devices b b'"
proof -
  have "unat (IOADDR c r) = unat c + 4 * unat r" if "r \<in> {0, 1, 2, 3, 4, 5}" "unat c < 2 ^ 31" for c r
    using that by (intro IOADDR_in_span) auto
  with assms show ?thesis
    unfolding disjoint_devices_def device_addrs_def by (fastforce dest!: arg_cong [where f = unat])
qed

lemma spi_bases_disjoint:
  "b \<in> spi_bases \<Longrightarrow> b' \<in> spi_bases \<Longrightarrow> b \<noteq> b' \<Longrightarrow> disjoint_devices b b'"
  by (rule device_addrs_disjoint) (auto simp: spi_bases_def address_map)

lemma spi_i2c_disjoint: "b \<in> spi_bases \<Longrightarrow> disjoint_devices I2C_OPENCORES_0_BASE b"
  by (rule device_addrs_disjoint) (auto simp: spi_bases_def address_map)

section \<open>What a list of actions puts on the wires\<close>

primrec spi_act :: "u32 \<Rightarrow> spi_line \<Rightarrow> act \<Rightarrow> spi_line" where
  "spi_act base l (Spi b slave sent recvd flags) =
     (if b = base then spi_effect flags (push_bit (unat slave) 1) (sent @ replicate (length recvd) 0) l else l)"
| "spi_act base l (I2c i2cop) = l"
| "spi_act base l (I2cSetup prescale) = l"
| "spi_act base l (Out a v) = l"
| "spi_act base l (In a v) = l"
| "spi_act base l (Pause n) = l"
| "spi_act base l (Nop n) = l"

fun i2c_part :: "act list \<Rightarrow> i2c_op list" where
  "i2c_part [] = []"
| "i2c_part (I2c x # as) = x # i2c_part as"
| "i2c_part (a # as) = i2c_part as"

lemma i2c_part_append [simp]: "i2c_part (as @ bs) = i2c_part as @ i2c_part bs"
  by (induction as rule: i2c_part.induct) auto

text \<open>
  \<open>board_act\<close>: the action addresses a core of the board, and a plain register access is one of the
  LEDs, the reset lines, the switches or the packet FIFO.
\<close>

definition plain_regs :: "u32 set" where
  "plain_regs = {IOADDR LEDS_BASE 0, IOADDR LMS_CTR_GPIO_BASE 0, IOADDR SWITCH_BASE 0,
     IOADDR AV_FIFO_INT_0_BASE 0, IOADDR AV_FIFO_INT_0_BASE 1, IOADDR AV_FIFO_INT_0_BASE 2}"

primrec board_act :: "act \<Rightarrow> bool" where
  "board_act (Spi b slave sent recvd flags) \<longleftrightarrow> b \<in> spi_bases"
| "board_act (I2c i2cop) \<longleftrightarrow> True"
| "board_act (I2cSetup prescale) \<longleftrightarrow> True"
| "board_act (Out a v) \<longleftrightarrow> a \<in> plain_regs"
| "board_act (In a v) \<longleftrightarrow> a \<in> plain_regs"
| "board_act (Pause n) \<longleftrightarrow> True"
| "board_act (Nop n) \<longleftrightarrow> True"

lemma plain_regs_other:
  assumes "a \<in> plain_regs" and "base \<in> insert I2C_OPENCORES_0_BASE spi_bases"
  shows "a \<notin> device_addrs base"
  using assms by (auto simp: plain_regs_def spi_bases_def device_addrs_def IOADDR_def address_map)

text \<open>An action moves the line it addresses as \<open>spi_act\<close> says, and no other line.\<close>

lemma spi_act_wire:
  assumes ok: "spi_core_ok env base" and base: "base \<in> spi_bases" and a: "board_act a" "act_ok env a es"
  shows "foldl (spi_line_ev base) l es = spi_act base l a"
proof (cases a)
  case (Spi b slave sent recvd flags)
  show ?thesis
  proof (cases "b = base")
    case True
    with Spi a ok show ?thesis by (auto simp: spi_call_def)
  next
    case False
    with Spi a base have "foldl (spi_line_ev base) l es = l"
      by (intro spi_line.run_other [of b]) (auto simp: spi_call_def spi_bases_disjoint)
    with Spi False show ?thesis by simp
  qed
next
  case (I2c i2cop)
  with a base have "foldl (spi_line_ev base) l es = l"
    by (intro spi_line.run_other [of I2C_OPENCORES_0_BASE]) (auto simp: i2c_logs_def spi_i2c_disjoint)
  with I2c show ?thesis by simp
next
  case (I2cSetup prescale)
  with a base i2c_logs_setup [of I2C_OPENCORES_0_BASE prescale] have "foldl (spi_line_ev base) l es = l"
    by (intro spi_line.run_other [of I2C_OPENCORES_0_BASE]) (auto simp: i2c_logs_def spi_i2c_disjoint)
  with I2cSetup show ?thesis by simp
next
  case (Out x v)
  with a base plain_regs_other [of x base] show ?thesis by (auto simp: spi_line.step_other)
qed (use a in auto)

theorem does_spi_wire:
  assumes "spi_core_ok env base" "base \<in> spi_bases" "list_all board_act acts" "does env acts es"
  shows "foldl (spi_line_ev base) l es = foldl (spi_act base) l acts"
  using assms(3,4)
proof (induction acts arbitrary: l es)
  case (Cons a acts)
  then obtain es1 es2 where "es = es1 @ es2" "act_ok env a es1" "does env acts es2" by auto
  with Cons spi_act_wire [OF assms(1,2), of a es1] show ?case by simp
qed simp

lemma i2c_act_log:
  assumes "board_act a" "act_ok env a es"
  shows "i2c_log (foldl (i2c_line_ev I2C_OPENCORES_0_BASE) l es) = i2c_log l @ i2c_part [a]"
proof (cases a)
  case (Spi b slave sent recvd flags)
  with assms have "foldl (i2c_line_ev I2C_OPENCORES_0_BASE) l es = l"
    by (intro i2c_line.run_other [of b]) (auto simp: spi_call_def spi_i2c_disjoint disjoint_devices_sym)
  with Spi show ?thesis by simp
next
  case (Out x v)
  with assms plain_regs_other [of x I2C_OPENCORES_0_BASE] show ?thesis by (auto simp: i2c_line.step_other)
next
  case (In x v)
  with assms have "i2c_line_ev I2C_OPENCORES_0_BASE l (Rd x v) = l"
    using plain_regs_other [of x I2C_OPENCORES_0_BASE] by (intro i2c_line.step_other) auto
  with In assms show ?thesis by (simp del: i2c_line_ev.simps)
next
  case (I2cSetup prescale)
  with assms i2c_logs_setup [of I2C_OPENCORES_0_BASE prescale] show ?thesis by (auto simp: i2c_logs_def)
qed (use assms in \<open>auto simp: i2c_logs_def i2c_line.step_other\<close>)

theorem does_i2c_log:
  assumes "list_all board_act acts" "does env acts es"
  shows "i2c_log (foldl (i2c_line_ev I2C_OPENCORES_0_BASE) l es) = i2c_log l @ i2c_part acts"
  using assms
proof (induction acts arbitrary: l es)
  case (Cons a acts)
  then obtain es1 es2 where "es = es1 @ es2" "act_ok env a es1" "does env acts es2" by auto
  with Cons i2c_act_log [of a env es1 l] show ?case by (cases a) auto
qed simp

section \<open>Leaving the buses released\<close>

text \<open>Is a chip of the core selected after the actions?\<close>

fun cs_held :: "u32 \<Rightarrow> bool \<Rightarrow> act list \<Rightarrow> bool" where
  "cs_held base held [] = held"
| "cs_held base held (Spi b slave sent recvd flags # as) =
     cs_held base (if b = base then flags AND ALT_AVALON_SPI_COMMAND_MERGE \<noteq> 0 else held) as"
| "cs_held base held (a # as) = cs_held base held as"

lemma cs_held_append: "cs_held base held (as @ bs) = cs_held base (cs_held base held as) bs"
  by (induction base held as rule: cs_held.induct) auto

lemma cs_held_line:
  "(line_cs (foldl (spi_act base) l acts) \<noteq> None) = cs_held base (line_cs l \<noteq> None) acts"
proof (induction acts arbitrary: l)
  case (Cons a acts)
  then show ?case by (cases a) (auto simp: spi_effect_def Let_def)
qed simp

definition tidy :: "act list \<Rightarrow> bool" where
  "tidy acts \<longleftrightarrow> list_all board_act acts \<and> i2c_whole (i2c_part acts) \<and> (\<forall>base. \<not> cs_held base False acts)"

lemma tidy_Nil [simp]: "tidy []"
  by (simp add: tidy_def)

lemma tidy_append [intro]: "tidy as \<Longrightarrow> tidy bs \<Longrightarrow> tidy (as @ bs)"
  by (auto simp: tidy_def i2c_whole_append cs_held_append)

lemma tidy_spi [simp]: "base \<in> spi_bases \<Longrightarrow> tidy [Spi base slave sent recvd 0]"
  by (simp add: tidy_def)

lemma spi_bases_mem [simp]:
  "SPI_LMS_BASE \<in> spi_bases" "SPI_1_BASE \<in> spi_bases" "SPI_1_ADF4002_BASE \<in> spi_bases"
  "SPI_FPGA_AS_BASE \<in> spi_bases"
  by (simp_all add: spi_bases_def)

lemma plain_regs_mem [simp]:
  "IOADDR LEDS_BASE 0 \<in> plain_regs" "IOADDR LMS_CTR_GPIO_BASE 0 \<in> plain_regs"
  "IOADDR SWITCH_BASE 0 \<in> plain_regs" "IOADDR AV_FIFO_INT_0_BASE 0 \<in> plain_regs"
  "IOADDR AV_FIFO_INT_0_BASE 1 \<in> plain_regs" "IOADDR AV_FIFO_INT_0_BASE 2 \<in> plain_regs"
  by (simp_all add: plain_regs_def)

section \<open>The general contract of a command\<close>

text \<open>
  \<open>kept s s'\<close>: array sizes and the ranges of the counters hold, the received header and the echoed
  header fields are as before. Only the status byte of the reply header may change.
\<close>

definition kept :: "fw \<Rightarrow> fw \<Rightarrow> bool" where
  "kept s s' \<longleftrightarrow> fw_ok s' \<and> take HDR_SIZE (glEp0Buffer_Rx s') = take HDR_SIZE (glEp0Buffer_Rx s) \<and>
     (\<forall>i \<in> {HDR_COMMAND, HDR_DATA_BLOCKS, HDR_PERIPH_ID}. tx_hdr i s' = tx_hdr i s)"

lemma kept_refl: "fw_ok s \<Longrightarrow> kept s s"
  by (simp add: kept_def)

lemma kept_trans [trans]: "kept s t \<Longrightarrow> kept t u \<Longrightarrow> kept s u"
  by (simp add: kept_def)

lemma kept_ok: "kept s t \<Longrightarrow> fw_ok t"
  by (simp add: kept_def)

lemma kept_rx_hdr: "kept s t \<Longrightarrow> i < HDR_SIZE \<Longrightarrow> rx_hdr i t = rx_hdr i s"
  unfolding kept_def rx_hdr_def by (metis nth_take)

text \<open>Which assignments keep the contract.\<close>

lemma kept_update_left [simp]:
  "kept (s\<lparr>hist := h\<rparr>) t = kept s t"
  "kept (s\<lparr>block := b\<rparr>) t = kept s t"
  "kept (s\<lparr>cmd_errors := b\<rparr>) t = kept s t"
  "kept (s\<lparr>dac_val := b\<rparr>) t = kept s t"
  "kept (s\<lparr>converted_val := w\<rparr>) t = kept s t"
  "kept (s\<lparr>flash_page := v\<rparr>) t = kept s t"
  "kept (s\<lparr>flash_page_data_cnt := n\<rparr>) t = kept s t"
  "kept (s\<lparr>flash_data_cnt_free := n\<rparr>) t = kept s t"
  "kept (s\<lparr>flash_data_counter_to_copy := n\<rparr>) t = kept s t"
  "kept (s\<lparr>last_portion := v\<rparr>) t = kept s t"
  "kept (s\<lparr>current_portion := v\<rparr>) t = kept s t"
  "kept (s\<lparr>data_cnt := b\<rparr>) t = kept s t"
  "kept (s\<lparr>sc_brdg_data := xs\<rparr>) t = kept s t"
  "kept (s\<lparr>flash_page_data := xs\<rparr>) t = kept s t"
  "kept (s\<lparr>fpga_byte := v\<rparr>) t = kept s t"
  "kept (s\<lparr>MCU_retries := b\<rparr>) t = kept s t"
  "kept (s\<lparr>spiFastRead := b\<rparr>) t = kept s t"
  by (simp_all add: kept_def tx_hdr_def)

lemma fw_ok_update [simp]:
  "fw_ok (s\<lparr>hist := h\<rparr>) = fw_ok s"
  "fw_ok (s\<lparr>block := b\<rparr>) = fw_ok s"
  "fw_ok (s\<lparr>cmd_errors := b\<rparr>) = fw_ok s"
  "fw_ok (s\<lparr>dac_val := b\<rparr>) = fw_ok s"
  "fw_ok (s\<lparr>converted_val := w\<rparr>) = fw_ok s"
  "fw_ok (s\<lparr>flash_page := v\<rparr>) = fw_ok s"
  "fw_ok (s\<lparr>last_portion := v\<rparr>) = fw_ok s"
  "fw_ok (s\<lparr>current_portion := v\<rparr>) = fw_ok s"
  "fw_ok (s\<lparr>data_cnt := b\<rparr>) = fw_ok s"
  "fw_ok (s\<lparr>fpga_byte := v\<rparr>) = fw_ok s"
  "fw_ok (s\<lparr>MCU_retries := b\<rparr>) = fw_ok s"
  "fw_ok (s\<lparr>spiFastRead := b\<rparr>) = fw_ok s"
  by (simp_all add: fw_ok_def)

lemma fw_ok_lengths:
  assumes "fw_ok s"
  shows "length (glEp0Buffer_Rx s) = 64" "length (glEp0Buffer_Tx s) = 64"
    "length (sc_brdg_data s) = 4" "length (flash_page_data s) = FLASH_PAGE_SIZE"
  using assms by (simp_all add: fw_ok_def)

lemma kept_update [simp]:
  "kept s (t\<lparr>hist := h\<rparr>) = kept s t"
  "kept s (t\<lparr>block := b\<rparr>) = kept s t"
  "kept s (t\<lparr>cmd_errors := b\<rparr>) = kept s t"
  "kept s (t\<lparr>dac_val := b\<rparr>) = kept s t"
  "kept s (t\<lparr>converted_val := w\<rparr>) = kept s t"
  "kept s (t\<lparr>flash_page := v\<rparr>) = kept s t"
  "kept s (t\<lparr>last_portion := v\<rparr>) = kept s t"
  "kept s (t\<lparr>current_portion := v\<rparr>) = kept s t"
  "kept s (t\<lparr>data_cnt := b\<rparr>) = kept s t"
  "kept s (t\<lparr>fpga_byte := v\<rparr>) = kept s t"
  "kept s (t\<lparr>MCU_retries := b\<rparr>) = kept s t"
  "kept s (t\<lparr>spiFastRead := b\<rparr>) = kept s t"
  by (simp_all add: kept_def fw_ok_def tx_hdr_def)

lemma splice_below: "j < i \<Longrightarrow> splice i vs xs ! j = xs ! j"
  by (induction i vs xs rule: splice.induct) auto

lemma take_splice_below: "n \<le> i \<Longrightarrow> take n (splice i vs xs) = take n xs"
  by (induction i vs xs rule: splice.induct) auto

lemma hdr_order [simp]:
  "HDR_COMMAND < HDR_SIZE" "HDR_STATUS < HDR_SIZE" "HDR_DATA_BLOCKS < HDR_SIZE" "HDR_PERIPH_ID < HDR_SIZE"
  "HDR_STATUS \<noteq> HDR_COMMAND" "HDR_STATUS \<noteq> HDR_DATA_BLOCKS" "HDR_STATUS \<noteq> HDR_PERIPH_ID"
  "HDR_STATUS < 64"
  by (simp_all add: protocol_defs)

lemma hdr_not_data [simp]:
  "HDR_SIZE + i \<noteq> HDR_COMMAND" "HDR_SIZE + i \<noteq> HDR_STATUS" "HDR_SIZE + i \<noteq> HDR_DATA_BLOCKS"
  "HDR_SIZE + i \<noteq> HDR_PERIPH_ID"
  by (simp_all add: protocol_defs)

text \<open>
  An assignment to a buffer keeps the contract when it leaves the length and the header fields
  alone; a status may be stored.
\<close>

definition same_hdr :: "u8 list \<Rightarrow> u8 list \<Rightarrow> bool" where
  "same_hdr xs ys \<longleftrightarrow> length xs = length ys \<and>
     (\<forall>i \<in> {HDR_COMMAND, HDR_DATA_BLOCKS, HDR_PERIPH_ID}. xs ! i = ys ! i)"

lemma same_hdr_simps [simp]:
  "same_hdr xs xs"
  "HDR_SIZE \<le> i \<Longrightarrow> same_hdr (xs[i := v]) ys = same_hdr xs ys"
  "same_hdr (xs[HDR_STATUS := v]) ys = same_hdr xs ys"
  "HDR_SIZE \<le> i \<Longrightarrow> same_hdr (splice i vs xs) ys = same_hdr xs ys"
  by (auto simp: same_hdr_def splice_below nth_list_update protocol_defs)

lemma kept_tx [simp]: "kept s t \<Longrightarrow> same_hdr xs (glEp0Buffer_Tx t) \<Longrightarrow> kept s (t\<lparr>glEp0Buffer_Tx := xs\<rparr>)"
  by (auto simp: kept_def fw_ok_def tx_hdr_def same_hdr_def)

definition same_front :: "u8 list \<Rightarrow> u8 list \<Rightarrow> bool" where
  "same_front xs ys \<longleftrightarrow> length xs = length ys \<and> take HDR_SIZE xs = take HDR_SIZE ys"

lemma same_front_simps [simp]:
  "same_front xs xs"
  "HDR_SIZE \<le> i \<Longrightarrow> same_front (xs[i := v]) ys = same_front xs ys"
  by (auto simp: same_front_def)

lemma kept_rx [simp]: "kept s t \<Longrightarrow> same_front xs (glEp0Buffer_Rx t) \<Longrightarrow> kept s (t\<lparr>glEp0Buffer_Rx := xs\<rparr>)"
  by (auto simp: kept_def fw_ok_def tx_hdr_def same_front_def)

lemma kept_sc [simp]: "kept s t \<Longrightarrow> length xs = length (sc_brdg_data t) \<Longrightarrow> kept s (t\<lparr>sc_brdg_data := xs\<rparr>)"
  by (auto simp: kept_def fw_ok_def tx_hdr_def)

lemma kept_page [simp]:
  "kept s t \<Longrightarrow> length xs = length (flash_page_data t) \<Longrightarrow> kept s (t\<lparr>flash_page_data := xs\<rparr>)"
  by (auto simp: kept_def fw_ok_def tx_hdr_def)

lemma rx_hdr_update [simp]:
  "i < HDR_SIZE \<Longrightarrow> rx_hdr i (t\<lparr>glEp0Buffer_Rx := (glEp0Buffer_Rx u)[HDR_SIZE + j := v]\<rparr>) = rx_hdr i u"
  "rx_hdr i (t\<lparr>glEp0Buffer_Tx := xs\<rparr>) = rx_hdr i t"
  "rx_hdr i (t\<lparr>hist := h\<rparr>) = rx_hdr i t"
  "rx_hdr i (t\<lparr>block := b\<rparr>) = rx_hdr i t"
  "rx_hdr i (t\<lparr>cmd_errors := b\<rparr>) = rx_hdr i t"
  "rx_hdr i (t\<lparr>dac_val := b\<rparr>) = rx_hdr i t"
  "rx_hdr i (t\<lparr>converted_val := w\<rparr>) = rx_hdr i t"
  "rx_hdr i (t\<lparr>sc_brdg_data := xs\<rparr>) = rx_hdr i t"
  by (auto simp: rx_hdr_def)

section \<open>From actions to the wires\<close>

text \<open>The transactions a list of unmerged actions puts on one core's line.\<close>

fun spi_part :: "u32 \<Rightarrow> act list \<Rightarrow> (u32 \<times> u8 list) list" where
  "spi_part base [] = []"
| "spi_part base (Spi b slave sent recvd flags # as) =
     (if b = base then [(push_bit (unat slave) 1, sent @ replicate (length recvd) 0)] else []) @ spi_part base as"
| "spi_part base (a # as) = spi_part base as"

primrec unmerged :: "act \<Rightarrow> bool" where
  "unmerged (Spi b slave sent recvd flags) \<longleftrightarrow> flags = 0"
| "unmerged (I2c i2cop) \<longleftrightarrow> True"
| "unmerged (I2cSetup prescale) \<longleftrightarrow> True"
| "unmerged (Out a v) \<longleftrightarrow> True"
| "unmerged (In a v) \<longleftrightarrow> True"
| "unmerged (Pause n) \<longleftrightarrow> True"
| "unmerged (Nop n) \<longleftrightarrow> True"

lemma spi_act_txns:
  "list_all unmerged acts \<Longrightarrow> line_cs l = None \<Longrightarrow>
   line_cs (foldl (spi_act base) l acts) = None \<and>
   line_txns (foldl (spi_act base) l acts) = line_txns l @ spi_part base acts"
proof (induction acts arbitrary: l)
  case (Cons a acts)
  then show ?case by (cases a) (auto simp: spi_effect_def Let_def)
qed simp

text \<open>What a command that returned has done to the lines and to the I2C log.\<close>

lemma performs_wires:
  assumes "board_ok env" "performs env m s acts a s'" "list_all board_act acts"
  shows "base \<in> spi_bases \<Longrightarrow> spi_wire base (hist s') = foldl (spi_act base) (spi_wire base (hist s)) acts"
    and "i2c_log (i2c_bus I2C_OPENCORES_0_BASE (hist s')) =
      i2c_log (i2c_bus I2C_OPENCORES_0_BASE (hist s)) @ i2c_part acts"
proof -
  from assms(2) obtain es where es: "hist s' = hist s @ es" "does env acts es"
    by (auto simp: performs_def)
  show "base \<in> spi_bases \<Longrightarrow> spi_wire base (hist s') = foldl (spi_act base) (spi_wire base (hist s)) acts"
    using does_spi_wire [OF board_core_ok [OF assms(1)] _ assms(3) es(2)] es(1) by (simp add: spi_wire_append)
  show "i2c_log (i2c_bus I2C_OPENCORES_0_BASE (hist s')) =
      i2c_log (i2c_bus I2C_OPENCORES_0_BASE (hist s)) @ i2c_part acts"
    using does_i2c_log [OF assms(3) es(2)] es(1) by (simp add: i2c_bus_append)
qed

lemma performs_txns:
  assumes "board_ok env" "performs env m s acts a s'" "list_all board_act acts" "list_all unmerged acts"
    and "base \<in> spi_bases" "line_cs (spi_wire base (hist s)) = None"
  shows "line_cs (spi_wire base (hist s')) = None"
    and "line_txns (spi_wire base (hist s')) = line_txns (spi_wire base (hist s)) @ spi_part base acts"
  using spi_act_txns [OF assms(4,6)] performs_wires(1) [OF assms(1-3,5)] by simp_all

lemma spi_part_map [simp]:
  "spi_part base (map (\<lambda>j. Spi b slave (f j) (g j) 0) xs) =
     (if b = base then map (\<lambda>j. (push_bit (unat slave) 1, f j @ replicate (length (g j)) 0)) xs else [])"
  by (induction xs) auto

lemma tidy_board: "tidy acts \<Longrightarrow> list_all board_act acts"
  by (simp add: tidy_def)

lemma tidy_wires:
  assumes "board_ok env" "after env h acts s" "tidy acts"
  shows "base \<in> spi_bases \<Longrightarrow> line_cs (spi_wire base h) = None \<Longrightarrow> line_cs (spi_wire base (hist s)) = None"
    and "i2c_whole (i2c_log (i2c_bus I2C_OPENCORES_0_BASE h)) \<Longrightarrow>
      i2c_whole (i2c_log (i2c_bus I2C_OPENCORES_0_BASE (hist s)))"
proof -
  from assms(2) obtain es where es: "hist s = h @ es" "does env acts es" by (auto simp: after_def)
  note b = tidy_board [OF assms(3)]
  show "line_cs (spi_wire base (hist s)) = None" if "base \<in> spi_bases" "line_cs (spi_wire base h) = None"
    using does_spi_wire [OF board_core_ok [OF assms(1) that(1)] that(1) b es(2)] es(1) that(2) assms(3)
      cs_held_line [of base "spi_wire base h" acts]
    by (auto simp: spi_wire_append tidy_def)
  show "i2c_whole (i2c_log (i2c_bus I2C_OPENCORES_0_BASE h)) \<Longrightarrow>
      i2c_whole (i2c_log (i2c_bus I2C_OPENCORES_0_BASE (hist s)))"
    using does_i2c_log [OF b es(2)] es(1) assms(3)
    by (simp add: i2c_bus_append i2c_whole_append tidy_def)
qed

lemma wires_idle_boot [simp]:
  "line_cs (spi_wire base []) = None" "i2c_log (i2c_bus base []) = []"
  by (simp_all add: spi_wire_def i2c_bus_def)

end
