(* ===== verification/Flash.thy ===== *)
theory Flash
  imports Board
begin

text \<open>
  The configuration flash library \<^verbatim>\<open>spi_flash_lib.c\<close>: bit reversal (the SPI core that drives the
  flash shifts the least significant bit first), the status poll before a page is programmed, page
  transfers and sector erase.
\<close>

section \<open>Operations\<close>

definition STATUS_RETRIES :: nat where "STATUS_RETRIES = 10000"
definition STATUS_RETRIES_ERASE :: nat where "STATUS_RETRIES_ERASE = 3000000"

definition ReverseBitOrder :: "u8 \<Rightarrow> u8" where
  "ReverseBitOrder dat =
     (let rev1 = (drop_bit 1 dat AND 0x55) OR (push_bit 1 dat AND 0xaa);
          rev2 = (drop_bit 2 rev1 AND 0x33) OR (push_bit 2 rev1 AND 0xcc)
      in (drop_bit 4 rev2 AND 0x0f) OR (push_bit 4 rev2 AND 0xf0))"

definition FlashSpiFastRead :: "u8 \<Rightarrow> (fw, unit) prog" where
  "FlashSpiFastRead v = modify (\<lambda>s. s\<lparr>spiFastRead := v\<rparr>)"

text \<open>
  The retry loop of \<open>CyFxSpiWaitForStatus\<close>: \<open>left\<close> is \<open>STATUS_RETRIES - retries\<close>. The limit is
  tested before the status that was read is looked at.
\<close>

primrec CyFxSpiWaitForStatus_loop :: "nat \<Rightarrow> u32 \<Rightarrow> u32 \<Rightarrow> (fw, u8) prog" where
  "CyFxSpiWaitForStatus_loop 0 SPIBase SPISlave =
     bnd (spi_command SPIBase SPISlave [FLASH_CMD_PAGE_WRITEEN] 0 0) (\<lambda>_.
     bnd (spi_command SPIBase SPISlave [FLASH_CMD_PAGE_READST] 2 0) (\<lambda>rd_buf.
     ret 1))"
| "CyFxSpiWaitForStatus_loop (Suc left) SPIBase SPISlave =
     bnd (spi_command SPIBase SPISlave [FLASH_CMD_PAGE_WRITEEN] 0 0) (\<lambda>_.
     bnd (spi_command SPIBase SPISlave [FLASH_CMD_PAGE_READST] 2 0) (\<lambda>rd_buf.
     if rd_buf ! 0 AND 0x80 \<noteq> 0 \<or> rd_buf ! 0 AND 0x40 = 0
     then CyFxSpiWaitForStatus_loop left SPIBase SPISlave
     else ret 0))"

definition CyFxSpiWaitForStatus :: "u32 \<Rightarrow> u32 \<Rightarrow> (fw, u8) prog" where
  "CyFxSpiWaitForStatus SPIBase SPISlave = CyFxSpiWaitForStatus_loop STATUS_RETRIES SPIBase SPISlave"

text \<open>The command byte and the bit-reversed byte address.\<close>

definition flash_location :: "u8 \<Rightarrow> u32 \<Rightarrow> u8 list" where
  "flash_location cmd byteAddress =
     [cmd, ReverseBitOrder (ucast (drop_bit 16 byteAddress AND 0xFF)),
      ReverseBitOrder (ucast (drop_bit 8 byteAddress AND 0xFF)),
      ReverseBitOrder (ucast (byteAddress AND 0xFF))]"

text \<open>
  The page loop of \<open>FlashSpiTransfer\<close>. \<open>buffer\<close> is the caller's memory from the C pointer on; the
  result is the status and the memory written by a read. A page beyond the buffer is out of bounds
  when it is touched.
\<close>

primrec FlashSpiTransfer_pages ::
    "nat \<Rightarrow> u32 \<Rightarrow> u32 \<Rightarrow> u32 \<Rightarrow> u8 list \<Rightarrow> bool \<Rightarrow> u8 \<Rightarrow> (fw, u8 \<times> u8 list) prog" where
  "FlashSpiTransfer_pages 0 SPIBase SPISlave byteAddress buffer isRead status = ret (status, buffer)"
| "FlashSpiTransfer_pages (Suc pageCount) SPIBase SPISlave byteAddress buffer isRead status =
     (let next_page = (\<lambda>page st.
            bnd (FlashSpiTransfer_pages pageCount SPIBase SPISlave
                   (byteAddress + of_nat FLASH_PAGE_SIZE) (drop FLASH_PAGE_SIZE buffer) isRead st) (\<lambda>r.
            ret (fst r, page @ snd r))) in
      if isRead then
        bnd (gets spiFastRead) (\<lambda>fast.
        bnd (if fast = 0 then CyFxSpiWaitForStatus SPIBase SPISlave else ret status) (\<lambda>st.
        if fast = 0 \<and> st = 0 then ret (st, buffer)
        else if length buffer < FLASH_PAGE_SIZE then fail OutOfBounds
        else
          bnd (spi_command SPIBase SPISlave (flash_location FLASH_CMD_PAGE_READ byteAddress)
                 FLASH_PAGE_SIZE 0) (\<lambda>page.
          next_page page st)))
      else
        bnd (CyFxSpiWaitForStatus SPIBase SPISlave) (\<lambda>st.
        if st \<noteq> 0 then ret (st, buffer)
        else
          bnd (spi_command SPIBase SPISlave (flash_location FLASH_CMD_PAGE_WRITE byteAddress) 0
                 ALT_AVALON_SPI_COMMAND_MERGE) (\<lambda>_.
          if length buffer < FLASH_PAGE_SIZE then fail OutOfBounds
          else
            bnd (spi_command SPIBase SPISlave (take FLASH_PAGE_SIZE buffer) 0 0) (\<lambda>_.
            next_page (take FLASH_PAGE_SIZE buffer) st))))"

definition FlashSpiTransfer ::
    "u32 \<Rightarrow> u32 \<Rightarrow> u32 \<Rightarrow> u16 \<Rightarrow> u8 list \<Rightarrow> bool \<Rightarrow> (fw, u8 \<times> u8 list) prog" where
  "FlashSpiTransfer SPIBase SPISlave pageAddress byteCount buffer isRead =
     bnd (modify (\<lambda>s. s\<lparr>spiFastRead := 1\<rparr>)) (\<lambda>_.
     if byteCount = 0 then ret (0, buffer)
     else if unat byteCount mod FLASH_PAGE_SIZE \<noteq> 0 then ret (1, buffer)
     else FlashSpiTransfer_pages (unat byteCount div FLASH_PAGE_SIZE) SPIBase SPISlave
            (pageAddress * of_nat FLASH_PAGE_SIZE) buffer isRead 0)"

text \<open>The polling loop of \<open>FlashSpiEraseSector\<close>: \<open>left\<close> is \<open>STATUS_RETRIES_ERASE - retries\<close>.\<close>

primrec FlashSpiEraseSector_loop :: "nat \<Rightarrow> u32 \<Rightarrow> u32 \<Rightarrow> (fw, u8) prog" where
  "FlashSpiEraseSector_loop 0 SPIBase SPISlave =
     bnd (spi_command SPIBase SPISlave [FLASH_CMD_PAGE_READST] 1 0) (\<lambda>rdBuf. ret 1)"
| "FlashSpiEraseSector_loop (Suc left) SPIBase SPISlave =
     bnd (spi_command SPIBase SPISlave [FLASH_CMD_PAGE_READST] 1 0) (\<lambda>rdBuf.
     if rdBuf ! 0 AND 0x80 \<noteq> 0 then FlashSpiEraseSector_loop left SPIBase SPISlave
     else ret 0)"

definition FlashSpiEraseSector :: "u32 \<Rightarrow> u32 \<Rightarrow> u8 \<Rightarrow> u8 \<Rightarrow> (fw, u8) prog" where
  "FlashSpiEraseSector SPIBase SPISlave isErase sector =
     bnd (spi_command SPIBase SPISlave [FLASH_CMD_PAGE_WRITEEN] 0 0) (\<lambda>_.
     bnd (if isErase \<noteq> 0
          then void (spi_command SPIBase SPISlave
                 (flash_location FLASH_CMD_SECTOR_ERASE (ucast sector * of_nat FLASH_SECTOR_SIZE)) 0 0)
          else ret ()) (\<lambda>_.
     FlashSpiEraseSector_loop STATUS_RETRIES_ERASE SPIBase SPISlave))"

section \<open>Bit reversal\<close>

lemma bit_ReverseBitOrder: "n < 8 \<Longrightarrow> bit (ReverseBitOrder dat) n = bit dat (7 - n)"
proof -
  assume "n < 8"
  then have "n \<in> {0, 1, 2, 3, 4, 5, 6, 7}" by auto
  then show ?thesis
    by (elim insertE)
      (simp_all add: ReverseBitOrder_def Let_def bit_simps bit_double_iff mult.commute [of dat 2])
qed

section \<open>Waiting for the flash\<close>

text \<open>The status byte says write enabled (bit 6 as the core sees it) and not busy (bit 7).\<close>

definition flash_ready :: "u8 list \<Rightarrow> bool" where
  "flash_ready st \<longleftrightarrow> st ! 0 AND 0x80 = 0 \<and> st ! 0 AND 0x40 \<noteq> 0"

definition wait_round :: "u32 \<Rightarrow> u32 \<Rightarrow> u8 list \<Rightarrow> act list" where
  "wait_round base slave st =
     [Spi base slave [FLASH_CMD_PAGE_WRITEEN] [] 0, Spi base slave [FLASH_CMD_PAGE_READST] st 0]"

text \<open>
  \<open>waited limit base slave r acts\<close>: rounds of write enable and status read, all but the last one not
  ready; \<open>r = 0\<close> when the last one was ready within the limit, otherwise the limit was reached.
\<close>

definition waited :: "nat \<Rightarrow> u32 \<Rightarrow> u32 \<Rightarrow> u8 \<Rightarrow> act list \<Rightarrow> bool" where
  "waited limit base slave r acts \<longleftrightarrow>
     (\<exists>busy st. acts = concat (map (wait_round base slave) (busy @ [st])) \<and>
        (\<forall>b\<in>set busy. \<not> flash_ready b) \<and>
        (r = 0 \<and> flash_ready st \<and> length busy < limit \<or> r = 1 \<and> length busy = limit))"

lemma waited_ready: "flash_ready st \<Longrightarrow> waited (Suc n) base slave 0 (wait_round base slave st)"
  unfolding waited_def by (intro exI [of _ "[]"] exI [of _ st]) simp

lemma waited_last: "waited 0 base slave 1 (wait_round base slave st)"
  unfolding waited_def by (intro exI [of _ "[]"] exI [of _ st]) simp

lemma waited_busy:
  assumes "\<not> flash_ready b" and "waited n base slave r acts"
  shows "waited (Suc n) base slave r (wait_round base slave b @ acts)"
proof -
  from assms(2) obtain busy st where "acts = concat (map (wait_round base slave) (busy @ [st]))"
    "\<forall>b\<in>set busy. \<not> flash_ready b"
    "r = 0 \<and> flash_ready st \<and> length busy < n \<or> r = 1 \<and> length busy = n"
    unfolding waited_def by blast
  with assms(1) show ?thesis
    unfolding waited_def by (intro exI [of _ "b # busy"] exI [of _ st]) auto
qed

lemma waited_result: "waited n base slave r acts \<Longrightarrow> r = 0 \<or> r = 1"
  by (auto simp: waited_def)

lemma cs_held_wait [simp]: "cs_held base held (concat (map (wait_round b slave) sts)) =
    (if b = base \<and> sts \<noteq> [] then False else held)"
  by (induction sts arbitrary: held) (auto simp: wait_round_def)

lemma tidy_waited: "base \<in> spi_bases \<Longrightarrow> waited n base slave r acts \<Longrightarrow> tidy acts"
proof -
  assume b: "base \<in> spi_bases"
  have "tidy (concat (map (wait_round base slave) sts))" for sts
  proof (induction sts)
    case (Cons st sts)
    have "tidy (wait_round base slave st)" using b by (simp add: wait_round_def tidy_def)
    with Cons show ?case by auto
  qed simp
  then show "waited n base slave r acts \<Longrightarrow> tidy acts" by (auto simp: waited_def simp del: map_append concat_append)
qed

lemma twp_wait_loop:
  assumes "F Hang \<or> spi_core_ok env base"
    and "\<And>r acts h. waited n base slave r acts \<Longrightarrow> Q r acts (s\<lparr>hist := h\<rparr>)"
  shows "twp (CyFxSpiWaitForStatus_loop n base slave) env Q F s"
  using assms(2)
proof (induction n arbitrary: s Q)
  case 0
  show ?case
    unfolding CyFxSpiWaitForStatus_loop.simps
    by (intro twp_intros assms(1))
      (use 0 [OF waited_last] in \<open>auto simp: spi_masks wait_round_def\<close>)
next
  case (Suc n)
  show ?case
    unfolding CyFxSpiWaitForStatus_loop.simps
  proof (intro twp_bnd twp_spi_command twp_if assms(1))
    fix d1 d2 :: "u8 list" and h1 h2
    assume d1: "length d1 = 0" and c: "d2 ! 0 AND 0x80 \<noteq> 0 \<or> d2 ! 0 AND 0x40 = 0"
    show "twp (CyFxSpiWaitForStatus_loop n base slave) env
       (\<lambda>b bs. Q b ([Spi base slave [FLASH_CMD_PAGE_WRITEEN] d1 0] @
          [Spi base slave [FLASH_CMD_PAGE_READST] d2 0] @ bs)) F (s\<lparr>hist := h1\<rparr>\<lparr>hist := h2\<rparr>)"
    proof (rule Suc.IH)
      fix r acts h
      assume "waited n base slave r acts"
      then have "waited (Suc n) base slave r (wait_round base slave d2 @ acts)"
        using c by (intro waited_busy) (auto simp: flash_ready_def)
      from Suc.prems [OF this] d1 show "Q r ([Spi base slave [FLASH_CMD_PAGE_WRITEEN] d1 0] @
          [Spi base slave [FLASH_CMD_PAGE_READST] d2 0] @ acts) (s\<lparr>hist := h1\<rparr>\<lparr>hist := h2\<rparr>\<lparr>hist := h\<rparr>)"
        by (simp add: wait_round_def)
    qed
  next
    fix d1 d2 :: "u8 list" and h1 h2
    assume d1: "length d1 = 0" and c: "\<not> (d2 ! 0 AND 0x80 \<noteq> 0 \<or> d2 ! 0 AND 0x40 = 0)"
    from c have "waited (Suc n) base slave 0 (wait_round base slave d2)"
      by (intro waited_ready) (auto simp: flash_ready_def)
    from Suc.prems [OF this] d1 show "twp (ret 0) env
       (\<lambda>b bs. Q b ([Spi base slave [FLASH_CMD_PAGE_WRITEEN] d1 0] @
          [Spi base slave [FLASH_CMD_PAGE_READST] d2 0] @ bs)) F (s\<lparr>hist := h1\<rparr>\<lparr>hist := h2\<rparr>)"
      by (intro twp_ret) (simp add: wait_round_def)
  qed (simp_all add: spi_masks)
qed

lemma twp_CyFxSpiWaitForStatus [twp_intros]:
  assumes "F Hang \<or> spi_core_ok env base"
    and "\<And>r acts h. waited STATUS_RETRIES base slave r acts \<Longrightarrow> Q r acts (s\<lparr>hist := h\<rparr>)"
  shows "twp (CyFxSpiWaitForStatus base slave) env Q F s"
  unfolding CyFxSpiWaitForStatus_def by (rule twp_wait_loop) (use assms in auto)

section \<open>Programming a page and erasing a sector\<close>

text \<open>
  \<open>page_programmed\<close>: the wait, and when it succeeded one chip-select transaction with the command,
  the address and the page.
\<close>

definition page_programmed :: "u32 \<Rightarrow> u32 \<Rightarrow> u32 \<Rightarrow> u8 list \<Rightarrow> u8 \<Rightarrow> act list \<Rightarrow> bool" where
  "page_programmed base slave addr page r acts \<longleftrightarrow>
     (\<exists>ws. waited STATUS_RETRIES base slave r ws \<and>
        acts = ws @ (if r = 0 then
          [Spi base slave (flash_location FLASH_CMD_PAGE_WRITE addr) [] ALT_AVALON_SPI_COMMAND_MERGE,
           Spi base slave page [] 0] else []))"

lemma tidy_page_programmed:
  assumes "base \<in> spi_bases" and "page_programmed base slave addr page r acts"
  shows "tidy acts"
proof -
  have "tidy [Spi base slave (flash_location FLASH_CMD_PAGE_WRITE addr) [] ALT_AVALON_SPI_COMMAND_MERGE,
      Spi base slave page [] 0]" using assms(1) by (simp add: tidy_def)
  with assms show ?thesis unfolding page_programmed_def by (auto intro: tidy_waited)
qed

lemma twp_program_page:
  assumes ok: "F Hang \<or> spi_core_ok env base" and len: "length buf = FLASH_PAGE_SIZE"
    and Q: "\<And>r acts h. page_programmed base slave (page * 0x100) buf r acts \<Longrightarrow>
       Q (r, buf) acts (s\<lparr>spiFastRead := 1, hist := h\<rparr>)"
  shows "twp (FlashSpiTransfer base slave page (of_nat FLASH_PAGE_SIZE) buf False) env Q F s"
proof -
  let ?Q = "\<lambda>r acts s'. \<exists>h. s' = s\<lparr>spiFastRead := 1, hist := h\<rparr> \<and> snd r = buf \<and>
     page_programmed base slave (page * 0x100) buf (fst r) acts"
  have "twp (FlashSpiTransfer base slave page (of_nat FLASH_PAGE_SIZE) buf False) env ?Q F s"
    unfolding FlashSpiTransfer_def
    apply (simp add: flash_sizes del: FlashSpiTransfer_pages.simps)
    apply (simp add: numeral_eq_Suc [of num.One] flash_sizes len [unfolded flash_sizes])
    apply (intro twp_intros ok)
    using len
    apply (auto simp: spi_masks flash_sizes flash_location_def page_programmed_def)
    done
  then show ?thesis by (rule twp_mono) (auto intro: Q)
qed

definition polled_erase :: "nat \<Rightarrow> u32 \<Rightarrow> u32 \<Rightarrow> u8 \<Rightarrow> act list \<Rightarrow> bool" where
  "polled_erase limit base slave r acts \<longleftrightarrow>
     (\<exists>busy st. acts = map (\<lambda>b. Spi base slave [FLASH_CMD_PAGE_READST] b 0) (busy @ [st]) \<and>
        (\<forall>b\<in>set busy. b ! 0 AND 0x80 \<noteq> 0) \<and>
        (r = 0 \<and> st ! 0 AND 0x80 = 0 \<and> length busy < limit \<or> r = 1 \<and> length busy = limit))"

lemma polled_erase_busy:
  assumes "b ! 0 AND 0x80 \<noteq> 0" and "polled_erase n base slave r acts"
  shows "polled_erase (Suc n) base slave r (Spi base slave [FLASH_CMD_PAGE_READST] b 0 # acts)"
proof -
  from assms(2) obtain busy st where
    "acts = map (\<lambda>b. Spi base slave [FLASH_CMD_PAGE_READST] b 0) (busy @ [st])"
    "\<forall>b\<in>set busy. b ! 0 AND 0x80 \<noteq> 0"
    "r = 0 \<and> st ! 0 AND 0x80 = 0 \<and> length busy < n \<or> r = 1 \<and> length busy = n"
    unfolding polled_erase_def by blast
  with assms(1) show ?thesis
    unfolding polled_erase_def by (intro exI [of _ "b # busy"] exI [of _ st]) auto
qed

lemma polled_erase_now:
  "st ! 0 AND 0x80 = 0 \<Longrightarrow> polled_erase (Suc n) base slave 0 [Spi base slave [FLASH_CMD_PAGE_READST] st 0]"
  "polled_erase 0 base slave 1 [Spi base slave [FLASH_CMD_PAGE_READST] st 0]"
  unfolding polled_erase_def by (rule exI [of _ "[]"], rule exI [of _ st], simp)+

lemma twp_erase_loop:
  assumes "F Hang \<or> spi_core_ok env base"
    and "\<And>r acts h. polled_erase n base slave r acts \<Longrightarrow> Q r acts (s\<lparr>hist := h\<rparr>)"
  shows "twp (FlashSpiEraseSector_loop n base slave) env Q F s"
  using assms(2)
proof (induction n arbitrary: s Q)
  case 0
  show ?case
    unfolding FlashSpiEraseSector_loop.simps
    by (intro twp_intros assms(1)) (use 0 [OF polled_erase_now(2)] in \<open>auto simp: spi_masks\<close>)
next
  case (Suc n)
  show ?case
    unfolding FlashSpiEraseSector_loop.simps
  proof (intro twp_bnd twp_spi_command twp_if assms(1))
    fix d :: "u8 list" and h
    assume "d ! 0 AND 0x80 \<noteq> 0"
    then show "twp (FlashSpiEraseSector_loop n base slave) env
       (\<lambda>b bs. Q b ([Spi base slave [FLASH_CMD_PAGE_READST] d 0] @ bs)) F (s\<lparr>hist := h\<rparr>)"
      by (intro Suc.IH) (use Suc.prems [OF polled_erase_busy] in simp)
  next
    fix d :: "u8 list" and h
    assume "\<not> d ! 0 AND 0x80 \<noteq> 0"
    then show "twp (ret 0) env (\<lambda>b bs. Q b ([Spi base slave [FLASH_CMD_PAGE_READST] d 0] @ bs)) F (s\<lparr>hist := h\<rparr>)"
      by (intro twp_ret) (use Suc.prems [OF polled_erase_now(1)] in simp)
  qed (simp_all add: spi_masks)
qed

definition sector_erased :: "u32 \<Rightarrow> u32 \<Rightarrow> u8 \<Rightarrow> u8 \<Rightarrow> act list \<Rightarrow> bool" where
  "sector_erased base slave sector r acts \<longleftrightarrow>
     (\<exists>ps. polled_erase STATUS_RETRIES_ERASE base slave r ps \<and>
        acts = [Spi base slave [FLASH_CMD_PAGE_WRITEEN] [] 0,
          Spi base slave (flash_location FLASH_CMD_SECTOR_ERASE (ucast sector * 0x10000)) [] 0] @ ps)"

lemma cs_held_erase [simp]: "cs_held base held (map (\<lambda>x. Spi b slave w x 0) sts) =
    (if b = base \<and> sts \<noteq> [] then False else held)"
  by (induction sts arbitrary: held) auto

lemma i2c_part_map [simp]: "i2c_part (map (\<lambda>x. Spi b slave w x 0) sts) = []"
  by (induction sts) auto

lemma tidy_sector_erased:
  assumes "base \<in> spi_bases" and "sector_erased base slave sector r acts"
  shows "tidy acts"
proof -
  from assms obtain sts where "acts = [Spi base slave [FLASH_CMD_PAGE_WRITEEN] [] 0,
    Spi base slave (flash_location FLASH_CMD_SECTOR_ERASE (ucast sector * 0x10000)) [] 0] @
    map (\<lambda>b. Spi base slave [FLASH_CMD_PAGE_READST] b 0) sts"
    unfolding sector_erased_def polled_erase_def by blast
  with assms(1) show ?thesis by (auto simp: tidy_def list_all_iff)
qed

lemma twp_FlashSpiEraseSector:
  assumes "F Hang \<or> spi_core_ok env base" and "isErase \<noteq> 0"
    and "\<And>r acts h. sector_erased base slave sector r acts \<Longrightarrow> Q r acts (s\<lparr>hist := h\<rparr>)"
  shows "twp (FlashSpiEraseSector base slave isErase sector) env Q F s"
  unfolding FlashSpiEraseSector_def using assms(2)
  by (intro twp_intros assms(1) twp_erase_loop)
    (auto simp: spi_masks flash_location_def flash_sizes sector_erased_def intro!: assms(3))

end
