(* ===== verification/Peripherals.thy ===== *)
theory Peripherals
  imports Flash
begin

text \<open>
  The helper functions of \<^verbatim>\<open>main.c\<close>: the block-count check, the packet FIFO, the LEDs, the LM75
  temperature sensor's configuration, the DAC and the ADF4002 that tune the reference oscillator,
  and the DAC value kept in EEPROM.
\<close>

definition SPI_NR_LMS7002M :: u32 where "SPI_NR_LMS7002M = 0"
definition SPI_NR_FPGA :: u32 where "SPI_NR_FPGA = 1"
definition SPI_NR_DAC :: u32 where "SPI_NR_DAC = 0"
definition SPI_NR_ADF4002 :: u32 where "SPI_NR_ADF4002 = 0"
definition SPI_NR_FLASH :: u32 where "SPI_NR_FLASH = 0"

lemmas spi_slaves = SPI_NR_LMS7002M_def SPI_NR_FPGA_def SPI_NR_DAC_def SPI_NR_ADF4002_def SPI_NR_FLASH_def

text \<open>TRUE (1) when the received block count does not fit the data field.\<close>

definition Check_many_blocks :: "u8 \<Rightarrow> (fw, u8) prog" where
  "Check_many_blocks block_size =
     (if block_size = 0 then fail DivByZero
      else bnd (gets (rx_hdr HDR_DATA_BLOCKS)) (\<lambda>blocks.
        if unat blocks > DATA_FIELD_SIZE div unat block_size
        then bnd (set_status STATUS_BLOCKS_ERROR_CMD) (\<lambda>_. ret 1)
        else ret 0))"

text \<open>\<open>getFifoData(glEp0Buffer_Rx, k)\<close>: one load of the FIFO's data register per byte.\<close>

definition getFifoData :: "nat \<Rightarrow> (fw, unit) prog" where
  "getFifoData k =
     bnd (drv (collect [0..<k] (\<lambda>cnt. IORD AV_FIFO_INT_0_BASE 1))) (\<lambda>vs.
     if k \<le> LMS_CTRL_PACKET_SIZE
     then modify (\<lambda>s. s\<lparr>glEp0Buffer_Rx := splice 0 (map ucast vs) (glEp0Buffer_Rx s)\<rparr>)
     else fail OutOfBounds)"

definition set_led :: "u8 \<Rightarrow> (fw, unit) prog" where
  "set_led led_pattern = drv (IOWR LEDS_BASE 0 (ucast led_pattern))"

definition Configure_LM75 :: "(fw, unit) prog" where
  "Configure_LM75 = seqs
     [void (drv (I2C_start I2C_OPENCORES_0_BASE LM75_I2C_ADDR 0)),
      void (drv (I2C_write I2C_OPENCORES_0_BASE 0x01 0)),
      void (drv (I2C_write I2C_OPENCORES_0_BASE 0x04 1)),
      void (drv (I2C_start I2C_OPENCORES_0_BASE LM75_I2C_ADDR 0)),
      void (drv (I2C_write I2C_OPENCORES_0_BASE 0x02 0)),
      void (drv (I2C_write I2C_OPENCORES_0_BASE 45 0)),
      void (drv (I2C_write I2C_OPENCORES_0_BASE 0 1)),
      void (drv (I2C_start I2C_OPENCORES_0_BASE LM75_I2C_ADDR 0)),
      void (drv (I2C_write I2C_OPENCORES_0_BASE 0x03 0)),
      void (drv (I2C_write I2C_OPENCORES_0_BASE 55 0)),
      void (drv (I2C_write I2C_OPENCORES_0_BASE 0 1))]"

text \<open>
  \<open>dat\<close> holds the bytes the C pointer points to, and is empty for \<open>NULL\<close>.
\<close>

definition Control_TCXO_DAC :: "u8 \<Rightarrow> u8 list \<Rightarrow> (fw, unit) prog" where
  "Control_TCXO_DAC oe dat =
     (if oe = 0 then void (spi_command SPI_1_BASE SPI_NR_DAC [0xC0, 0x00] 0 0)
      else (case dat of
              [] \<Rightarrow> fail OutOfBounds
            | d # _ \<Rightarrow> void (spi_command SPI_1_BASE SPI_NR_DAC [drop_bit 2 d, push_bit 6 d] 0 0)))"

definition ADF_three_state :: "u8 list" where
  "ADF_three_state = [0x1f, 0x81, 0xf3, 0x1f, 0x81, 0xf2, 0x00, 0x01, 0xf4, 0x01, 0x80, 0x01]"

definition Control_TCXO_ADF :: "u8 \<Rightarrow> u8 list \<Rightarrow> (fw, unit) prog" where
  "Control_TCXO_ADF oe dat =
     (if oe = 0 then
        each [0..<4] (\<lambda>ADF_block.
          void (spi_command SPI_1_ADF4002_BASE SPI_NR_ADF4002 (take 3 (drop (ADF_block * 3) ADF_three_state)) 0 0))
      else if length dat < 3 then fail OutOfBounds
      else void (spi_command SPI_1_ADF4002_BASE SPI_NR_ADF4002 (take 3 dat) 0 0))"

text \<open>
  The two EEPROM address bytes as the C expressions compute them: the cast binds tighter than the
  shift, so the most significant one is \<open>((uint8_t)(addr & 0xFF00)) >> 8\<close>.
\<close>

definition dac_addr_lsb :: "u16 \<Rightarrow> u8" where
  "dac_addr_lsb addr = ucast addr AND 0xFF"

definition dac_addr_msb :: "u16 \<Rightarrow> u8" where
  "dac_addr_msb addr = drop_bit 8 (ucast (addr AND 0xFF00))"

definition rd_dac_val :: "u16 \<Rightarrow> (fw, u16) prog" where
  "rd_dac_val addr =
     bnd (drv (I2C_start I2C_OPENCORES_0_BASE EEPROM_I2C_ADDR 0)) (\<lambda>_.
     bnd (drv (I2C_write I2C_OPENCORES_0_BASE (dac_addr_msb addr) 0)) (\<lambda>_.
     bnd (drv (I2C_write I2C_OPENCORES_0_BASE (dac_addr_lsb addr) 0)) (\<lambda>_.
     bnd (drv (I2C_start I2C_OPENCORES_0_BASE EEPROM_I2C_ADDR 1)) (\<lambda>_.
     bnd (drv (I2C_read I2C_OPENCORES_0_BASE 0)) (\<lambda>v0.
     bnd (drv (I2C_read I2C_OPENCORES_0_BASE 1)) (\<lambda>v1.
     let eeprom_rd_val_0 = ucast v0 :: u8; eeprom_rd_val_1 = ucast v1 :: u8 in
     ret (push_bit 8 (ucast eeprom_rd_val_1) OR ucast eeprom_rd_val_0)))))))"

section \<open>What the helpers do\<close>

lemma twp_Check_many_blocks [twp_intros]:
  assumes "bs \<noteq> 0"
    and "unat (rx_hdr HDR_DATA_BLOCKS s) > 56 div unat bs \<Longrightarrow>
       Q 1 [] (s\<lparr>glEp0Buffer_Tx := (glEp0Buffer_Tx s)[HDR_STATUS := STATUS_BLOCKS_ERROR_CMD]\<rparr>)"
    and "unat (rx_hdr HDR_DATA_BLOCKS s) \<le> 56 div unat bs \<Longrightarrow> Q 0 [] s"
  shows "twp (Check_many_blocks bs) env Q F s"
  by (rule twp_silent) (use assms in \<open>auto simp: Check_many_blocks_def wp_simps\<close>)

lemma twp_set_led [twp_intros]:
  "(\<And>h. Q () [Out (IOADDR LEDS_BASE 0) (ucast v)] (s\<lparr>hist := h\<rparr>)) \<Longrightarrow> twp (set_led v) env Q F s"
  unfolding set_led_def by (intro twp_intros)

text \<open>The packet is the low bytes of \<open>k\<close> successive loads of the FIFO.\<close>

lemma wp_collect_IORD:
  assumes "\<And>vs. length vs = length xs \<Longrightarrow> Q vs (h @ map (Rd (IOADDR base r)) vs)"
  shows "wp (collect xs (\<lambda>_. IORD base r)) env Q F h"
  using assms
proof (induction xs arbitrary: h Q)
  case Nil
  from Nil [of "[]"] show ?case by (simp add: wp_simps)
next
  case (Cons x xs)
  show ?case
    unfolding collect.simps wp_bnd wp_IORD wp_ret
  proof (rule Cons.IH)
    fix vs :: "u32 list"
    assume "length vs = length xs"
    then show "Q (env h (IOADDR base r) # vs)
        ((h @ [Rd (IOADDR base r) (env h (IOADDR base r))]) @ map (Rd (IOADDR base r)) vs)"
      using Cons.prems [of "env h (IOADDR base r) # vs"] by simp
  qed
qed

lemma does_map_In: "does env (map (In a) vs) (map (Rd a) vs)"
  by (induction vs) (auto intro: exI [of _ "[Rd a _]"])

lemma twp_getFifoData:
  assumes "length (glEp0Buffer_Rx s) = 64"
    and "\<And>vs h. length vs = 64 \<Longrightarrow> Q () (map (In (IOADDR AV_FIFO_INT_0_BASE 1)) vs)
       (s\<lparr>hist := h, glEp0Buffer_Rx := map ucast vs\<rparr>)"
  shows "twp (getFifoData LMS_CTRL_PACKET_SIZE) env Q F s"
  unfolding getFifoData_def
proof (rule twp_bnd)
  show "twp (drv (collect [0..<LMS_CTRL_PACKET_SIZE] (\<lambda>cnt. IORD AV_FIFO_INT_0_BASE 1))) env
     (\<lambda>vs as. twp (if LMS_CTRL_PACKET_SIZE \<le> LMS_CTRL_PACKET_SIZE
        then modify (\<lambda>s. s\<lparr>glEp0Buffer_Rx := splice 0 (map ucast vs) (glEp0Buffer_Rx s)\<rparr>)
        else fail OutOfBounds) env (\<lambda>b bs. Q b (as @ bs)) F) F s"
    unfolding twp_after wp_drv
  proof (rule wp_collect_IORD)
    fix vs :: "u32 list"
    assume "length vs = length [0..<LMS_CTRL_PACKET_SIZE]"
    then have vs: "length vs = 64" by (simp add: LMS_CTRL_PACKET_SIZE_def)
    let ?s = "s\<lparr>hist := hist s @ map (Rd (IOADDR AV_FIFO_INT_0_BASE 1)) vs\<rparr>"
    have "after env (hist s) (map (In (IOADDR AV_FIFO_INT_0_BASE 1)) vs) ?s"
      by (auto simp: after_def does_map_In)
    moreover have "twp (modify (\<lambda>s. s\<lparr>glEp0Buffer_Rx := splice 0 (map ucast vs) (glEp0Buffer_Rx s)\<rparr>)) env
        (\<lambda>b bs. Q b (map (In (IOADDR AV_FIFO_INT_0_BASE 1)) vs @ bs)) F ?s"
      by (rule twp_modify) (use assms vs in \<open>auto simp: splice_take_drop\<close>)
    ultimately show "\<exists>acts. after env (hist s) acts ?s \<and>
        wp (if LMS_CTRL_PACKET_SIZE \<le> LMS_CTRL_PACKET_SIZE
            then modify (\<lambda>s. s\<lparr>glEp0Buffer_Rx := splice 0 (map ucast vs) (glEp0Buffer_Rx s)\<rparr>)
            else fail OutOfBounds) env
          (\<lambda>a s'. \<exists>bs. after env (hist ?s) bs s' \<and> Q a (acts @ bs) s') F ?s"
      unfolding twp_after by auto
  qed
qed

lemma twp_Control_TCXO_DAC [twp_intros]:
  assumes "F Hang \<or> spi_core_ok env SPI_1_BASE" and "oe = 0 \<or> dat \<noteq> []"
    and "\<And>h. Q () [Spi SPI_1_BASE SPI_NR_DAC
       (if oe = 0 then [0xC0, 0x00] else [drop_bit 2 (hd dat), push_bit 6 (hd dat)]) [] 0] (s\<lparr>hist := h\<rparr>)"
  shows "twp (Control_TCXO_DAC oe dat) env Q F s"
proof (cases "oe = 0")
  case True
  show ?thesis
    unfolding Control_TCXO_DAC_def
    by (intro twp_intros assms(1)) (use True assms(3) in \<open>auto simp: spi_masks\<close>)
next
  case False
  with assms(2) obtain d ds where "dat = d # ds" by (cases dat) auto
  with False show ?thesis
    unfolding Control_TCXO_DAC_def
    by (simp, intro twp_intros assms(1)) (use assms(3) in \<open>auto simp: spi_masks\<close>)
qed

definition adf_three_state_acts :: "act list" where
  "adf_three_state_acts = map (\<lambda>w. Spi SPI_1_ADF4002_BASE SPI_NR_ADF4002 w [] 0)
     [[0x1f, 0x81, 0xf3], [0x1f, 0x81, 0xf2], [0x00, 0x01, 0xf4], [0x01, 0x80, 0x01]]"

lemma twp_Control_TCXO_ADF [twp_intros]:
  assumes "F Hang \<or> spi_core_ok env SPI_1_ADF4002_BASE" and "oe = 0 \<or> length dat = 3"
    and "\<And>h. Q () (if oe = 0 then adf_three_state_acts
       else [Spi SPI_1_ADF4002_BASE SPI_NR_ADF4002 dat [] 0]) (s\<lparr>hist := h\<rparr>)"
  shows "twp (Control_TCXO_ADF oe dat) env Q F s"
proof (cases "oe = 0")
  case True
  have "[0..<4] = [0, 1, 2, 3 :: nat]" by (simp add: upt_rec)
  then show ?thesis
    unfolding Control_TCXO_ADF_def using True
    apply (simp add: ADF_three_state_def)
    apply (intro twp_intros assms(1))
    using assms(3) apply (auto simp: spi_masks adf_three_state_acts_def)
    done
next
  case False
  with assms show ?thesis
    unfolding Control_TCXO_ADF_def
    by (simp, intro twp_intros assms(1)) (auto simp: spi_masks)
qed

end
