(* ===== verification/Handlers.thy ===== *)
theory Handlers
  imports Peripherals
begin

text \<open>
  The command handlers of the main loop, one definition per \<open>case\<close> of the \<open>switch\<close> on the command
  byte in \<^verbatim>\<open>main.c\<close>. A handler that leaves its \<open>case\<close> early leaves the rest of its program out.
\<close>

section \<open>Board information and reset\<close>

definition FW_VER :: u8 where "FW_VER = 7"

definition cmd_get_info :: "(fw, unit) prog" where
  "cmd_get_info = seqs
     [set_tx_data 0 FW_VER, set_tx_data 1 DEV_TYPE, set_tx_data 2 LMS_PROTOCOL_VER,
      set_tx_data 3 HW_VER, set_tx_data 4 EXP_BOARD, set_status STATUS_COMPLETED_CMD]"

definition cmd_lms_rst :: "(fw, unit) prog" where
  "cmd_lms_rst =
     bnd (rx_data 0) (\<lambda>mode. seqs
       [if mode = LMS_RST_DEACTIVATE then drv (IOWR LMS_CTR_GPIO_BASE 0 0x07)
        else if mode = LMS_RST_ACTIVATE then drv (IOWR LMS_CTR_GPIO_BASE 0 0x06)
        else if mode = LMS_RST_PULSE then
          seqs [drv (IOWR LMS_CTR_GPIO_BASE 0 0x06), nops 10, drv (IOWR LMS_CTR_GPIO_BASE 0 0x07)]
        else inc_errors,
        set_status STATUS_COMPLETED_CMD])"

section \<open>Register access over SPI\<close>

text \<open>\<open>sbi(Data_field[i], 7)\<close> and \<open>cbi(Data_field[i], 7)\<close>.\<close>

definition sbi_rx_data :: "nat \<Rightarrow> (fw, unit) prog" where
  "sbi_rx_data i = bnd (rx_data i) (\<lambda>v. set_rx_data i (v OR push_bit 7 1))"

definition cbi_rx_data :: "nat \<Rightarrow> (fw, unit) prog" where
  "cbi_rx_data i = bnd (rx_data i) (\<lambda>v. set_rx_data i (v AND NOT (push_bit 7 1)))"

definition cmd_lms7002_wr :: "(fw, unit) prog" where
  "cmd_lms7002_wr =
     bnd (Check_many_blocks 4) (\<lambda>many.
     if many \<noteq> 0 then ret ()
     else seqs
       [for_blocks (\<lambda>blk. seqs
          [sbi_rx_data (0 + blk * 4),
           bnd (rx_slice (0 + blk * 4) 4) (\<lambda>w. void (spi_command SPI_LMS_BASE SPI_NR_LMS7002M w 0 0))]),
        set_status STATUS_COMPLETED_CMD])"

definition cmd_lms7002_rd :: "(fw, unit) prog" where
  "cmd_lms7002_rd =
     bnd (Check_many_blocks 4) (\<lambda>many.
     if many \<noteq> 0 then ret ()
     else seqs
       [for_blocks (\<lambda>blk. seqs
          [cbi_rx_data (0 + blk * 2),
           bnd (rx_slice (0 + blk * 2) 2) (\<lambda>w.
           bnd (spi_command SPI_LMS_BASE SPI_NR_LMS7002M w 2 0) (\<lambda>r. tx_store (2 + blk * 4) r))]),
        set_status STATUS_COMPLETED_CMD])"

definition cmd_brdspi16_wr :: "(fw, unit) prog" where
  "cmd_brdspi16_wr =
     bnd (Check_many_blocks 4) (\<lambda>many.
     if many \<noteq> 0 then ret ()
     else seqs
       [for_blocks (\<lambda>blk. seqs
          [sbi_rx_data (0 + blk * 4),
           bnd (rx_slice (0 + blk * 4) 4) (\<lambda>w. void (spi_command SPI_LMS_BASE SPI_NR_FPGA w 0 0))]),
        set_status STATUS_COMPLETED_CMD])"

definition cmd_brdspi16_rd :: "(fw, unit) prog" where
  "cmd_brdspi16_rd =
     bnd (Check_many_blocks 4) (\<lambda>many.
     if many \<noteq> 0 then ret ()
     else seqs
       [for_blocks (\<lambda>blk. seqs
          [cbi_rx_data (0 + blk * 2),
           bnd (rx_slice (0 + blk * 2) 2) (\<lambda>w.
           bnd (spi_command SPI_LMS_BASE SPI_NR_FPGA w 2 0) (\<lambda>r. tx_store (2 + blk * 4) r))]),
        set_status STATUS_COMPLETED_CMD])"

section \<open>Reference oscillator\<close>

text \<open>The status at the end of a handler that counts its errors.\<close>

definition status_by_errors :: "u8 \<Rightarrow> (fw, unit) prog" where
  "status_by_errors err =
     bnd (gets cmd_errors) (\<lambda>e. if e \<noteq> 0 then set_status err else set_status STATUS_COMPLETED_CMD)"

definition cmd_adf4002_wr :: "(fw, unit) prog" where
  "cmd_adf4002_wr =
     bnd (Check_many_blocks 3) (\<lambda>many.
     if many \<noteq> 0 then ret ()
     else seqs
       [Control_TCXO_DAC 0 [],
        for_blocks (\<lambda>blk. bnd (rx_slice (0 + blk * 3) 3) (\<lambda>w. Control_TCXO_ADF 1 w)),
        status_by_errors STATUS_INVALID_PERIPH_ID_CMD])"

section \<open>Analog values\<close>

text \<open>
  The temperature in tenths of a degree from the sensor's two bytes, in the C program's steps on
  the 16-bit signed \<open>converted_val\<close>: the first byte, sign extended, times ten, plus five when the
  half-degree bit of the second byte is set.
\<close>

definition lm75_value :: "u32 \<Rightarrow> u32 \<Rightarrow> u16" where
  "lm75_value msb lsb =
     (let c0 = ucast msb :: u16; c1 = push_bit 8 c0; c2 = 10 * signed_drop_bit 8 c1
      in if lsb AND 0x80 \<noteq> 0 then c2 + 5 else c2)"

definition analog_rd_block :: "nat \<Rightarrow> (fw, unit) prog" where
  "analog_rd_block blk =
     bnd (rx_data (0 + blk)) (\<lambda>ch.
     if ch = 0 then
       seqs [set_tx_data (0 + blk * 4) ch, set_tx_data (1 + blk * 4) 0, set_tx_data (2 + blk * 4) 0,
             bnd (gets dac_val) (\<lambda>d. set_tx_data (3 + blk * 4) d)]
     else if ch = 1 then
       bnd (drv (I2C_start I2C_OPENCORES_0_BASE LM75_I2C_ADDR 0)) (\<lambda>_.
       bnd (drv (I2C_write I2C_OPENCORES_0_BASE 0x00 1)) (\<lambda>_.
       bnd (drv (I2C_start I2C_OPENCORES_0_BASE LM75_I2C_ADDR 1)) (\<lambda>_.
       bnd (drv (I2C_read I2C_OPENCORES_0_BASE 0)) (\<lambda>msb.
       bnd (drv (I2C_read I2C_OPENCORES_0_BASE 1)) (\<lambda>lsb.
       bnd (modify (\<lambda>s. s\<lparr>converted_val := lm75_value msb lsb\<rparr>)) (\<lambda>_.
       seqs [set_tx_data (0 + blk * 4) ch, set_tx_data (1 + blk * 4) 0x50,
             bnd (gets converted_val) (\<lambda>c. set_tx_data (2 + blk * 4) (ucast (signed_drop_bit 8 c))),
             bnd (gets converted_val) (\<lambda>c. set_tx_data (3 + blk * 4) (ucast c))]))))))
     else inc_errors)"

definition cmd_analog_val_rd :: "(fw, unit) prog" where
  "cmd_analog_val_rd = seqs [for_blocks analog_rd_block, set_status STATUS_COMPLETED_CMD]"

definition analog_wr_block :: "nat \<Rightarrow> (fw, unit) prog" where
  "analog_wr_block blk =
     bnd (rx_data (0 + blk * 4)) (\<lambda>ch.
     if ch = 0 then
       bnd (rx_data (1 + blk * 4)) (\<lambda>unit.
       if unit = 0 then
         bnd (rx_data (2 + blk * 4)) (\<lambda>msb.
         if msb = 0 then
           bnd (Control_TCXO_ADF 0 []) (\<lambda>_.
           bnd (rx_data (3 + blk * 4)) (\<lambda>v.
           bnd (modify (\<lambda>s. s\<lparr>dac_val := v\<rparr>)) (\<lambda>_.
           bnd (gets dac_val) (\<lambda>d. Control_TCXO_DAC 1 [d]))))
         else inc_errors)
       else inc_errors)
     else inc_errors)"

definition cmd_analog_val_wr :: "(fw, unit) prog" where
  "cmd_analog_val_wr =
     bnd (Check_many_blocks 4) (\<lambda>many.
     if many \<noteq> 0 then ret ()
     else seqs [for_blocks analog_wr_block, status_by_errors STATUS_ERROR_CMD])"

section \<open>Clock generator and EEPROM over I2C\<close>

definition si5351_wr_block :: "nat \<Rightarrow> (fw, unit) prog" where
  "si5351_wr_block blk =
     bnd (drv (I2C_start I2C_OPENCORES_0_BASE SI5351_I2C_ADDR 0)) (\<lambda>e0.
     bnd (add_errors e0) (\<lambda>_.
     bnd (rx_data (blk * 2)) (\<lambda>reg.
     bnd (drv (I2C_write I2C_OPENCORES_0_BASE reg 0)) (\<lambda>e1.
     bnd (add_errors e1) (\<lambda>_.
     bnd (rx_data (blk * 2 + 1)) (\<lambda>v.
     bnd (drv (I2C_write I2C_OPENCORES_0_BASE v 1)) (\<lambda>e2.
     add_errors e2)))))))"

definition cmd_si5351_wr :: "(fw, unit) prog" where
  "cmd_si5351_wr =
     bnd (Check_many_blocks 2) (\<lambda>many.
     if many \<noteq> 0 then ret ()
     else seqs [for_blocks si5351_wr_block, status_by_errors STATUS_ERROR_CMD])"

definition si5351_rd_block :: "nat \<Rightarrow> (fw, unit) prog" where
  "si5351_rd_block blk =
     bnd (drv (I2C_start I2C_OPENCORES_0_BASE SI5351_I2C_ADDR 0)) (\<lambda>e0.
     bnd (add_errors e0) (\<lambda>_.
     bnd (rx_data blk) (\<lambda>reg.
     bnd (drv (I2C_write I2C_OPENCORES_0_BASE reg 1)) (\<lambda>e1.
     bnd (add_errors e1) (\<lambda>_.
     bnd (drv (I2C_start I2C_OPENCORES_0_BASE SI5351_I2C_ADDR 1)) (\<lambda>e2.
     bnd (add_errors e2) (\<lambda>_.
     bnd (rx_data blk) (\<lambda>reg'.
     bnd (set_tx_data (blk * 2) reg') (\<lambda>_.
     bnd (drv (I2C_read I2C_OPENCORES_0_BASE 1)) (\<lambda>v.
     set_tx_data (blk * 2 + 1) (ucast v)))))))))))"

definition cmd_si5351_rd :: "(fw, unit) prog" where
  "cmd_si5351_rd =
     bnd (Check_many_blocks 2) (\<lambda>many.
     if many \<noteq> 0 then ret ()
     else seqs [for_blocks si5351_rd_block, status_by_errors STATUS_ERROR_CMD])"

text \<open>\<open>current_portion\<close> and \<open>data_cnt\<close>, as three handlers read them from the packet.\<close>

definition read_portion :: "(fw, unit) prog" where
  "read_portion =
     bnd (rx_data 1) (\<lambda>b1. bnd (rx_data 2) (\<lambda>b2. bnd (rx_data 3) (\<lambda>b3. bnd (rx_data 4) (\<lambda>b4.
     bnd (rx_data 5) (\<lambda>b5.
     modify (\<lambda>s. s\<lparr>current_portion :=
         push_bit 24 (ucast b1) OR push_bit 16 (ucast b2) OR push_bit 8 (ucast b3) OR ucast b4,
       data_cnt := b5\<rparr>))))))"

definition assign_errors :: "u32 \<Rightarrow> (fw, unit) prog" where
  "assign_errors e = modify (\<lambda>s. s\<lparr>cmd_errors := ucast e\<rparr>)"

text \<open>
  The loop \<open>for (k = 0; k < data_cnt - 1; k++)\<close> leaves \<open>k\<close> at \<open>max 0 (data_cnt - 1)\<close>; on natural
  numbers that is \<open>data_cnt - 1\<close>. The last byte is sent or received after the loop, at index \<open>k\<close>,
  also when \<open>data_cnt\<close> is zero.
\<close>

definition cmd_memory_wr :: "(fw, unit) prog" where
  "cmd_memory_wr =
     bnd read_portion (\<lambda>_. bnd (rx_data 10) (\<lambda>t10. bnd (rx_data 11) (\<lambda>t11. bnd (rx_data 0) (\<lambda>mode.
     if t10 = 0 \<and> t11 = 3 then
       if mode = 0 then
         bnd (drv (I2C_start I2C_OPENCORES_0_BASE EEPROM_I2C_ADDR 0)) (\<lambda>e0.
         bnd (assign_errors e0) (\<lambda>_.
         bnd (rx_data 8) (\<lambda>a8.
         bnd (drv (I2C_write I2C_OPENCORES_0_BASE a8 0)) (\<lambda>e1.
         bnd (add_errors e1) (\<lambda>_.
         bnd (rx_data 9) (\<lambda>a9.
         bnd (drv (I2C_write I2C_OPENCORES_0_BASE a9 0)) (\<lambda>e2.
         bnd (add_errors e2) (\<lambda>_.
         bnd (gets (\<lambda>s. unat (data_cnt s) - 1)) (\<lambda>k.
         seqs
           [each [0..<k] (\<lambda>i.
              bnd (rx_data (24 + i)) (\<lambda>v.
              bnd (drv (I2C_write I2C_OPENCORES_0_BASE v 0)) (\<lambda>e.
              bnd (add_errors e) (\<lambda>_. usleep 5000)))),
            bnd (rx_data (24 + k)) (\<lambda>v.
            bnd (drv (I2C_write I2C_OPENCORES_0_BASE v 1)) (\<lambda>e.
            bnd (add_errors e) (\<lambda>_. usleep 5000))),
            status_by_errors STATUS_ERROR_CMD])))))))))
       else set_status STATUS_ERROR_CMD
     else set_status STATUS_ERROR_CMD))))"

definition cmd_memory_rd :: "(fw, unit) prog" where
  "cmd_memory_rd =
     bnd read_portion (\<lambda>_. bnd (rx_data 10) (\<lambda>t10. bnd (rx_data 11) (\<lambda>t11. bnd (rx_data 0) (\<lambda>mode.
     if t10 = 0 \<and> t11 = 3 then
       if mode = 0 then
         bnd (drv (I2C_start I2C_OPENCORES_0_BASE EEPROM_I2C_ADDR 0)) (\<lambda>e0.
         bnd (assign_errors e0) (\<lambda>_.
         bnd (rx_data 8) (\<lambda>a8.
         bnd (drv (I2C_write I2C_OPENCORES_0_BASE a8 0)) (\<lambda>e1.
         bnd (add_errors e1) (\<lambda>_.
         bnd (rx_data 9) (\<lambda>a9.
         bnd (drv (I2C_write I2C_OPENCORES_0_BASE a9 0)) (\<lambda>e2.
         bnd (add_errors e2) (\<lambda>_.
         bnd (drv (I2C_start I2C_OPENCORES_0_BASE EEPROM_I2C_ADDR 1)) (\<lambda>e3.
         bnd (add_errors e3) (\<lambda>_.
         bnd (gets (\<lambda>s. unat (data_cnt s) - 1)) (\<lambda>k.
         seqs
           [each [0..<k] (\<lambda>i.
              bnd (drv (I2C_read I2C_OPENCORES_0_BASE 0)) (\<lambda>v. set_tx_data (24 + i) (ucast v))),
            bnd (drv (I2C_read I2C_OPENCORES_0_BASE 1)) (\<lambda>v. set_tx_data (24 + k) (ucast v)),
            status_by_errors STATUS_ERROR_CMD])))))))))))
       else set_status STATUS_ERROR_CMD
     else set_status STATUS_ERROR_CMD))))"

section \<open>GPIO over SPI\<close>

definition cmd_gpio_dir_wr :: "(fw, unit) prog" where
  "cmd_gpio_dir_wr = seqs
     [set_sc 0 0x80, set_sc 1 0xC4,
      bnd (rx_data 1) (set_sc 2), bnd (rx_data 0) (set_sc 3),
      bnd (gets sc_brdg_data) (\<lambda>w. void (spi_command SPI_LMS_BASE SPI_NR_FPGA (take 4 w) 0 0)),
      set_status STATUS_COMPLETED_CMD]"

definition cmd_gpio_wr :: "(fw, unit) prog" where
  "cmd_gpio_wr = seqs
     [set_sc 0 0x80, set_sc 1 0xC6,
      bnd (rx_data 1) (set_sc 2), bnd (rx_data 0) (set_sc 3),
      bnd (gets sc_brdg_data) (\<lambda>w. void (spi_command SPI_LMS_BASE SPI_NR_FPGA (take 4 w) 0 0)),
      set_status STATUS_COMPLETED_CMD]"

text \<open>\<open>alt_avalon_spi_command(..., 2, sc_brdg_data, 2, &sc_brdg_data[i], 0)\<close>.\<close>

definition sc_exchange :: "u32 \<Rightarrow> nat \<Rightarrow> (fw, unit) prog" where
  "sc_exchange slave i =
     bnd (gets sc_brdg_data) (\<lambda>w.
     bnd (spi_command SPI_LMS_BASE slave (take 2 w) 2 0) (\<lambda>r.
     modify (\<lambda>s. s\<lparr>sc_brdg_data := splice i r (sc_brdg_data s)\<rparr>)))"

definition cmd_gpio_dir_rd :: "(fw, unit) prog" where
  "cmd_gpio_dir_rd = seqs
     [set_sc 0 0x00, set_sc 1 0xC4, sc_exchange SPI_NR_FPGA 2,
      bnd (gets (\<lambda>s. sc_brdg_data s ! 3)) (set_tx_data 0),
      bnd (gets (\<lambda>s. sc_brdg_data s ! 2)) (set_tx_data 1),
      set_status STATUS_COMPLETED_CMD]"

definition cmd_gpio_rd :: "(fw, unit) prog" where
  "cmd_gpio_rd = seqs
     [set_sc 0 0x00, set_sc 1 0xC2, sc_exchange SPI_NR_FPGA 2,
      bnd (gets (\<lambda>s. sc_brdg_data s ! 3)) (set_tx_data 0),
      bnd (gets (\<lambda>s. sc_brdg_data s ! 2)) (set_tx_data 1),
      set_status STATUS_COMPLETED_CMD]"

section \<open>Register access: one SPI transaction per block\<close>

text \<open>Block \<open>j\<close> of \<open>n\<close> bytes of the received data field.\<close>

definition rx_block :: "nat \<Rightarrow> nat \<Rightarrow> fw \<Rightarrow> u8 list" where
  "rx_block n j s = take n (drop (HDR_SIZE + j * n) (glEp0Buffer_Rx s))"

text \<open>The register address with the write bit set, or cleared, and the data that follows it.\<close>

fun write_word :: "u8 list \<Rightarrow> u8 list" where
  "write_word [] = []"
| "write_word (b # bs) = (b OR 0x80) # bs"

fun read_word :: "u8 list \<Rightarrow> u8 list" where
  "read_word [] = []"
| "read_word (b # bs) = (b AND 0x7F) # bs"

lemma length_rx_block: "fw_ok s \<Longrightarrow> (j + 1) * n \<le> 56 \<Longrightarrow> length (rx_block n j s) = n"
  by (simp add: rx_block_def fw_ok_def protocol_defs algebra_simps)

lemma take_drop_update: "i < length xs \<Longrightarrow> 0 < n \<Longrightarrow> take n (drop i (xs[i := v])) = v # take (n - 1) (drop (Suc i) xs)"
  by (cases n) (simp_all add: drop_update_swap [symmetric] Cons_nth_drop_Suc [symmetric])

lemma take_drop_Cons: "i < length xs \<Longrightarrow> 0 < n \<Longrightarrow> take n (drop i xs) = xs ! i # take (n - 1) (drop (Suc i) xs)"
  by (cases n) (simp_all add: Cons_nth_drop_Suc [symmetric])

lemma block_bound: "i < unat (b :: u8) \<Longrightarrow> unat b \<le> m div k \<Longrightarrow> (i + 1) * k \<le> (m :: nat)"
proof -
  assume "i < unat b" "unat b \<le> m div k"
  then have "(i + 1) * k \<le> (m div k) * k" by (intro mult_right_mono) auto
  also have "\<dots> \<le> m" by simp
  finally show ?thesis .
qed

text \<open>
  Rounds \<open>i\<close> and later of a block loop see the data field as it was received: the earlier rounds
  changed bytes of their own blocks only.
\<close>

definition rx_from :: "nat \<Rightarrow> fw \<Rightarrow> fw \<Rightarrow> bool" where
  "rx_from i s s' \<longleftrightarrow> drop (HDR_SIZE + i) (glEp0Buffer_Rx s') = drop (HDR_SIZE + i) (glEp0Buffer_Rx s)"

lemma rx_from_refl [simp]: "rx_from i s s"
  by (simp add: rx_from_def)

lemma rx_from_block: "rx_from (j * n) s s' \<Longrightarrow> rx_block n j s' = rx_block n j s"
  by (simp add: rx_from_def rx_block_def)

lemma rx_from_later: "rx_from i s s' \<Longrightarrow> i \<le> k \<Longrightarrow> rx_from k s s'"
  unfolding rx_from_def by (metis add_le_cancel_left drop_drop le_add_diff_inverse2 add.commute)

lemma rx_from_update [simp]:
  "j < k \<Longrightarrow> rx_from k s (t\<lparr>glEp0Buffer_Rx := (glEp0Buffer_Rx t)[HDR_SIZE + j := v]\<rparr>) = rx_from k s t"
  "rx_from k s (t\<lparr>hist := h\<rparr>) = rx_from k s t"
  "rx_from k s (t\<lparr>block := b\<rparr>) = rx_from k s t"
  "rx_from k s (t\<lparr>cmd_errors := b\<rparr>) = rx_from k s t"
  "rx_from k s (t\<lparr>glEp0Buffer_Tx := tx\<rparr>) = rx_from k s t"
  by (simp_all add: rx_from_def)

lemma twp_spi_wr_block:
  assumes ok: "F Hang \<or> spi_core_ok env SPI_LMS_BASE" and "fw_ok s" and i: "(i + 1) * 4 \<le> 56"
    and Q: "\<And>h v. Q () [Spi SPI_LMS_BASE slave (write_word (rx_block 4 i s)) [] 0]
       (s\<lparr>glEp0Buffer_Rx := (glEp0Buffer_Rx s)[HDR_SIZE + i * 4 := v], hist := h\<rparr>)"
  shows "twp (seqs [sbi_rx_data (0 + i * 4),
     bnd (rx_slice (0 + i * 4) 4) (\<lambda>w. void (spi_command SPI_LMS_BASE slave w 0 0))]) env Q F s"
proof -
  let ?rx = "glEp0Buffer_Rx s"
  have len: "HDR_SIZE + i * 4 < length ?rx" using assms(2) i by (simp add: fw_ok_def protocol_defs)
  then have "take 4 (drop (HDR_SIZE + i * 4) (?rx[HDR_SIZE + i * 4 := ?rx ! (HDR_SIZE + i * 4) OR 0x80]))
      = write_word (rx_block 4 i s)"
    by (simp add: take_drop_update take_drop_Cons rx_block_def)
  moreover have "length (write_word (rx_block 4 i s)) = 4"
    using length_rx_block [OF assms(2) i] by (cases "rx_block 4 i s") auto
  ultimately show ?thesis
    unfolding sbi_rx_data_def
    by (intro twp_intros ok) (use i Q in \<open>auto simp: spi_masks intro!: twp_intros ok\<close>)
qed

lemma twp_spi_rd_block:
  assumes ok: "F Hang \<or> spi_core_ok env SPI_LMS_BASE" and "fw_ok s" and i: "(i + 1) * 4 \<le> 56"
    and Q: "\<And>h v d. length d = 2 \<Longrightarrow> Q () [Spi SPI_LMS_BASE slave (read_word (rx_block 2 i s)) d 0]
       (s\<lparr>glEp0Buffer_Rx := (glEp0Buffer_Rx s)[HDR_SIZE + i * 2 := v], hist := h,
          glEp0Buffer_Tx := splice (HDR_SIZE + (2 + i * 4)) d (glEp0Buffer_Tx s)\<rparr>)"
  shows "twp (seqs [cbi_rx_data (0 + i * 2),
     bnd (rx_slice (0 + i * 2) 2) (\<lambda>w.
     bnd (spi_command SPI_LMS_BASE slave w 2 0) (\<lambda>r. tx_store (2 + i * 4) r))]) env Q F s"
proof -
  let ?rx = "glEp0Buffer_Rx s"
  have len: "HDR_SIZE + i * 2 < length ?rx" using assms(2) i by (simp add: fw_ok_def protocol_defs)
  have m: "x AND - 129 = x AND 127" for x :: u8
    by (rule arg_cong [of _ _ "\<lambda>m. x AND m"]) simp
  from len have "take 2 (drop (HDR_SIZE + i * 2) (?rx[HDR_SIZE + i * 2 := ?rx ! (HDR_SIZE + i * 2) AND NOT (push_bit 7 1)]))
      = read_word (rx_block 2 i s)"
    by (simp add: take_drop_update take_drop_Cons rx_block_def m)
  moreover have "length (read_word (rx_block 2 i s)) = 2"
    using length_rx_block [OF assms(2), of i 2] i by (cases "rx_block 2 i s") auto
  ultimately show ?thesis
    unfolding cbi_rx_data_def
    by (intro twp_intros ok) (use i Q in \<open>auto simp: spi_masks intro!: twp_intros ok\<close>)
qed

lemma tidy_map_spi [simp]: "base \<in> spi_bases \<Longrightarrow> tidy (map (\<lambda>j. Spi base (f j) (g j) (r j) 0) xs)"
proof (induction xs)
  case (Cons x xs)
  then have "tidy ([Spi base (f x) (g x) (r x) 0] @ map (\<lambda>j. Spi base (f j) (g j) (r j) 0) xs)"
    by (intro tidy_append) simp_all
  then show ?case by simp
qed simp

text \<open>The writes of a block command: every block in order, write bit set, to the given slave.\<close>

definition wr_acts :: "u32 \<Rightarrow> nat \<Rightarrow> fw \<Rightarrow> act list" where
  "wr_acts slave n s = map (\<lambda>j. Spi SPI_LMS_BASE slave (write_word (rx_block 4 j s)) [] 0) [0..<n]"

lemma twp_wr_blocks:
  assumes ok: "F Hang \<or> spi_core_ok env SPI_LMS_BASE" and s: "fw_ok s" and m: "rx_hdr HDR_DATA_BLOCKS s = m"
    "unat m \<le> 14"
    and Q: "\<And>s'. kept s s' \<Longrightarrow> glEp0Buffer_Tx s' = glEp0Buffer_Tx s \<Longrightarrow> Q () (wr_acts slave (unat m) s) s'"
  shows "twp (for_blocks (\<lambda>blk. seqs [sbi_rx_data (0 + blk * 4),
     bnd (rx_slice (0 + blk * 4) 4) (\<lambda>w. void (spi_command SPI_LMS_BASE slave w 0 0))])) env Q F s"
proof (rule twp_for_blocks [where I = "\<lambda>i acts s'. kept s s' \<and> glEp0Buffer_Tx s' = glEp0Buffer_Tx s \<and>
      rx_from (i * 4) s s' \<and> acts = wr_acts slave i s", OF _ m(1)])
  fix i acts s'
  assume i: "i < unat m" and rx: "rx_hdr HDR_DATA_BLOCKS s' = m"
    and I: "kept s s' \<and> glEp0Buffer_Tx s' = glEp0Buffer_Tx s \<and> rx_from (i * 4) s s' \<and> acts = wr_acts slave i s"
  then have b: "rx_block 4 i s' = rx_block 4 i s" by (simp add: rx_from_block)
  have "rx_from (Suc i * 4) s s'" using I by (auto elim: rx_from_later)
  then show "twp (seqs [sbi_rx_data (0 + i * 4),
      bnd (rx_slice (0 + i * 4) 4) (\<lambda>w. void (spi_command SPI_LMS_BASE slave w 0 0))]) env
     (\<lambda>_ as t. block t = block s' \<and> rx_hdr HDR_DATA_BLOCKS t = m \<and>
        kept s (t\<lparr>block := block t + 1\<rparr>) \<and> glEp0Buffer_Tx (t\<lparr>block := block t + 1\<rparr>) = glEp0Buffer_Tx s \<and>
        rx_from (Suc i * 4) s (t\<lparr>block := block t + 1\<rparr>) \<and> acts @ as = wr_acts slave (Suc i) s) F s'"
    by (intro twp_spi_wr_block ok kept_ok [of s])
      (use i m I b rx in \<open>auto simp: wr_acts_def\<close>)
qed (use s Q in \<open>auto simp: kept_refl wr_acts_def\<close>)

text \<open>
  The reads: the transfers carry the block's register address, write bit clear, and the two bytes
  received go to the reply at \<open>2 + 4 * j\<close>.
\<close>

definition rd_acts :: "u32 \<Rightarrow> u8 list list \<Rightarrow> fw \<Rightarrow> act list" where
  "rd_acts slave ds s =
     map (\<lambda>j. Spi SPI_LMS_BASE slave (read_word (rx_block 2 j s)) (ds ! j) 0) [0..<length ds]"

lemma rd_acts_snoc: "rd_acts slave (ds @ [d]) s =
    rd_acts slave ds s @ [Spi SPI_LMS_BASE slave (read_word (rx_block 2 (length ds) s)) d 0]"
  by (simp add: rd_acts_def nth_append)

definition rd_reply :: "u8 list list \<Rightarrow> fw \<Rightarrow> bool" where
  "rd_reply ds s \<longleftrightarrow> (\<forall>j < length ds. take 2 (drop (HDR_SIZE + (2 + j * 4)) (glEp0Buffer_Tx s)) = ds ! j)"

lemma take_drop_splice_other:
  assumes "k + n \<le> i"
  shows "take n (drop k (splice i vs xs)) = take n (drop k xs)"
  by (rule nth_equalityI) (use assms in \<open>auto simp: splice_below\<close>)

lemma take_drop_splice_same:
  assumes "i + length vs \<le> length xs"
  shows "take (length vs) (drop i (splice i vs xs)) = vs"
  using assms by (simp add: splice_take_drop)

lemma twp_rd_blocks:
  assumes ok: "F Hang \<or> spi_core_ok env SPI_LMS_BASE" and s: "fw_ok s" and m: "rx_hdr HDR_DATA_BLOCKS s = m"
    "unat m \<le> 14"
    and Q: "\<And>s' ds. kept s s' \<Longrightarrow> length ds = unat m \<Longrightarrow> rd_reply ds s' \<Longrightarrow> Q () (rd_acts slave ds s) s'"
  shows "twp (for_blocks (\<lambda>blk. seqs [cbi_rx_data (0 + blk * 2),
     bnd (rx_slice (0 + blk * 2) 2) (\<lambda>w.
     bnd (spi_command SPI_LMS_BASE slave w 2 0) (\<lambda>r. tx_store (2 + blk * 4) r))])) env Q F s"
proof -
  let ?I = "\<lambda>i acts s'. kept s s' \<and> rx_from (i * 2) s s' \<and>
     (\<exists>ds. length ds = i \<and> rd_reply ds s' \<and> acts = rd_acts slave ds s)"
  show ?thesis
  proof (rule twp_for_blocks [where I = ?I, OF _ m(1)])
    fix i acts s'
    assume i: "i < unat m" and rx: "rx_hdr HDR_DATA_BLOCKS s' = m" and I: "?I i acts s'"
    then obtain ds where ds: "length ds = i" "rd_reply ds s'" "acts = rd_acts slave ds s" by blast
    from I have b: "rx_block 2 i s' = rx_block 2 i s" by (simp add: rx_from_block)
    have later: "rx_from (Suc i * 2) s s'" using I by (auto elim: rx_from_later)
    show "twp (seqs [cbi_rx_data (0 + i * 2), bnd (rx_slice (0 + i * 2) 2) (\<lambda>w.
       bnd (spi_command SPI_LMS_BASE slave w 2 0) (\<lambda>r. tx_store (2 + i * 4) r))]) env
     (\<lambda>_ as t. block t = block s' \<and> rx_hdr HDR_DATA_BLOCKS t = m \<and>
        ?I (Suc i) (acts @ as) (t\<lparr>block := block t + 1\<rparr>)) F s'"
    proof (rule twp_spi_rd_block [where F = F, OF ok])
      fix h v d
      assume d: "length (d :: u8 list) = 2"
      let ?t = "s'\<lparr>glEp0Buffer_Rx := (glEp0Buffer_Rx s')[HDR_SIZE + i * 2 := v], hist := h,
          glEp0Buffer_Tx := splice (HDR_SIZE + (2 + i * 4)) d (glEp0Buffer_Tx s')\<rparr>"
      have "length (glEp0Buffer_Tx s') = 64" using I by (simp add: kept_def fw_ok_def)
      then have "rd_reply (ds @ [d]) (?t\<lparr>block := block ?t + 1\<rparr>)"
        using ds d i m by (auto simp: rd_reply_def nth_append less_Suc_eq take_drop_splice_other
            take_drop_splice_same [where vs = d, unfolded d] protocol_defs)
      then have "?I (Suc i) (acts @ [Spi SPI_LMS_BASE slave (read_word (rx_block 2 i s')) d 0]) (?t\<lparr>block := block ?t + 1\<rparr>)"
        using I later ds(1,3) b
        by (intro conjI exI [of _ "ds @ [d]"]) (simp_all add: rd_acts_snoc add.assoc [symmetric] del: add_Suc_right)
      then show "block ?t = block s' \<and> rx_hdr HDR_DATA_BLOCKS ?t = m \<and>
        ?I (Suc i) (acts @ [Spi SPI_LMS_BASE slave (read_word (rx_block 2 i s')) d 0]) (?t\<lparr>block := block ?t + 1\<rparr>)"
        using rx by simp
    qed (use I i m in \<open>auto simp: kept_ok\<close>)
  next
    show "?I 0 [] (s\<lparr>block := 0\<rparr>)"
      using s by (auto simp: kept_refl rd_reply_def rd_acts_def)
  qed (use Q in auto)
qed

end
