(* ===== verification/Handler_Contracts.thy ===== *)
theory Handler_Contracts
  imports Handlers
begin

text \<open>
  The contract every command handler meets, \<open>answered\<close>: array sizes, received header and echoed
  header are kept, the status is a final one, every I2C transaction is complete and every chip
  select released. For the handlers that are register accesses the exact actions are given as well.
\<close>

definition final_statuses :: "u8 set" where
  "final_statuses = {STATUS_COMPLETED_CMD, STATUS_UNKNOWN_CMD, STATUS_BLOCKS_ERROR_CMD, STATUS_ERROR_CMD,
     STATUS_WRONG_ORDER_CMD, STATUS_INVALID_PERIPH_ID_CMD}"

definition answered :: "fw \<Rightarrow> act list \<Rightarrow> fw \<Rightarrow> bool" where
  "answered s acts s' \<longleftrightarrow> kept s s' \<and> tidy acts \<and> tx_hdr HDR_STATUS s' \<in> final_statuses"

lemma final_statuses_mem [simp]:
  "STATUS_COMPLETED_CMD \<in> final_statuses" "STATUS_UNKNOWN_CMD \<in> final_statuses"
  "STATUS_BLOCKS_ERROR_CMD \<in> final_statuses" "STATUS_ERROR_CMD \<in> final_statuses"
  "STATUS_WRONG_ORDER_CMD \<in> final_statuses" "STATUS_INVALID_PERIPH_ID_CMD \<in> final_statuses"
  by (simp_all add: final_statuses_def)

lemma final_not_busy: "v \<in> final_statuses \<Longrightarrow> v \<noteq> STATUS_BUSY_CMD"
  by (auto simp: final_statuses_def protocol_defs)

text \<open>The handlers end with a status.\<close>

lemma kept_status:
  assumes "kept s t"
  shows "kept s (t\<lparr>glEp0Buffer_Tx := (glEp0Buffer_Tx t)[HDR_STATUS := v]\<rparr>)"
    and "tx_hdr HDR_STATUS (t\<lparr>glEp0Buffer_Tx := (glEp0Buffer_Tx t)[HDR_STATUS := v]\<rparr>) = v"
  using assms by (auto simp: tx_hdr_def kept_def fw_ok_def same_hdr_def nth_list_update)

lemma twp_status:
  assumes "kept s t"
    and "\<And>s'. kept s s' \<Longrightarrow> tx_hdr HDR_STATUS s' = v \<Longrightarrow>
       glEp0Buffer_Tx s' = (glEp0Buffer_Tx t)[HDR_STATUS := v] \<Longrightarrow> cmd_errors s' = cmd_errors t \<Longrightarrow> Q () [] s'"
  shows "twp (set_status v) env Q F t"
  by (intro twp_set_status assms(2)) (use kept_status [OF assms(1), of v] in auto)

lemma twp_status_by_errors:
  assumes "kept s t"
    and "\<And>s'. kept s s' \<Longrightarrow> tx_hdr HDR_STATUS s' = (if cmd_errors t \<noteq> 0 then err else STATUS_COMPLETED_CMD) \<Longrightarrow> Q () [] s'"
  shows "twp (status_by_errors err) env Q F t"
  unfolding status_by_errors_def
  by (intro twp_bnd twp_gets twp_if twp_status [OF assms(1)]) (use assms(2) in auto)

text \<open>The block commands start with the check of the block count.\<close>

lemma twp_block_command:
  assumes "fw_ok s" and "bs \<noteq> 0"
    and "\<And>s'. unat (rx_hdr HDR_DATA_BLOCKS s) > 56 div unat bs \<Longrightarrow> kept s s' \<Longrightarrow>
       tx_hdr HDR_STATUS s' = STATUS_BLOCKS_ERROR_CMD \<Longrightarrow> Q () [] s'"
    and "unat (rx_hdr HDR_DATA_BLOCKS s) \<le> 56 div unat bs \<Longrightarrow> twp (seqs ps) env Q F s"
  shows "twp (bnd (Check_many_blocks bs) (\<lambda>many. if many \<noteq> 0 then ret () else seqs ps)) env Q F s"
  by (intro twp_bnd twp_Check_many_blocks twp_if twp_ret)
    (use assms kept_status [OF kept_refl [OF assms(1)]] in auto)

section \<open>Register access\<close>

lemma twp_wr_command:
  assumes ok: "F Hang \<or> spi_core_ok env SPI_LMS_BASE" and s: "fw_ok s"
    and "\<And>s'. unat (rx_hdr HDR_DATA_BLOCKS s) > 14 \<Longrightarrow> kept s s' \<Longrightarrow>
       tx_hdr HDR_STATUS s' = STATUS_BLOCKS_ERROR_CMD \<Longrightarrow> Q () [] s'"
    and "\<And>s'. unat (rx_hdr HDR_DATA_BLOCKS s) \<le> 14 \<Longrightarrow> kept s s' \<Longrightarrow>
       tx_hdr HDR_STATUS s' = STATUS_COMPLETED_CMD \<Longrightarrow>
       Q () (wr_acts slave (unat (rx_hdr HDR_DATA_BLOCKS s)) s) s'"
  shows "twp (bnd (Check_many_blocks 4) (\<lambda>many.
     if many \<noteq> 0 then ret ()
     else seqs
       [for_blocks (\<lambda>blk. seqs
          [sbi_rx_data (0 + blk * 4),
           bnd (rx_slice (0 + blk * 4) 4) (\<lambda>w. void (spi_command SPI_LMS_BASE slave w 0 0))]),
        set_status STATUS_COMPLETED_CMD])) env Q F s"
proof (rule twp_block_command [OF s])
  assume n: "unat (rx_hdr HDR_DATA_BLOCKS s) \<le> 56 div unat (4 :: u8)"
  then show "twp (seqs [for_blocks (\<lambda>blk. seqs
          [sbi_rx_data (0 + blk * 4),
           bnd (rx_slice (0 + blk * 4) 4) (\<lambda>w. void (spi_command SPI_LMS_BASE slave w 0 0))]),
        set_status STATUS_COMPLETED_CMD]) env Q F s"
    by (intro twp_seqs_Cons twp_wr_blocks [where F = F, OF ok s refl]) (auto intro!: twp_status twp_ret assms(4))
qed (use assms(3) in auto)

lemma twp_rd_command:
  assumes ok: "F Hang \<or> spi_core_ok env SPI_LMS_BASE" and s: "fw_ok s"
    and "\<And>s'. unat (rx_hdr HDR_DATA_BLOCKS s) > 14 \<Longrightarrow> kept s s' \<Longrightarrow>
       tx_hdr HDR_STATUS s' = STATUS_BLOCKS_ERROR_CMD \<Longrightarrow> Q () [] s'"
    and "\<And>s' ds. unat (rx_hdr HDR_DATA_BLOCKS s) \<le> 14 \<Longrightarrow> kept s s' \<Longrightarrow>
       tx_hdr HDR_STATUS s' = STATUS_COMPLETED_CMD \<Longrightarrow>
       length ds = unat (rx_hdr HDR_DATA_BLOCKS s) \<Longrightarrow> rd_reply ds s' \<Longrightarrow> Q () (rd_acts slave ds s) s'"
  shows "twp (bnd (Check_many_blocks 4) (\<lambda>many.
     if many \<noteq> 0 then ret ()
     else seqs
       [for_blocks (\<lambda>blk. seqs
          [cbi_rx_data (0 + blk * 2),
           bnd (rx_slice (0 + blk * 2) 2) (\<lambda>w.
           bnd (spi_command SPI_LMS_BASE slave w 2 0) (\<lambda>r. tx_store (2 + blk * 4) r))]),
        set_status STATUS_COMPLETED_CMD])) env Q F s"
proof (rule twp_block_command [OF s])
  assume n: "unat (rx_hdr HDR_DATA_BLOCKS s) \<le> 56 div unat (4 :: u8)"
  have reply: "rd_reply ds s'" if "rd_reply ds t" "glEp0Buffer_Tx s' = (glEp0Buffer_Tx t)[HDR_STATUS := v]" for ds s' t v
    using that by (auto simp: rd_reply_def protocol_defs)
  from n show "twp (seqs [for_blocks (\<lambda>blk. seqs
          [cbi_rx_data (0 + blk * 2),
           bnd (rx_slice (0 + blk * 2) 2) (\<lambda>w.
           bnd (spi_command SPI_LMS_BASE slave w 2 0) (\<lambda>r. tx_store (2 + blk * 4) r))]),
        set_status STATUS_COMPLETED_CMD]) env Q F s"
    by (intro twp_seqs_Cons twp_rd_blocks [where F = F, OF ok s refl])
      (auto intro!: twp_status twp_ret assms(4) elim: reply)
qed (use assms(3) in auto)

lemmas twp_register_commands =
  twp_wr_command [of _ _ _ _ SPI_NR_LMS7002M, folded cmd_lms7002_wr_def]
  twp_wr_command [of _ _ _ _ SPI_NR_FPGA, folded cmd_brdspi16_wr_def]
  twp_rd_command [of _ _ _ _ SPI_NR_LMS7002M, folded cmd_lms7002_rd_def]
  twp_rd_command [of _ _ _ _ SPI_NR_FPGA, folded cmd_brdspi16_rd_def]

lemma tidy_wr_acts [simp]: "tidy (wr_acts slave n s)"
  by (simp add: wr_acts_def)

lemma tidy_rd_acts [simp]: "tidy (rd_acts slave ds s)"
  by (simp add: rd_acts_def)

lemma answered_register_commands:
  assumes ok: "F Hang \<or> board_ok env" and s: "fw_ok s"
  shows "twp cmd_lms7002_wr env (\<lambda>_. answered s) F s"
    and "twp cmd_lms7002_rd env (\<lambda>_. answered s) F s"
    and "twp cmd_brdspi16_wr env (\<lambda>_. answered s) F s"
    and "twp cmd_brdspi16_rd env (\<lambda>_. answered s) F s"
  using ok by (rule_tac twp_register_commands; use ok s in \<open>auto simp: answered_def\<close>)+

section \<open>The remaining handlers\<close>

text \<open>A block loop whose rounds are tidy is tidy.\<close>

lemma twp_tidy_blocks:
  assumes s: "fw_ok s" and m: "rx_hdr HDR_DATA_BLOCKS s = m"
    and body: "\<And>i t. i < unat m \<Longrightarrow> fw_ok t \<Longrightarrow>
       twp (body i) env (\<lambda>_ as u. block u = block t \<and> kept t u \<and> tidy as) F t"
    and Q: "\<And>acts s'. kept s s' \<Longrightarrow> tidy acts \<Longrightarrow> Q () acts s'"
  shows "twp (for_blocks body) env Q F s"
proof (rule twp_for_blocks [where I = "\<lambda>i acts s'. kept s s' \<and> tidy acts", OF _ m])
  fix i acts t
  assume i: "i < unat m" "kept s t \<and> tidy acts" "rx_hdr HDR_DATA_BLOCKS t = m"
  then have "twp (body i) env (\<lambda>_ as u. block u = block t \<and> kept t u \<and> tidy as) F t"
    by (intro body) (auto simp: kept_def)
  then show "twp (body i) env (\<lambda>_ as u. block u = block t \<and> rx_hdr HDR_DATA_BLOCKS u = m \<and>
      kept s (u\<lparr>block := block u + 1\<rparr>) \<and> tidy (acts @ as)) F t"
    by (rule twp_mono) (use i kept_rx_hdr [of t _ HDR_DATA_BLOCKS] in \<open>auto intro: kept_trans\<close>)
qed (use s Q in \<open>auto simp: kept_refl\<close>)

lemma tidy_simps [simp]:
  "tidy [Out a v] \<longleftrightarrow> a \<in> plain_regs"
  "tidy [In a v] \<longleftrightarrow> a \<in> plain_regs"
  "tidy [Pause n]" "tidy [Nop n]" "tidy [I2cSetup p]"
  "tidy (Out a v # as) \<longleftrightarrow> a \<in> plain_regs \<and> tidy as"
  "tidy (In a v # as) \<longleftrightarrow> a \<in> plain_regs \<and> tidy as"
  "tidy (Pause n # as) \<longleftrightarrow> tidy as"
  "tidy (Nop n # as) \<longleftrightarrow> tidy as"
  "tidy (I2cSetup p # as) \<longleftrightarrow> tidy as"
  by (auto simp: tidy_def)

lemma tidy_adf [simp]: "tidy adf_three_state_acts"
  unfolding adf_three_state_acts_def by (rule tidy_map_spi) simp

lemma tidy_Spi_Cons: "base \<in> spi_bases \<Longrightarrow> tidy as \<Longrightarrow> tidy (Spi base slave w r 0 # as)"
  using tidy_append [of "[Spi base slave w r 0]" as] by simp

lemma answered_get_info: "fw_ok s \<Longrightarrow> twp cmd_get_info env (\<lambda>_. answered s) F s"
  unfolding cmd_get_info_def
  by (intro twp_intros twp_status [of s]) (auto simp: kept_refl answered_def)

lemma answered_lms_rst: "fw_ok s \<Longrightarrow> twp cmd_lms_rst env (\<lambda>_. answered s) F s"
  unfolding cmd_lms_rst_def
  by (intro twp_intros twp_status [of s]) (auto simp: kept_refl answered_def)

lemma answered_adf4002_wr:
  assumes "F Hang \<or> board_ok env" and "fw_ok s"
  shows "twp cmd_adf4002_wr env (\<lambda>_. answered s) F s"
  unfolding cmd_adf4002_wr_def
proof (rule twp_block_command [OF assms(2)])
  assume "unat (rx_hdr HDR_DATA_BLOCKS s) \<le> 56 div unat (3 :: u8)"
  then show "twp (seqs [Control_TCXO_DAC 0 [],
        for_blocks (\<lambda>blk. bnd (rx_slice (0 + blk * 3) 3) (\<lambda>w. Control_TCXO_ADF 1 w)),
        status_by_errors STATUS_INVALID_PERIPH_ID_CMD]) env (\<lambda>_. answered s) F s"
    using assms
    by (intro twp_intros twp_tidy_blocks [OF _ refl] twp_status_by_errors [of s])
      (auto simp: kept_refl answered_def HDR_SIZE_def fw_ok_lengths intro: kept_trans tidy_Spi_Cons)
qed (auto simp: answered_def)

text \<open>
  \<open>CMD_ANALOG_VAL_RD\<close> does not check the block count: its contract needs a count that fits, or
  allows an access out of bounds.
\<close>

lemma answered_analog_val_rd:
  assumes "F Hang \<or> board_ok env" and "fw_ok s"
    and "F OutOfBounds \<or> unat (rx_hdr HDR_DATA_BLOCKS s) \<le> 14"
  shows "twp cmd_analog_val_rd env (\<lambda>_. answered s) F s"
  unfolding cmd_analog_val_rd_def
proof (intro twp_seqs_Cons twp_tidy_blocks [OF assms(2) refl])
  fix i t
  assume i: "i < unat (rx_hdr HDR_DATA_BLOCKS s)" and t: "fw_ok t"
  show "twp (analog_rd_block i) env (\<lambda>_ as u. block u = block t \<and> kept t u \<and> tidy as) F t"
    unfolding analog_rd_block_def
    by (intro twp_intros) (use assms i t in \<open>auto simp: kept_refl tidy_def i2c_whole_def\<close>)
qed (auto intro!: twp_status [of s] twp_ret simp: answered_def)

lemma answered_analog_val_wr:
  assumes "F Hang \<or> board_ok env" and "fw_ok s"
  shows "twp cmd_analog_val_wr env (\<lambda>_. answered s) F s"
  unfolding cmd_analog_val_wr_def
proof (rule twp_block_command [OF assms(2)])
  assume n: "unat (rx_hdr HDR_DATA_BLOCKS s) \<le> 56 div unat (4 :: u8)"
  show "twp (seqs [for_blocks analog_wr_block, status_by_errors STATUS_ERROR_CMD]) env (\<lambda>_. answered s) F s"
  proof (intro twp_seqs_Cons twp_tidy_blocks [OF assms(2) refl])
    fix i t
    assume i: "i < unat (rx_hdr HDR_DATA_BLOCKS s)" and t: "fw_ok t"
    show "twp (analog_wr_block i) env (\<lambda>_ as u. block u = block t \<and> kept t u \<and> tidy as) F t"
      unfolding analog_wr_block_def
      by (intro twp_intros) (use assms i t n in \<open>auto simp: kept_refl intro!: tidy_append\<close>)
  qed (auto intro!: twp_status_by_errors [of s] twp_ret simp: answered_def)
qed (auto simp: answered_def)

lemma answered_si5351_wr:
  assumes "F Hang \<or> board_ok env" and "fw_ok s"
  shows "twp cmd_si5351_wr env (\<lambda>_. answered s) F s"
  unfolding cmd_si5351_wr_def
proof (rule twp_block_command [OF assms(2)])
  assume n: "unat (rx_hdr HDR_DATA_BLOCKS s) \<le> 56 div unat (2 :: u8)"
  show "twp (seqs [for_blocks si5351_wr_block, status_by_errors STATUS_ERROR_CMD]) env (\<lambda>_. answered s) F s"
  proof (intro twp_seqs_Cons twp_tidy_blocks [OF assms(2) refl])
    fix i t
    assume i: "i < unat (rx_hdr HDR_DATA_BLOCKS s)" and t: "fw_ok t"
    show "twp (si5351_wr_block i) env (\<lambda>_ as u. block u = block t \<and> kept t u \<and> tidy as) F t"
      unfolding si5351_wr_block_def
      by (intro twp_intros) (use assms i t n in \<open>auto simp: kept_refl tidy_def i2c_whole_def\<close>)
  qed (auto intro!: twp_status_by_errors [of s] twp_ret simp: answered_def)
qed (auto simp: answered_def)

lemma answered_si5351_rd:
  assumes "F Hang \<or> board_ok env" and "fw_ok s"
  shows "twp cmd_si5351_rd env (\<lambda>_. answered s) F s"
  unfolding cmd_si5351_rd_def
proof (rule twp_block_command [OF assms(2)])
  assume n: "unat (rx_hdr HDR_DATA_BLOCKS s) \<le> 56 div unat (2 :: u8)"
  show "twp (seqs [for_blocks si5351_rd_block, status_by_errors STATUS_ERROR_CMD]) env (\<lambda>_. answered s) F s"
  proof (intro twp_seqs_Cons twp_tidy_blocks [OF assms(2) refl])
    fix i t
    assume i: "i < unat (rx_hdr HDR_DATA_BLOCKS s)" and t: "fw_ok t"
    show "twp (si5351_rd_block i) env (\<lambda>_ as u. block u = block t \<and> kept t u \<and> tidy as) F t"
      unfolding si5351_rd_block_def
      by (intro twp_intros) (use assms i t n in \<open>auto simp: kept_refl tidy_def i2c_whole_def\<close>)
  qed (auto intro!: twp_status_by_errors [of s] twp_ret simp: answered_def)
qed (auto simp: answered_def)

lemma twp_sc_exchange [twp_intros]:
  assumes "F Hang \<or> spi_core_ok env SPI_LMS_BASE" and "2 \<le> length (sc_brdg_data s)"
    and "\<And>d h. length d = 2 \<Longrightarrow> Q () [Spi SPI_LMS_BASE slave (take 2 (sc_brdg_data s)) d 0]
       (s\<lparr>hist := h, sc_brdg_data := splice i d (sc_brdg_data s)\<rparr>)"
  shows "twp (sc_exchange slave i) env Q F s"
  unfolding sc_exchange_def
  by (intro twp_intros assms(1)) (use assms(2,3) in \<open>auto simp: spi_masks\<close>)

lemma answered_gpio:
  assumes "F Hang \<or> board_ok env" and "fw_ok s"
  shows "twp cmd_gpio_dir_wr env (\<lambda>_. answered s) F s"
    and "twp cmd_gpio_wr env (\<lambda>_. answered s) F s"
    and "twp cmd_gpio_dir_rd env (\<lambda>_. answered s) F s"
    and "twp cmd_gpio_rd env (\<lambda>_. answered s) F s"
  unfolding cmd_gpio_dir_wr_def cmd_gpio_wr_def cmd_gpio_dir_rd_def cmd_gpio_rd_def
  by (intro twp_intros twp_status [of s];
      use assms in \<open>auto simp: kept_refl answered_def fw_ok_lengths spi_masks\<close>)+

section \<open>EEPROM access\<close>

definition rx_portion :: "fw \<Rightarrow> u32" where
  "rx_portion s = push_bit 24 (ucast (glEp0Buffer_Rx s ! (HDR_SIZE + 1))) OR
     push_bit 16 (ucast (glEp0Buffer_Rx s ! (HDR_SIZE + 2))) OR
     push_bit 8 (ucast (glEp0Buffer_Rx s ! (HDR_SIZE + 3))) OR ucast (glEp0Buffer_Rx s ! (HDR_SIZE + 4))"

definition rx_count :: "fw \<Rightarrow> u8" where
  "rx_count s = glEp0Buffer_Rx s ! (HDR_SIZE + 5)"

lemma twp_read_portion:
  "Q () [] (s\<lparr>current_portion := rx_portion s, data_cnt := rx_count s\<rparr>) \<Longrightarrow> twp read_portion env Q F s"
  unfolding read_portion_def by (intro twp_intros) (auto simp: rx_portion_def rx_count_def)

text \<open>In the middle of an I2C transaction, everything else released.\<close>

definition i2c_mid :: "act list \<Rightarrow> bool" where
  "i2c_mid acts \<longleftrightarrow> list_all board_act acts \<and> i2c_track False (i2c_part acts) = Some True \<and>
     (\<forall>base. \<not> cs_held base False acts)"

lemma i2c_mid_append:
  "i2c_mid as \<Longrightarrow> list_all board_act bs \<Longrightarrow> i2c_track True (i2c_part bs) = Some True \<Longrightarrow>
   (\<forall>base. \<not> cs_held base False bs) \<Longrightarrow> i2c_mid (as @ bs)"
  by (simp add: i2c_mid_def i2c_track_append cs_held_append)

lemma i2c_mid_end:
  "i2c_mid as \<Longrightarrow> list_all board_act bs \<Longrightarrow> i2c_track True (i2c_part bs) = Some False \<Longrightarrow>
   (\<forall>base. \<not> cs_held base False bs) \<Longrightarrow> tidy (as @ bs)"
  by (simp add: i2c_mid_def tidy_def i2c_whole_def i2c_track_append cs_held_append)

lemma twp_mid_each:
  assumes "fw_ok s"
    and "\<And>x t. x \<in> set xs \<Longrightarrow> fw_ok t \<Longrightarrow> twp (body x) env (\<lambda>_ as u. kept t u \<and>
       list_all board_act as \<and> i2c_track True (i2c_part as) = Some True \<and> (\<forall>base. \<not> cs_held base False as)) F t"
    and "\<And>as u. kept s u \<Longrightarrow> list_all board_act as \<Longrightarrow> i2c_track True (i2c_part as) = Some True \<Longrightarrow>
       \<forall>base. \<not> cs_held base False as \<Longrightarrow> Q () as u"
  shows "twp (each xs body) env Q F s"
proof (rule twp_each [where I = "\<lambda>_ as u. kept s u \<and> list_all board_act as \<and>
     i2c_track True (i2c_part as) = Some True \<and> (\<forall>base. \<not> cs_held base False as)"])
  fix ys x zs acts t
  assume "xs = ys @ x # zs" and I: "kept s t \<and> list_all board_act acts \<and>
     i2c_track True (i2c_part acts) = Some True \<and> (\<forall>base. \<not> cs_held base False acts)"
  then have "twp (body x) env (\<lambda>_ as u. kept t u \<and>
       list_all board_act as \<and> i2c_track True (i2c_part as) = Some True \<and> (\<forall>base. \<not> cs_held base False as)) F t"
    by (intro assms(2)) (auto simp: kept_def)
  then show "twp (body x) env (\<lambda>_ as u. kept s u \<and> list_all board_act (acts @ as) \<and>
     i2c_track True (i2c_part (acts @ as)) = Some True \<and> (\<forall>base. \<not> cs_held base False (acts @ as))) F t"
    by (rule twp_mono) (use I in \<open>auto simp: i2c_track_append cs_held_append intro: kept_trans\<close>)
qed (use assms in \<open>auto simp: kept_refl\<close>)

text \<open>
  The two EEPROM handlers do not check the byte count either: 32 bytes fit behind offset 24.
\<close>

lemma answered_memory_wr:
  assumes "F Hang \<or> board_ok env" and "fw_ok s"
    and "F OutOfBounds \<or> unat (rx_count s) \<le> 32"
  shows "twp cmd_memory_wr env (\<lambda>_. answered s) F s"
  unfolding cmd_memory_wr_def assign_errors_def
  apply (intro twp_intros twp_read_portion twp_mid_each twp_status [of s] twp_status_by_errors [of s])
  using assms apply (auto simp: kept_refl answered_def tidy_def i2c_whole_def i2c_track_append cs_held_append intro: kept_trans)
  done

lemma answered_memory_rd:
  assumes "F Hang \<or> board_ok env" and "fw_ok s"
    and "F OutOfBounds \<or> unat (rx_count s) \<le> 32"
  shows "twp cmd_memory_rd env (\<lambda>_. answered s) F s"
  unfolding cmd_memory_rd_def assign_errors_def
  apply (intro twp_intros twp_read_portion twp_mid_each twp_status [of s] twp_status_by_errors [of s])
  using assms apply (auto simp: kept_refl answered_def tidy_def i2c_whole_def i2c_track_append cs_held_append intro: kept_trans)
  done

end
