(* ===== verification/Gateware.thy ===== *)
theory Gateware
  imports Handler_Contracts
begin

text \<open>
  \<open>CMD_ALTERA_FPGA_GW_WR\<close>: the bitstream arrives in packets, is gathered in \<open>flash_page_data\<close> and
  programmed into the configuration flash a page at a time. The handler is split where the C code
  has its steps: start of a bitstream, fill the page, flush a full page, keep the bytes that did
  not fit, account for the size.
\<close>

text \<open>\<open>memcpy(&flash_page_data[dst], bs, length bs)\<close>.\<close>

definition page_store :: "int \<Rightarrow> u8 list \<Rightarrow> (fw, unit) prog" where
  "page_store dst bs =
     (if 0 \<le> dst \<and> dst + int (length bs) \<le> int FLASH_PAGE_SIZE
      then modify (\<lambda>s. s\<lparr>flash_page_data := splice (nat dst) bs (flash_page_data s)\<rparr>)
      else fail OutOfBounds)"

definition gw_begin :: "(fw, unit) prog" where
  "gw_begin = modify (\<lambda>s.
     if current_portion s = 0
     then s\<lparr>flash_page := 0, flash_page_data_cnt := 0, flash_data_counter_to_copy := 0, fpga_byte := 0\<rparr>
     else s)"

definition gw_fill_page :: "(fw, unit) prog" where
  "gw_fill_page =
     bnd (modify (\<lambda>s. s\<lparr>flash_data_cnt_free := int FLASH_PAGE_SIZE - flash_page_data_cnt s\<rparr>)) (\<lambda>_.
     bnd (gets flash_data_cnt_free) (\<lambda>free.
     if free > 0 then
       bnd (modify (\<lambda>s. s\<lparr>flash_data_counter_to_copy :=
              if flash_data_cnt_free s > int (unat (data_cnt s)) then int (unat (data_cnt s))
              else flash_data_cnt_free s\<rparr>)) (\<lambda>_.
       bnd (gets flash_data_counter_to_copy) (\<lambda>n.
       bnd (rx_slice 24 (nat n)) (\<lambda>bs.
       bnd (gets flash_page_data_cnt) (\<lambda>dst.
       bnd (page_store dst bs) (\<lambda>_.
       bnd (modify (\<lambda>s. s\<lparr>flash_page_data_cnt := flash_page_data_cnt s + flash_data_counter_to_copy s\<rparr>)) (\<lambda>_.
       bnd (modify (\<lambda>s. if data_cnt s = 0 \<and> flash_page_data_cnt s > 0
              then s\<lparr>flash_page_data_cnt := int FLASH_PAGE_SIZE\<rparr> else s)) (\<lambda>_.
       modify (\<lambda>s. s\<lparr>flash_data_cnt_free := int FLASH_PAGE_SIZE - flash_page_data_cnt s\<rparr>))))))))
     else ret ()))"

text \<open>
  A full page is written, after the erase of its sector when it is the sector's first page: \<open>%\<close> and
  \<open>/\<close> on the signed \<open>flash_page\<close> truncate. The
  result is the local variable \<open>status\<close>, the 8-bit sum of what the two flash calls return.
\<close>

definition gw_flush_page :: "(fw, u8) prog" where
  "gw_flush_page =
     bnd (gets flash_page_data_cnt) (\<lambda>cnt.
     if cnt \<ge> int FLASH_PAGE_SIZE then
       bnd (gets flash_page) (\<lambda>page.
       bnd (if sint page smod int (FLASH_SECTOR_SIZE div FLASH_PAGE_SIZE) = 0
            then FlashSpiEraseSector SPI_FPGA_AS_BASE SPI_NR_FLASH 1
                   (word_of_int (int FLASH_LAYOUT_FPGA_BITSTREAM +
                      sint page sdiv int (FLASH_SECTOR_SIZE div FLASH_PAGE_SIZE)))
            else ret 0) (\<lambda>status.
       bnd (gets flash_page_data) (\<lambda>buf.
       bnd (FlashSpiTransfer SPI_FPGA_AS_BASE SPI_NR_FLASH
              (of_nat (FLASH_LAYOUT_FPGA_BITSTREAM * FLASH_SECTOR_SIZE div FLASH_PAGE_SIZE) + page)
              (of_nat FLASH_PAGE_SIZE) buf False) (\<lambda>r.
       let status' = status + fst r in
       if status' \<noteq> 0 then ret status'
       else
         bnd (modify (\<lambda>s. s\<lparr>flash_page := flash_page s + 1, flash_page_data_cnt := 0,
                           flash_data_cnt_free := int FLASH_PAGE_SIZE\<rparr>)) (\<lambda>_.
         ret 0)))))
     else ret 0)"

definition gw_spill :: "(fw, unit) prog" where
  "gw_spill =
     bnd (gets data_cnt) (\<lambda>n.
     bnd (gets flash_data_counter_to_copy) (\<lambda>copied.
     if int (unat n) > copied then
       bnd (modify (\<lambda>s. s\<lparr>flash_data_counter_to_copy := int (unat (data_cnt s)) - flash_data_counter_to_copy s\<rparr>)) (\<lambda>_.
       bnd (rx_slice 24 (unat n)) (\<lambda>bs.
       bnd (gets flash_page_data_cnt) (\<lambda>dst.
       bnd (page_store dst bs) (\<lambda>_.
       modify (\<lambda>s. s\<lparr>flash_page_data_cnt := flash_page_data_cnt s + flash_data_counter_to_copy s,
                     flash_data_cnt_free := int FLASH_PAGE_SIZE -
                       (flash_page_data_cnt s + flash_data_counter_to_copy s)\<rparr>)))))
     else ret ()))"

text \<open>
  \<open>Board_Config_FPGA\<close> is laid over the first bytes of \<open>flash_page_data\<close>: the bitstream size, four
  bytes little endian, and the autoload flag.
\<close>

definition le32 :: "u32 \<Rightarrow> u8 list" where
  "le32 v = [ucast v, ucast (drop_bit 8 v), ucast (drop_bit 16 v), ucast (drop_bit 24 v)]"

definition gw_finish :: "(fw, unit) prog" where
  "gw_finish =
     bnd (modify (\<lambda>s. s\<lparr>fpga_byte := fpga_byte s + ucast (data_cnt s)\<rparr>)) (\<lambda>_.
     bnd (gets fpga_byte) (\<lambda>total.
     if total \<le> FPGA_SIZE then
       bnd (gets data_cnt) (\<lambda>n. seqs
         [if n = 0 then page_store 0 (le32 total @ [1]) else ret (),
          set_status STATUS_COMPLETED_CMD])
     else set_status STATUS_ERROR_CMD))"

definition gw_program :: "(fw, unit) prog" where
  "gw_program =
     bnd gw_begin (\<lambda>_. bnd gw_fill_page (\<lambda>_. bnd gw_flush_page (\<lambda>status.
     if status \<noteq> 0 then set_status STATUS_ERROR_CMD
     else bnd gw_spill (\<lambda>_. gw_finish))))"

definition cmd_altera_fpga_gw_wr :: "(fw, unit) prog" where
  "cmd_altera_fpga_gw_wr =
     bnd read_portion (\<lambda>_.
     bnd (rx_data 0) (\<lambda>prog_mode.
     if prog_mode = 0 then set_status STATUS_ERROR_CMD
     else if prog_mode = 1 then gw_program
     else if prog_mode = 2 then set_status STATUS_ERROR_CMD
     else set_status STATUS_COMPLETED_CMD))"

section \<open>The contract\<close>

lemma twp_page_store [twp_intros]:
  "(0 \<le> dst \<and> dst + int (length bs) \<le> int FLASH_PAGE_SIZE \<Longrightarrow>
      Q () [] (s\<lparr>flash_page_data := splice (nat dst) bs (flash_page_data s)\<rparr>)) \<Longrightarrow>
   (\<not> (0 \<le> dst \<and> dst + int (length bs) \<le> int FLASH_PAGE_SIZE) \<Longrightarrow> F OutOfBounds) \<Longrightarrow>
   twp (page_store dst bs) env Q F s"
  by (rule twp_silent) (auto simp: page_store_def wp_simps)

text \<open>The number of bytes that go to the current page, and the fill of the page afterwards.\<close>

definition fill_count :: "fw \<Rightarrow> int" where
  "fill_count s = min (int FLASH_PAGE_SIZE - flash_page_data_cnt s) (int (unat (data_cnt s)))"

definition filled :: "fw \<Rightarrow> fw" where
  "filled s =
     (if flash_page_data_cnt s < int FLASH_PAGE_SIZE then
        let n = fill_count s;
            c = (if data_cnt s = 0 \<and> flash_page_data_cnt s > 0 then int FLASH_PAGE_SIZE
                 else flash_page_data_cnt s + n)
        in s\<lparr>flash_data_counter_to_copy := n,
             flash_page_data := splice (nat (flash_page_data_cnt s))
               (take (nat n) (drop (HDR_SIZE + 24) (glEp0Buffer_Rx s))) (flash_page_data s),
             flash_page_data_cnt := c, flash_data_cnt_free := int FLASH_PAGE_SIZE - c\<rparr>
      else s\<lparr>flash_data_cnt_free := int FLASH_PAGE_SIZE - flash_page_data_cnt s\<rparr>)"

lemma wp_gw_fill_page:
  assumes s: "fw_ok s" and n: "fill_count s \<le> 32 \<Longrightarrow> Q () (filled s)"
    and oob: "fill_count s > 32 \<Longrightarrow> F OutOfBounds"
  shows "wp gw_fill_page env Q F s"
proof (cases "flash_page_data_cnt s < int FLASH_PAGE_SIZE")
  case True
  let ?n = "fill_count s"
  have n0: "0 \<le> ?n" "?n \<le> int FLASH_PAGE_SIZE - flash_page_data_cnt s"
    using s True by (auto simp: fill_count_def fw_ok_def)
  have c: "(if uint (data_cnt s) < int FLASH_PAGE_SIZE - flash_page_data_cnt s
      then uint (data_cnt s) else int FLASH_PAGE_SIZE - flash_page_data_cnt s) = ?n"
    by (simp add: fill_count_def)
  show ?thesis
  proof (cases "?n \<le> 32")
    case le: True
    have len: "length (take (nat ?n) (drop (HDR_SIZE + 24) (glEp0Buffer_Rx s))) = nat ?n"
      using s le n0 by (simp add: fw_ok_lengths HDR_SIZE_def)
    have "data_cnt s = 0 \<Longrightarrow> ?n = 0" using n0 by (simp add: fill_count_def)
    with n [OF le] show ?thesis
      unfolding gw_fill_page_def filled_def using True n0 le s len
      by (auto simp: wp_simps page_store_def c Let_def fw_ok_def cong: if_cong)
  next
    case False
    then have "\<not> nat (fill_count s) \<le> 32" by simp
    with oob True False show ?thesis
      unfolding gw_fill_page_def by (simp add: wp_simps c cong: if_cong)
  qed
next
  case False
  then have "fill_count s \<le> 32" by (simp add: fill_count_def)
  with n False show ?thesis
    unfolding gw_fill_page_def filled_def by (simp add: wp_simps)
qed

text \<open>The actions and the result of flushing a full page.\<close>

definition flushed_to :: "int \<Rightarrow> u8 list \<Rightarrow> u8 \<Rightarrow> act list \<Rightarrow> bool" where
  "flushed_to page buf r acts \<longleftrightarrow>
     (\<exists>r1 r2 es ps.
        (if page mod 256 = 0
         then sector_erased SPI_FPGA_AS_BASE SPI_NR_FLASH (word_of_int (page div 256)) r1 es
         else r1 = 0 \<and> es = []) \<and>
        page_programmed SPI_FPGA_AS_BASE SPI_NR_FLASH (word_of_int page * 0x100) buf r2 ps \<and>
        acts = es @ ps \<and> r = r1 + r2)"

definition page_flushed :: "fw \<Rightarrow> u8 \<Rightarrow> act list \<Rightarrow> bool" where
  "page_flushed s r acts \<longleftrightarrow> flushed_to (sint (flash_page s)) (flash_page_data s) r acts"

text \<open>At a multiple of the sector's pages, truncating and flooring division agree.\<close>

lemma smod_zero_iff: "(k :: int) smod 256 = 0 \<longleftrightarrow> k mod 256 = 0"
  by (auto simp: signed_modulo_int_eq_modulo_int dvd_eq_mod_eq_0)

lemma sdiv_exact: "(k :: int) mod 256 = 0 \<Longrightarrow> k sdiv 256 = k div 256"
  by (auto simp: signed_divide_int_eq_divide_int dvd_eq_mod_eq_0)

lemma tidy_page_flushed: "page_flushed s r acts \<Longrightarrow> tidy acts"
  unfolding page_flushed_def flushed_to_def
  by (auto split: if_splits intro!: tidy_append
      intro: tidy_sector_erased [OF spi_bases_mem(4)] tidy_page_programmed [OF spi_bases_mem(4)])

lemma twp_gw_flush_page:
  assumes ok: "F Hang \<or> spi_core_ok env SPI_FPGA_AS_BASE" and s: "fw_ok s"
    and part: "flash_page_data_cnt s < int FLASH_PAGE_SIZE \<Longrightarrow> Q 0 [] s"
    and flushed: "\<And>acts h. flash_page_data_cnt s = int FLASH_PAGE_SIZE \<Longrightarrow> page_flushed s 0 acts \<Longrightarrow>
       Q 0 acts (s\<lparr>spiFastRead := 1, hist := h, flash_page := flash_page s + 1, flash_page_data_cnt := 0,
                   flash_data_cnt_free := int FLASH_PAGE_SIZE\<rparr>)"
    and failed: "\<And>r acts h. flash_page_data_cnt s = int FLASH_PAGE_SIZE \<Longrightarrow> page_flushed s r acts \<Longrightarrow> r \<noteq> 0 \<Longrightarrow>
       Q r acts (s\<lparr>spiFastRead := 1, hist := h\<rparr>)"
  shows "twp gw_flush_page env Q F s"
proof (cases "flash_page_data_cnt s < int FLASH_PAGE_SIZE")
  case True
  then show ?thesis unfolding gw_flush_page_def by (intro twp_intros) (auto intro: part)
next
  case False
  with s have full: "flash_page_data_cnt s = int FLASH_PAGE_SIZE" by (simp add: fw_ok_def)
  let ?B = "SPI_FPGA_AS_BASE" let ?S = "SPI_NR_FLASH"
  have prog: "twp (FlashSpiTransfer ?B ?S (flash_page s) (of_nat FLASH_PAGE_SIZE) (flash_page_data s) False) env
     (\<lambda>r as. twp (if r1 + fst r \<noteq> 0 then ret (r1 + fst r)
         else bnd (modify (\<lambda>s. s\<lparr>flash_page := flash_page s + 1, flash_page_data_cnt := 0,
                           flash_data_cnt_free := int FLASH_PAGE_SIZE\<rparr>)) (\<lambda>_. ret 0)) env
       (\<lambda>b bs. Q b (es @ as @ bs)) F) F (s\<lparr>hist := h\<rparr>)"
    if e: "if sint (flash_page s) mod 256 = 0 then sector_erased ?B ?S (word_of_int (sint (flash_page s) div 256)) r1 es
           else r1 = 0 \<and> es = []" for r1 es h
  proof (rule twp_program_page [where F = F, OF ok])
    fix r2 ps h'
    assume p: "page_programmed ?B ?S (flash_page s * 0x100) (flash_page_data s) r2 ps"
    then have p': "page_programmed ?B ?S (word_of_int (sint (flash_page s)) * 0x100) (flash_page_data s) r2 ps"
      by simp
    from e p' have fl: "page_flushed s (r1 + r2) (es @ ps)"
      unfolding page_flushed_def flushed_to_def by blast
    let ?t = "s\<lparr>hist := h\<rparr>\<lparr>spiFastRead := 1, hist := h'\<rparr>"
    show "twp (if r1 + fst (r2, flash_page_data s) \<noteq> 0 then ret (r1 + fst (r2, flash_page_data s))
         else bnd (modify (\<lambda>s. s\<lparr>flash_page := flash_page s + 1, flash_page_data_cnt := 0,
                           flash_data_cnt_free := int FLASH_PAGE_SIZE\<rparr>)) (\<lambda>_. ret 0)) env
       (\<lambda>b bs. Q b (es @ ps @ bs)) F ?t"
      by (intro twp_intros) (use fl full failed [OF full fl] flushed [OF full, of "es @ ps"] in auto)
  qed (use s in \<open>auto simp: fw_ok_lengths\<close>)
  show ?thesis
    unfolding gw_flush_page_def
    apply (intro twp_bnd twp_gets twp_if twp_FlashSpiEraseSector [where F = F, OF ok] twp_ret twp_let)
    using full prog prog [of 0 "[]" "hist s"] apply (auto simp: flash_sizes smod_zero_iff sdiv_exact Let_def cong: if_cong)
    done
qed

text \<open>
  The rest of the packet goes to the start of the next page: as many bytes are counted as are left
  over, but the whole payload is copied again.
\<close>

definition spilled :: "fw \<Rightarrow> fw" where
  "spilled s =
     (let rest = int (unat (data_cnt s)) - flash_data_counter_to_copy s in
      if rest > 0 then
        s\<lparr>flash_data_counter_to_copy := rest,
          flash_page_data := splice (nat (flash_page_data_cnt s))
            (take (unat (data_cnt s)) (drop (HDR_SIZE + 24) (glEp0Buffer_Rx s))) (flash_page_data s),
          flash_page_data_cnt := flash_page_data_cnt s + rest,
          flash_data_cnt_free := int FLASH_PAGE_SIZE - (flash_page_data_cnt s + rest)\<rparr>
      else s)"

lemma wp_gw_spill:
  assumes "length (glEp0Buffer_Rx s) = 64" and "unat (data_cnt s) \<le> 32 \<or> F OutOfBounds"
    and "int (unat (data_cnt s)) > flash_data_counter_to_copy s \<Longrightarrow> flash_page_data_cnt s = 0"
    and "int (unat (data_cnt s)) > flash_data_counter_to_copy s \<longrightarrow> unat (data_cnt s) \<le> 32 \<Longrightarrow> Q () (spilled s)"
  shows "wp gw_spill env Q F s"
proof (cases "int (unat (data_cnt s)) > flash_data_counter_to_copy s \<longrightarrow> unat (data_cnt s) \<le> 32")
  case True
  have "uint (data_cnt s) \<le> 32" if "unat (data_cnt s) \<le> 32"
  proof -
    have "int (unat (data_cnt s)) \<le> 32" using that by linarith
    then show ?thesis by simp
  qed
  with assms True show ?thesis
    by (auto simp: gw_spill_def spilled_def wp_simps page_store_def Let_def HDR_SIZE_def flash_sizes)
next
  case False
  with assms(2) show ?thesis by (auto simp: gw_spill_def wp_simps)
qed

text \<open>The end of the handler: the size so far, and the configuration record after the last packet.\<close>

definition finished :: "fw \<Rightarrow> fw" where
  "finished s =
     (let total = fpga_byte s + ucast (data_cnt s); ok = total \<le> FPGA_SIZE;
          t = s\<lparr>fpga_byte := total\<rparr>;
          u = (if ok \<and> data_cnt s = 0
               then t\<lparr>flash_page_data := splice 0 (le32 total @ [1]) (flash_page_data s)\<rparr> else t)
      in u\<lparr>glEp0Buffer_Tx := (glEp0Buffer_Tx s)[HDR_STATUS :=
             if ok then STATUS_COMPLETED_CMD else STATUS_ERROR_CMD]\<rparr>)"

lemma wp_gw_finish: "Q () (finished s) \<Longrightarrow> wp gw_finish env Q F s"
  by (auto simp: gw_finish_def finished_def wp_simps page_store_def le32_def flash_sizes Let_def)

section \<open>The whole handler\<close>

definition begun :: "fw \<Rightarrow> fw" where
  "begun s = (if current_portion s = 0
     then s\<lparr>flash_page := 0, flash_page_data_cnt := 0, flash_data_counter_to_copy := 0, fpga_byte := 0\<rparr>
     else s)"

definition next_page :: "history \<Rightarrow> fw \<Rightarrow> fw" where
  "next_page h s = s\<lparr>spiFastRead := 1, hist := h, flash_page := flash_page s + 1, flash_page_data_cnt := 0,
                     flash_data_cnt_free := int FLASH_PAGE_SIZE\<rparr>"

lemma kept_begun: "kept s t \<Longrightarrow> kept s (begun t)"
  by (auto simp: kept_def fw_ok_def begun_def tx_hdr_def)

lemma fill_range:
  assumes "fw_ok s"
  shows "0 \<le> fill_count s" "flash_page_data_cnt s + fill_count s \<le> int FLASH_PAGE_SIZE"
    and "fill_count s \<le> 255"
proof -
  have "int (unat (data_cnt s)) \<le> 255" using unat_u8_less [of "data_cnt s"] by linarith
  then have "uint (data_cnt s) \<le> 255" by simp
  with assms show "0 \<le> fill_count s" "flash_page_data_cnt s + fill_count s \<le> int FLASH_PAGE_SIZE"
    "fill_count s \<le> 255"
    by (auto simp: fill_count_def fw_ok_def)
qed

lemma kept_filled: "kept s t \<Longrightarrow> kept s (filled t)"
  using fill_range [OF kept_ok, of s t]
  by (auto simp: kept_def fw_ok_def filled_def tx_hdr_def Let_def)

lemma kept_next_page: "kept s t \<Longrightarrow> kept s (next_page h t)"
  by (auto simp: kept_def fw_ok_def next_page_def tx_hdr_def)

lemma kept_spilled:
  assumes "int (unat (data_cnt t)) > flash_data_counter_to_copy t \<Longrightarrow> flash_page_data_cnt t = 0"
    and "kept s t"
  shows "kept s (spilled t)"
proof -
  have "int (unat (data_cnt t)) \<le> 255" using unat_u8_less [of "data_cnt t"] by linarith
  then have "uint (data_cnt t) \<le> 255" by simp
  with assms show ?thesis
    by (auto simp: kept_def fw_ok_def spilled_def tx_hdr_def Let_def flash_sizes)
qed

lemma kept_finished: "kept s t \<Longrightarrow> kept s (finished t)"
  by (auto simp: finished_def Let_def)

lemma finished_status: "kept s t \<Longrightarrow> tx_hdr HDR_STATUS (finished t) =
    (if fpga_byte t + ucast (data_cnt t) \<le> FPGA_SIZE then STATUS_COMPLETED_CMD else STATUS_ERROR_CMD)"
  using kept_status(2) [of s t] by (auto simp: finished_def Let_def tx_hdr_def kept_def fw_ok_def)

text \<open>When the first copy leaves the page short of full, everything has been copied.\<close>

lemma filled_rest:
  assumes "flash_page_data_cnt (filled s) < int FLASH_PAGE_SIZE"
  shows "flash_data_counter_to_copy (filled s) = int (unat (data_cnt s))" "data_cnt (filled s) = data_cnt s"
  using assms by (auto simp: filled_def fill_count_def Let_def min_def split: if_splits)

lemma hist_steps [simp]:
  "hist (begun s) = hist s" "hist (filled s) = hist s" "hist (spilled s) = hist s" "hist (finished s) = hist s"
  by (simp_all add: begun_def filled_def spilled_def finished_def Let_def)

lemma rx_steps [simp]:
  "glEp0Buffer_Rx (begun s) = glEp0Buffer_Rx s" "glEp0Buffer_Rx (filled s) = glEp0Buffer_Rx s"
  "data_cnt (begun s) = data_cnt s" "data_cnt (filled s) = data_cnt s"
  by (simp_all add: begun_def filled_def Let_def)

text \<open>
  The three outcomes of a packet: the page is not full yet; it was flushed; flushing it failed.
\<close>

lemma twp_gw_program:
  assumes ok: "F Hang \<or> spi_core_ok env SPI_FPGA_AS_BASE" and s: "fw_ok s"
    and n: "unat (data_cnt s) \<le> 32 \<or> F OutOfBounds"
    and part: "flash_page_data_cnt (filled (begun s)) < int FLASH_PAGE_SIZE \<Longrightarrow>
       Q () [] (finished (filled (begun s)))"
    and flushed: "\<And>acts h. flash_page_data_cnt (filled (begun s)) = int FLASH_PAGE_SIZE \<Longrightarrow>
       page_flushed (filled (begun s)) 0 acts \<Longrightarrow>
       Q () acts (finished (spilled (next_page h (filled (begun s)))))"
    and failed: "\<And>r acts h. flash_page_data_cnt (filled (begun s)) = int FLASH_PAGE_SIZE \<Longrightarrow>
       page_flushed (filled (begun s)) r acts \<Longrightarrow> r \<noteq> 0 \<Longrightarrow>
       Q () acts ((filled (begun s))\<lparr>spiFastRead := 1, hist := h,
         glEp0Buffer_Tx := (glEp0Buffer_Tx (filled (begun s)))[HDR_STATUS := STATUS_ERROR_CMD]\<rparr>)"
  shows "twp gw_program env Q F s"
proof -
  let ?s0 = "begun s" let ?s1 = "filled (begun s)"
  have s0: "fw_ok ?s0" using kept_begun [OF kept_refl [OF s]] by (rule kept_ok)
  have s1: "fw_ok ?s1" using kept_filled [OF kept_refl [OF s0]] by (rule kept_ok)
  have start: "twp gw_begin env R F s" if "R () [] ?s0" for R
    unfolding gw_begin_def by (rule twp_silent) (use that in \<open>auto simp: wp_simps begun_def\<close>)
  have "fill_count ?s0 \<le> int (unat (data_cnt s))" unfolding fill_count_def by simp
  then have oob: "F OutOfBounds" if "32 < fill_count ?s0" using n that by linarith
  have fill: "twp gw_fill_page env R F ?s0" if "R () [] ?s1" for R
    by (rule twp_silent, rule wp_gw_fill_page [OF s0]) (use that oob in auto)
  have finish: "twp gw_finish env R F t" if "R () [] (finished t)" for R t
    by (rule twp_silent, rule wp_gw_finish) (use that in auto)
  have spill: "twp gw_spill env R F t" if "R () [] (spilled t)" "fw_ok t" "data_cnt t = data_cnt s"
    "int (unat (data_cnt t)) > flash_data_counter_to_copy t \<Longrightarrow> flash_page_data_cnt t = 0" for R t
    by (rule twp_silent, rule wp_gw_spill) (use that n in \<open>auto simp: fw_ok_lengths\<close>)
  have no_spill: "spilled ?s1 = ?s1" if "flash_page_data_cnt ?s1 < int FLASH_PAGE_SIZE"
    using filled_rest [OF that] by (simp add: spilled_def)
  have status: "twp (set_status STATUS_ERROR_CMD) env R F t"
    if "R () [] (t\<lparr>glEp0Buffer_Tx := (glEp0Buffer_Tx t)[HDR_STATUS := STATUS_ERROR_CMD]\<rparr>)" for R t
    using that by (rule twp_set_status)
  show ?thesis
    unfolding gw_program_def
  proof (intro twp_bnd start fill twp_gw_flush_page [where F = F, OF ok s1])
    assume c: "flash_page_data_cnt ?s1 < int FLASH_PAGE_SIZE"
    with filled_rest [OF c] s1 part show "twp (if 0 \<noteq> 0 then set_status STATUS_ERROR_CMD else bnd gw_spill (\<lambda>_. gw_finish))
        env (\<lambda>b bs. Q b ([] @ [] @ [] @ bs)) F ?s1"
      by (simp, intro twp_bnd spill finish) (auto simp: no_spill [OF c])
  next
    fix acts h
    assume c: "flash_page_data_cnt ?s1 = int FLASH_PAGE_SIZE" and fl: "page_flushed ?s1 0 acts"
    have "fw_ok (next_page h ?s1)" using kept_next_page [OF kept_refl [OF s1]] by (rule kept_ok)
    with flushed [OF c fl, of h] show "twp (if 0 \<noteq> 0 then set_status STATUS_ERROR_CMD else bnd gw_spill (\<lambda>_. gw_finish))
        env (\<lambda>b bs. Q b ([] @ [] @ acts @ bs)) F
        (?s1\<lparr>spiFastRead := 1, hist := h, flash_page := flash_page ?s1 + 1, flash_page_data_cnt := 0,
          flash_data_cnt_free := int FLASH_PAGE_SIZE\<rparr>)"
      unfolding next_page_def [symmetric]
      by (simp, intro twp_bnd spill finish) (auto simp: next_page_def)
  next
    fix r acts h
    assume c: "flash_page_data_cnt ?s1 = int FLASH_PAGE_SIZE" and fl: "page_flushed ?s1 r acts" and r: "r \<noteq> 0"
    from failed [OF c fl r, of h] r show "twp (if r \<noteq> 0 then set_status STATUS_ERROR_CMD else bnd gw_spill (\<lambda>_. gw_finish))
        env (\<lambda>b bs. Q b ([] @ [] @ acts @ bs)) F (?s1\<lparr>spiFastRead := 1, hist := h\<rparr>)"
      by (simp, intro status) simp
  qed
qed

lemma answered_finished: "kept s t \<Longrightarrow> tidy acts \<Longrightarrow> answered s acts (finished t)"
  by (simp add: answered_def kept_finished finished_status)

lemma answered_gw:
  assumes ok: "F Hang \<or> board_ok env" and s: "fw_ok s" and n: "unat (rx_count s) \<le> 32 \<or> F OutOfBounds"
  shows "twp cmd_altera_fpga_gw_wr env (\<lambda>_. answered s) F s"
proof -
  let ?t = "s\<lparr>current_portion := rx_portion s, data_cnt := rx_count s\<rparr>"
  have t: "fw_ok ?t" "kept s ?t" using s by (simp_all add: kept_refl)
  have b: "kept s (filled (begun ?t))" using t by (intro kept_filled kept_begun)
  have prog: "twp gw_program env (\<lambda>_. answered s) F ?t"
  proof (rule twp_gw_program [OF _ t(1)])
    show "F Hang \<or> spi_core_ok env SPI_FPGA_AS_BASE" using ok by auto
    show "unat (data_cnt ?t) \<le> 32 \<or> F OutOfBounds" using n by simp
    show "answered s [] (finished (filled (begun ?t)))"
      using b by (intro answered_finished) auto
    fix acts h
    show "page_flushed (filled (begun ?t)) 0 acts \<Longrightarrow>
      answered s acts (finished (spilled (next_page h (filled (begun ?t)))))"
      by (intro answered_finished kept_spilled kept_next_page [OF b] tidy_page_flushed)
        (simp_all add: next_page_def)
    fix r :: u8
    show "page_flushed (filled (begun ?t)) r acts \<Longrightarrow> answered s acts ((filled (begun ?t))\<lparr>spiFastRead := 1, hist := h,
         glEp0Buffer_Tx := (glEp0Buffer_Tx (filled (begun ?t)))[HDR_STATUS := STATUS_ERROR_CMD]\<rparr>)"
      using kept_status [of s "(filled (begun ?t))\<lparr>spiFastRead := 1, hist := h\<rparr>" STATUS_ERROR_CMD] b
        tidy_page_flushed
      by (auto simp: answered_def)
  qed
  show ?thesis
    unfolding cmd_altera_fpga_gw_wr_def
    by (intro twp_intros twp_read_portion twp_status [OF t(2)]) (use prog in \<open>auto simp: answered_def\<close>)
qed

section \<open>A bitstream in packets that never straddle a page\<close>

text \<open>
  \<open>gw_holds bs s\<close>: the handler has taken in the bytes \<open>bs\<close>; full pages have left for the flash, the
  rest is at the start of \<open>flash_page_data\<close>.
\<close>

definition gw_holds :: "u8 list \<Rightarrow> fw \<Rightarrow> bool" where
  "gw_holds bs s \<longleftrightarrow>
     sint (flash_page s) = int (length bs div 256) \<and>
     flash_page_data_cnt s = int (length bs mod 256) \<and>
     take (length bs mod 256) (flash_page_data s) = drop (256 * (length bs div 256)) bs \<and>
     fpga_byte s = of_nat (length bs)"

definition rx_payload :: "fw \<Rightarrow> u8 list" where
  "rx_payload s = take (unat (rx_count s)) (drop (HDR_SIZE + 24) (glEp0Buffer_Rx s))"

text \<open>Page number \<open>i\<close> of the bytes \<open>bs\<close>.\<close>

definition page_of :: "u8 list \<Rightarrow> nat \<Rightarrow> u8 list" where
  "page_of bs i = take 256 (drop (256 * i) bs)"

lemma page_fill:
  assumes "length bs mod 256 + length p \<le> 256" "length buf = 256"
    "take (length bs mod 256) buf = drop (256 * (length bs div 256)) bs"
  shows "take (length bs mod 256 + length p) (splice (length bs mod 256) p buf) =
     drop (256 * (length bs div 256)) (bs @ p)"
proof -
  have "256 * (length bs div 256) \<le> length bs" by simp
  moreover have "length bs mod 256 \<le> length buf" using assms(1,2) by simp
  ultimately show ?thesis
    using assms minus_mult_div_eq_mod [of "length bs" 256] by (simp add: splice_take_drop min_def)
qed

lemma gw_holds_start: "current_portion s = 0 \<Longrightarrow> gw_holds [] (begun s)"
  by (simp add: gw_holds_def begun_def)

lemma begun_keeps: "current_portion s \<noteq> 0 \<Longrightarrow> begun s = s"
  by (simp add: begun_def)

text \<open>The fill step takes in the whole payload when it does not straddle a page.\<close>

lemma filled_holds:
  assumes "fw_ok s" "gw_holds bs s" "0 < unat (data_cnt s)" "unat (data_cnt s) \<le> 32"
    "length bs mod 256 + unat (data_cnt s) \<le> 256"
    "p = take (unat (data_cnt s)) (drop (HDR_SIZE + 24) (glEp0Buffer_Rx s))"
  shows "flash_page_data_cnt (filled s) = int (length bs mod 256 + length p)"
    and "flash_data_counter_to_copy (filled s) = int (unat (data_cnt s))"
    and "sint (flash_page (filled s)) = int (length bs div 256)"
    and "fpga_byte (filled s) = of_nat (length bs)"
    and "take (length bs mod 256 + length p) (flash_page_data (filled s)) = drop (256 * (length bs div 256)) (bs @ p)"
    and "length p = unat (data_cnt s)"
proof -
  let ?k = "length bs mod 256"
  show len: "length p = unat (data_cnt s)" using assms(1,4,6) by (simp add: fw_ok_lengths HDR_SIZE_def)
  have cnt: "flash_page_data_cnt s = int ?k" "?k < 256" using assms(2) by (simp_all add: gw_holds_def)
  have "int ?k + int (unat (data_cnt s)) \<le> 256" using assms(5) by linarith
  then have n: "fill_count s = int (unat (data_cnt s))"
    using cnt(1) by (auto simp: fill_count_def flash_sizes min_def)
  have nz: "data_cnt s \<noteq> 0" using assms(3) by auto
  have f: "filled s = s\<lparr>flash_data_counter_to_copy := int (unat (data_cnt s)),
      flash_page_data := splice ?k p (flash_page_data s),
      flash_page_data_cnt := int ?k + int (unat (data_cnt s)),
      flash_data_cnt_free := int FLASH_PAGE_SIZE - (int ?k + int (unat (data_cnt s)))\<rparr>"
    using cnt nz n assms(6) by (simp add: filled_def flash_sizes Let_def nat_int)
  show "flash_page_data_cnt (filled s) = int (?k + length p)" using len by (simp add: f)
  show "flash_data_counter_to_copy (filled s) = int (unat (data_cnt s))" by (simp add: f)
  show "sint (flash_page (filled s)) = int (length bs div 256)" "fpga_byte (filled s) = of_nat (length bs)"
    using assms(2) by (simp_all add: f gw_holds_def)
  have "length (flash_page_data s) = 256" using assms(1) by (simp add: fw_ok_lengths flash_sizes)
  with assms(2,5) len page_fill [of bs p "flash_page_data s"]
  show "take (?k + length p) (flash_page_data (filled s)) = drop (256 * (length bs div 256)) (bs @ p)"
    by (simp add: f gw_holds_def)
qed

text \<open>
  One packet of the stream. The bytes join what is held; a page that becomes full goes to the flash
  at its place, and the packet is refused when the flash reports an error.
\<close>

definition gw_step_post :: "u8 list \<Rightarrow> u8 list \<Rightarrow> act list \<Rightarrow> fw \<Rightarrow> bool" where
  "gw_step_post bs p acts s' \<longleftrightarrow>
     (if length bs mod 256 + length p < 256
      then acts = [] \<and> gw_holds (bs @ p) s' \<and> tx_hdr HDR_STATUS s' = STATUS_COMPLETED_CMD
      else \<exists>r. flushed_to (int (length bs div 256)) (page_of (bs @ p) (length bs div 256)) r acts \<and>
        (if r = 0 then gw_holds (bs @ p) s' \<and> tx_hdr HDR_STATUS s' = STATUS_COMPLETED_CMD
         else tx_hdr HDR_STATUS s' = STATUS_ERROR_CMD))"

lemma div_mod_same_page:
  assumes "m mod 256 + n < 256"
  shows "(m + n) div 256 = m div (256 :: nat)" "(m + n) mod 256 = m mod 256 + n"
proof -
  have "m + n = 256 * (m div 256) + (m mod 256 + n)" by simp
  then show "(m + n) div 256 = m div 256" "(m + n) mod 256 = m mod 256 + n"
    using assms by (metis div_mult_self4 div_less add_0_right zero_neq_numeral add.commute, metis mod_mult_self4 mod_less)
qed

lemma div_mod_next_page:
  assumes "m mod 256 + n = 256"
  shows "(m + n) div 256 = m div (256 :: nat) + 1" "(m + n) mod 256 = 0"
proof -
  have "m + n = 256 * (m div 256) + (m mod 256 + n)" by simp
  also have "\<dots> = 256 * (m div 256 + 1)" using assms by simp
  finally show "(m + n) div 256 = m div 256 + 1" "(m + n) mod 256 = 0" by simp_all
qed

lemma twp_gw_stream_step:
  assumes ok: "F Hang \<or> spi_core_ok env SPI_FPGA_AS_BASE" and t: "fw_ok t"
    and held: "if current_portion t = 0 then bs = [] else gw_holds bs t"
    and n: "0 < unat (data_cnt t)" "unat (data_cnt t) \<le> 32" "length bs mod 256 + unat (data_cnt t) \<le> 256"
    and size: "length bs + unat (data_cnt t) \<le> 2751361"
    and p: "p = take (unat (data_cnt t)) (drop (HDR_SIZE + 24) (glEp0Buffer_Rx t))"
  shows "twp gw_program env (\<lambda>_. gw_step_post bs p) F t"
proof -
  let ?v = "filled (begun t)" let ?k = "length bs mod 256"
  have u: "fw_ok (begun t)" using kept_begun [OF kept_refl [OF t]] by (rule kept_ok)
  have hu: "gw_holds bs (begun t)"
    using held gw_holds_start [of t] begun_keeps [of t] by (auto split: if_splits)
  have v: "flash_page_data_cnt ?v = int (?k + length p)"
    "flash_data_counter_to_copy ?v = int (unat (data_cnt t))"
    "sint (flash_page ?v) = int (length bs div 256)" "fpga_byte ?v = of_nat (length bs)"
    "take (?k + length p) (flash_page_data ?v) = drop (256 * (length bs div 256)) (bs @ p)"
    "length p = unat (data_cnt t)"
    using filled_holds [OF u hu, of p] n p by simp_all
  have kv: "kept t ?v" using t by (intro kept_filled kept_begun kept_refl)
  have tot: "fpga_byte ?v + ucast (data_cnt t) = of_nat (length (bs @ p))" by (simp add: v)
  have "of_nat (length (bs @ p)) \<le> FPGA_SIZE"
    using size by (simp add: v(6) FPGA_SIZE_def word_le_nat_alt unat_of_nat del: of_nat_add)
  with tot have le: "fpga_byte ?v + ucast (data_cnt t) \<le> FPGA_SIZE" by simp
  have nz: "data_cnt t \<noteq> 0" using n(1) by auto
  have holds: "gw_holds (bs @ p) (finished w)"
    if "fpga_byte w = fpga_byte ?v" "data_cnt w = data_cnt t" "flash_page_data w = flash_page_data ?v"
      "sint (flash_page w) = int (length (bs @ p) div 256)"
      "flash_page_data_cnt w = int (length (bs @ p) mod 256)"
      "take (length (bs @ p) mod 256) (flash_page_data ?v) = drop (256 * (length (bs @ p) div 256)) (bs @ p)" for w
    using that nz tot by (simp add: gw_holds_def finished_def Let_def)
  have stat: "tx_hdr HDR_STATUS (finished w) = STATUS_COMPLETED_CMD"
    if "kept t w" "fpga_byte w = fpga_byte ?v" "data_cnt w = data_cnt t" for w
    using that le finished_status [of t w] by simp
  show ?thesis
  proof (rule twp_gw_program [where F = F, OF ok t])
    assume "flash_page_data_cnt ?v < int FLASH_PAGE_SIZE"
    then have lt: "?k + length p < 256" using v(1) by (simp add: flash_sizes)
    with v holds [of ?v] stat [OF kv] show "gw_step_post bs p [] (finished ?v)"
      by (simp add: gw_step_post_def div_mod_same_page)
  next
    fix acts h
    assume "flash_page_data_cnt ?v = int FLASH_PAGE_SIZE" and fl: "page_flushed ?v 0 acts"
    then have eq: "?k + length p = 256" using v(1) by (simp add: flash_sizes)
    let ?w = "next_page h ?v"
    have sp: "spilled ?w = ?w" using v(2) by (simp add: spilled_def next_page_def)
    have "length (flash_page_data ?v) = 256" using kept_ok [OF kv] by (simp add: fw_ok_lengths flash_sizes)
    then have "flash_page_data ?v = page_of (bs @ p) (length bs div 256)"
      using v(5) eq by (simp add: page_of_def)
    with fl v(3) have out: "flushed_to (int (length bs div 256)) (page_of (bs @ p) (length bs div 256)) 0 acts"
      by (simp add: page_flushed_def)
    have "length bs + length p = 256 * (length bs div 256) + (?k + length p)" by simp
    then have "length bs + length p \<le> 256 + 256 * (length bs div 256)" unfolding eq by simp
    have "sint (flash_page ?w) = int (Suc (length bs div 256))"
      using sint_Suc [OF v(3)] size by (simp add: next_page_def)
    then have held': "gw_holds (bs @ p) (finished ?w)"
      by (intro holds) (use \<open>length bs + length p \<le> 256 + 256 * (length bs div 256)\<close> eq
          div_mod_next_page [OF eq] in \<open>simp_all add: next_page_def\<close>)
    have "tx_hdr HDR_STATUS (finished ?w) = STATUS_COMPLETED_CMD"
      by (rule stat [OF kept_next_page [OF kv]]) (simp_all add: next_page_def)
    with out held' show "gw_step_post bs p acts (finished (spilled ?w))"
      using eq by (auto simp: gw_step_post_def sp intro!: exI [of _ 0])
  next
    fix r acts h
    assume "flash_page_data_cnt ?v = int FLASH_PAGE_SIZE" and fl: "page_flushed ?v r acts" and r: "r \<noteq> 0"
    then have eq: "?k + length p = 256" using v(1) by (simp add: flash_sizes)
    have "length (flash_page_data ?v) = 256" using kept_ok [OF kv] by (simp add: fw_ok_lengths flash_sizes)
    then have "flash_page_data ?v = page_of (bs @ p) (length bs div 256)"
      using v(5) eq by (simp add: page_of_def)
    with fl v(3) have "flushed_to (int (length bs div 256)) (page_of (bs @ p) (length bs div 256)) r acts"
      by (simp add: page_flushed_def)
    with r eq kept_status(2) [of t "?v\<lparr>spiFastRead := 1, hist := h\<rparr>" STATUS_ERROR_CMD] kv
    show "gw_step_post bs p acts (?v\<lparr>spiFastRead := 1, hist := h,
         glEp0Buffer_Tx := (glEp0Buffer_Tx ?v)[HDR_STATUS := STATUS_ERROR_CMD]\<rparr>)"
      by (auto simp: gw_step_post_def)
  qed (use n in auto)
qed

end
