(* ===== verification/Mcu.thy ===== *)
theory Mcu
  imports Handler_Contracts
begin

text \<open>
  \<open>CMD_LMS_MCU_FW_WR\<close>: firmware for the microcontroller of the LMS7002M, sent in portions of 32
  bytes that are written to its FIFO over SPI. The portions have to arrive in order; the status
  register is polled before and after each portion, with a retry counter.
\<close>

definition PROG_EEPROM :: u8 where "PROG_EEPROM = 1"
definition PROG_SRAM :: u8 where "PROG_SRAM = 2"
definition BOOT_MCU :: u8 where "BOOT_MCU = 3"
definition MCU_CONTROL_REG :: u8 where "MCU_CONTROL_REG = 0x02"
definition MCU_STATUS_REG :: u8 where "MCU_STATUS_REG = 0x03"
definition MCU_FIFO_WR_REG :: u8 where "MCU_FIFO_WR_REG = 0x04"
definition MAX_MCU_RETRIES :: nat where "MAX_MCU_RETRIES = 30"

lemmas mcu_defs = PROG_EEPROM_def PROG_SRAM_def BOOT_MCU_def MCU_CONTROL_REG_def MCU_STATUS_REG_def
  MCU_FIFO_WR_REG_def MAX_MCU_RETRIES_def

text \<open>\<open>alt_avalon_spi_command(SPI_LMS_BASE, SPI_NR_LMS7002M, 4, &sc_brdg_data[0], 0, NULL, 0)\<close>.\<close>

definition sc_send :: "(fw, unit) prog" where
  "sc_send = bnd (gets sc_brdg_data) (\<lambda>w. void (spi_command SPI_LMS_BASE SPI_NR_LMS7002M (take 4 w) 0 0))"

text \<open>The four assignments to \<open>sc_brdg_data\<close> that write \<open>v\<close> to register \<open>reg\<close>.\<close>

definition sc_reg_write :: "u8 \<Rightarrow> u8 \<Rightarrow> (fw, unit) prog" where
  "sc_reg_write reg v = seqs [set_sc 0 0x80, set_sc 1 reg, set_sc 2 0x00, set_sc 3 v, sc_send]"

definition mcu_read_status :: "(fw, unit) prog" where
  "mcu_read_status = seqs [set_sc 0 0x00, set_sc 1 MCU_STATUS_REG, sc_exchange SPI_NR_LMS7002M 0]"

text \<open>
  \<open>while (MCU_retries < limit) { read status; if (sc_brdg_data[1] & mask) break; MCU_retries++;
  usleep(30); }\<close>. The counter is the 8-bit global, compared as an integer: with a limit above 255
  the loop has no bound.
\<close>

partial_function (option) mcu_wait_loop ::
    "nat \<Rightarrow> u8 \<Rightarrow> env \<Rightarrow> fw \<Rightarrow> (fault + unit \<times> fw) option" where
  "mcu_wait_loop limit flag env s =
     (if unat (MCU_retries s) < limit then
        (case mcu_read_status env s of
           Inl f \<Rightarrow> Some (Inl f)
         | Inr r \<Rightarrow>
             (if sc_brdg_data (snd r) ! 1 AND flag \<noteq> 0 then Some (Inr ((), snd r))
              else mcu_wait_loop limit flag env
                     ((snd r)\<lparr>MCU_retries := MCU_retries (snd r) + 1, hist := hist (snd r) @ [Usleep 30]\<rparr>)))
      else Some (Inr ((), s)))"

definition mcu_wait :: "nat \<Rightarrow> u8 \<Rightarrow> (fw, unit) prog" where
  "mcu_wait limit flag =
     bnd (modify (\<lambda>s. s\<lparr>MCU_retries := 0\<rparr>)) (\<lambda>_ env s.
       case mcu_wait_loop limit flag env s of None \<Rightarrow> Inl Hang | Some r \<Rightarrow> r)"

text \<open>The 32 writes of the FIFO, with the global 8-bit counter \<open>block\<close>.\<close>

definition mcu_write_fifo :: "(fw, unit) prog" where
  "mcu_write_fifo =
     bnd (modify (\<lambda>s. s\<lparr>block := 0\<rparr>)) (\<lambda>_.
     each [0..<32] (\<lambda>b. seqs
       [set_sc 0 0x80, set_sc 1 MCU_FIFO_WR_REG, set_sc 2 0x00,
        bnd (rx_data (2 + b)) (set_sc 3), sc_send,
        modify (\<lambda>s. s\<lparr>MCU_retries := 0\<rparr>),
        modify (\<lambda>s. s\<lparr>block := block s + 1\<rparr>)]))"

text \<open>
  The first portion resets the MCU and sets its mode; true is the jump to \<open>BOOTING\<close>.
\<close>

definition mcu_first_portion :: "(fw, bool) prog" where
  "mcu_first_portion =
     bnd (sc_reg_write MCU_CONTROL_REG 0x00) (\<lambda>_.
     bnd (seqs [set_sc 0 0x80, set_sc 1 MCU_CONTROL_REG, set_sc 2 0x00]) (\<lambda>_.
     bnd (rx_data 0) (\<lambda>mode.
     if mode = PROG_EEPROM then bnd (seqs [set_sc 3 0x01, sc_send]) (\<lambda>_. ret False)
     else if mode = PROG_SRAM then bnd (seqs [set_sc 3 0x02, sc_send]) (\<lambda>_. ret False)
     else if mode = BOOT_MCU then bnd (seqs [set_sc 3 0x03, sc_send, mcu_read_status]) (\<lambda>_. ret True)
     else ret False)))"

definition mcu_load_portion :: "(fw, unit) prog" where
  "mcu_load_portion = seqs
     [mcu_wait MAX_MCU_RETRIES 0x01,
      mcu_write_fifo,
      mcu_wait 500 0x01,
      bnd (gets current_portion) (\<lambda>p.
        if p = 255 then seqs
          [mcu_wait MAX_MCU_RETRIES 0x40,
           bnd (gets MCU_retries) (\<lambda>r. if unat r = MAX_MCU_RETRIES then inc_errors else ret ())]
        else ret ()),
      modify (\<lambda>s. s\<lparr>last_portion := current_portion s\<rparr>)]"

definition cmd_lms_mcu_fw_wr :: "(fw, unit) prog" where
  "cmd_lms_mcu_fw_wr =
     bnd (rx_data 1) (\<lambda>p.
     bnd (modify (\<lambda>s. s\<lparr>current_portion := ucast p\<rparr>)) (\<lambda>_.
     bnd (gets (\<lambda>s. (current_portion s, last_portion s))) (\<lambda>(cur, lst).
     if cur \<noteq> 0 \<and> lst \<noteq> cur - 1 then set_status STATUS_WRONG_ORDER_CMD
     else
       bnd (if cur = 0 then mcu_first_portion else ret False) (\<lambda>booting. seqs
         [if booting then ret () else mcu_load_portion,
          status_by_errors STATUS_ERROR_CMD]))))"

section \<open>Polling the MCU status\<close>

abbreviation status_read :: "u8 list \<Rightarrow> act" where
  "status_read d \<equiv> Spi SPI_LMS_BASE SPI_NR_LMS7002M [0x00, MCU_STATUS_REG] d 0"

text \<open>
  \<open>mcu_polled\<close>: status reads that missed, each followed by the delay, then the one that hit, if the
  loop ended that way; the counter has gone up by the number of misses, modulo 256.
\<close>

definition mcu_polled :: "u8 \<Rightarrow> fw \<Rightarrow> u8 list list \<Rightarrow> u8 list option \<Rightarrow> act list \<Rightarrow> fw \<Rightarrow> bool" where
  "mcu_polled flag s misses hit acts s' \<longleftrightarrow>
     (\<forall>d\<in>set misses. d ! 1 AND flag = 0) \<and>
     (case hit of None \<Rightarrow> True | Some d \<Rightarrow> d ! 1 AND flag \<noteq> 0) \<and>
     acts = concat (map (\<lambda>d. [status_read d, Pause 30]) misses) @
       (case hit of None \<Rightarrow> [] | Some d \<Rightarrow> [status_read d]) \<and>
     (\<exists>h sc. length sc = 4 \<and>
        s' = s\<lparr>sc_brdg_data := sc, hist := h, MCU_retries := MCU_retries s + of_nat (length misses)\<rparr>)"

lemma mcu_polled_miss:
  assumes "d ! 1 AND flag = 0" and
    "mcu_polled flag (s\<lparr>sc_brdg_data := sc, hist := h, MCU_retries := MCU_retries s + 1\<rparr>) misses hit acts s'"
  shows "mcu_polled flag s (d # misses) hit (status_read d # Pause 30 # acts) s'"
  using assms unfolding mcu_polled_def by (auto simp: add.assoc)

lemma mcu_polled_hit:
  "d ! 1 AND flag \<noteq> 0 \<Longrightarrow> length sc = 4 \<Longrightarrow>
   mcu_polled flag s [] (Some d) [status_read d] (s\<lparr>sc_brdg_data := sc, hist := h\<rparr>)"
  unfolding mcu_polled_def by (auto intro!: exI [of _ h] exI [of _ sc])

lemma mcu_polled_out: "length (sc_brdg_data s) = 4 \<Longrightarrow> mcu_polled flag s [] None [] s"
  unfolding mcu_polled_def by (auto intro!: exI [of _ "hist s"] exI [of _ "sc_brdg_data s"])

lemma hist_sc_commute: "(s :: fw)\<lparr>hist := h, sc_brdg_data := sc\<rparr> = s\<lparr>sc_brdg_data := sc, hist := h\<rparr>"
  by (cases s) simp

lemma hist_retries_commute: "(s :: fw)\<lparr>MCU_retries := r, hist := h\<rparr> = s\<lparr>hist := h, MCU_retries := r\<rparr>"
  by (cases s) simp

text \<open>One status read leaves the two bytes received in front of \<open>sc_brdg_data\<close>.\<close>

lemma twp_mcu_read_status:
  assumes "F Hang \<or> spi_core_ok env SPI_LMS_BASE" and len: "length (sc_brdg_data s) = 4"
    and Q: "\<And>d h sc. length d = 2 \<Longrightarrow> length sc = 4 \<Longrightarrow> sc ! 1 = d ! 1 \<Longrightarrow>
       Q () [status_read d] (s\<lparr>sc_brdg_data := sc, hist := h\<rparr>)"
  shows "twp mcu_read_status env Q F s"
proof -
  obtain a b c d where sc: "sc_brdg_data s = [a, b, c, d]"
    using len by (auto simp: length_Suc_conv numeral_eq_Suc)
  have "Q () [status_read d'] (s\<lparr>sc_brdg_data := splice 0 d' [0, MCU_STATUS_REG, c, d], hist := h\<rparr>)"
    if "length d' = 2" for d' h
  proof -
    from that obtain x y where "d' = [x, y]" by (auto simp: length_Suc_conv numeral_eq_Suc)
    then show ?thesis using Q [of d' "splice 0 d' [0, MCU_STATUS_REG, c, d]" h] by simp
  qed
  then show ?thesis
    unfolding mcu_read_status_def
    by (intro twp_intros assms(1)) (auto simp: sc hist_sc_commute)
qed

definition mcu_wait_run :: "nat \<Rightarrow> u8 \<Rightarrow> (fw, unit) prog" where
  "mcu_wait_run limit flag = (\<lambda>env s. case mcu_wait_loop limit flag env s of None \<Rightarrow> Inl Hang | Some r \<Rightarrow> r)"

text \<open>A loop that returns did so with a hit or at the limit, whatever the limit is.\<close>

lemma mcu_wait_loop_result:
  assumes "mcu_wait_loop limit flag env s = Some r" and "length (sc_brdg_data s) = 4"
    and "F Hang \<or> spi_core_ok env SPI_LMS_BASE"
  shows "case r of Inl f \<Rightarrow> F f
     | Inr (_, s') \<Rightarrow> \<exists>misses hit acts. after env (hist s) acts s' \<and> mcu_polled flag s misses hit acts s' \<and>
         (hit = None \<longrightarrow> limit \<le> unat (MCU_retries s'))"
proof -
  let ?R = "\<lambda>flag env s s' limit. \<exists>misses hit acts. after env (hist s) acts s' \<and>
      mcu_polled flag s misses hit acts s' \<and> (hit = None \<longrightarrow> limit \<le> unat (MCU_retries s'))"
  let ?P = "\<lambda>limit flag env s r. length (sc_brdg_data s) = 4 \<longrightarrow> F Hang \<or> spi_core_ok env SPI_LMS_BASE \<longrightarrow>
     (case r of Inl f \<Rightarrow> F f | Inr (_, s') \<Rightarrow> ?R flag env s s' limit)"
  have "?P limit flag env s r"
  proof (rule mcu_wait_loop.raw_induct [where P = ?P, OF _ assms(1)], intro impI)
    fix f limit flag env s r
    assume IH: "\<And>limit flag env s r. f limit flag env s = Some r \<Longrightarrow> ?P limit flag env s r"
      and eq: "(if unat (MCU_retries s) < limit then
        (case mcu_read_status env s of
           Inl f \<Rightarrow> Some (Inl f)
         | Inr r \<Rightarrow>
             (if sc_brdg_data (snd r) ! 1 AND flag \<noteq> 0 then Some (Inr ((), snd r))
              else f limit flag env
                     ((snd r)\<lparr>MCU_retries := MCU_retries (snd r) + 1, hist := hist (snd r) @ [Usleep 30]\<rparr>)))
      else Some (Inr ((), s))) = Some r"
      and len: "length (sc_brdg_data s) = 4" and ok: "F Hang \<or> spi_core_ok env SPI_LMS_BASE"
    have rd: "wp mcu_read_status env (\<lambda>_ t. \<exists>d h sc. after env (hist s) [status_read d] t \<and>
        length sc = 4 \<and> sc ! 1 = d ! 1 \<and> t = s\<lparr>sc_brdg_data := sc, hist := h\<rparr>) F s"
    proof -
      have "twp mcu_read_status env (\<lambda>_ as t. \<exists>d h sc. as = [status_read d] \<and> length sc = 4 \<and>
          sc ! 1 = d ! 1 \<and> t = s\<lparr>sc_brdg_data := sc, hist := h\<rparr>) F s"
        by (rule twp_mcu_read_status [where F = F, OF ok len]) blast
      then show ?thesis unfolding twp_after by (rule wp_mono) blast+
    qed
    show "case r of Inl f \<Rightarrow> F f | Inr (_, s') \<Rightarrow> ?R flag env s s' limit"
    proof (cases "unat (MCU_retries s) < limit")
      case False
      with eq have "r = Inr ((), s)" "limit \<le> unat (MCU_retries s)" by auto
      with mcu_polled_out [OF len, of flag] after_start [of env s] show ?thesis by auto
    next
      case lt: True
      show ?thesis
      proof (cases "mcu_read_status env s")
        case (Inl fl)
        with eq lt rd show ?thesis by (auto simp: wp_def)
      next
        case (Inr t)
        then obtain u t' where t: "t = (u, t')" by (cases t)
        with rd Inr obtain d h sc where t': "after env (hist s) [status_read d] t'" "length sc = 4"
          "sc ! 1 = d ! 1" "t' = s\<lparr>sc_brdg_data := sc, hist := h\<rparr>" by (auto simp: wp_def)
        show ?thesis
        proof (cases "d ! 1 AND flag = 0")
          case False
          with eq lt Inr t t' have "r = Inr ((), t')" by simp
          with t' mcu_polled_hit [OF False t'(2), of s h] show ?thesis
            by (auto intro!: exI [of _ "[]"] exI [of _ "Some d"] exI [of _ "[status_read d]"])
        next
          case True
          let ?t = "t'\<lparr>MCU_retries := MCU_retries t' + 1, hist := hist t' @ [Usleep 30]\<rparr>"
          have step: "after env (hist s) [status_read d, Pause 30] ?t"
            using after_trans [OF t'(1), of "[Pause 30]" ?t] by (simp add: after_def)
          from True eq lt Inr t t' have "f limit flag env ?t = Some r" by simp
          from IH [OF this] t'(2,4) ok
          have IH': "case r of Inl f \<Rightarrow> F f | Inr (_, s') \<Rightarrow> ?R flag env ?t s' limit" by simp
          have lift: "?R flag env s s' limit" if "?R flag env ?t s' limit" for s'
          proof -
            from that obtain misses hit acts where r: "after env (hist ?t) acts s'"
              "mcu_polled flag ?t misses hit acts s'" "hit = None \<longrightarrow> limit \<le> unat (MCU_retries s')" by blast
            have "?t = s\<lparr>sc_brdg_data := sc, hist := h @ [Usleep 30], MCU_retries := MCU_retries s + 1\<rparr>"
              using t'(4) by simp
            with r(2) have "mcu_polled flag s (d # misses) hit (status_read d # Pause 30 # acts) s'"
              by (intro mcu_polled_miss [OF True]) simp
            moreover have "after env (hist s) (status_read d # Pause 30 # acts) s'"
              using after_trans [OF step r(1)] by simp
            ultimately show ?thesis using r(3) by blast
          qed
          show ?thesis
          proof (cases r)
            case (Inl fl)
            with IH' show ?thesis by simp
          next
            case (Inr q)
            obtain w s' where q: "q = (w, s')" by (cases q)
            with Inr IH' have "?R flag env ?t s' limit" by simp
            from lift [OF this] Inr q show ?thesis by simp
          qed
        qed
      qed
    qed
  qed
  with assms(2,3) show ?thesis by simp
qed

text \<open>
  Below the range of the counter the loop ends on a core that keeps its protocol: every miss brings
  the counter closer to the limit.
\<close>

lemma mcu_wait_loop_returns:
  assumes ok: "spi_core_ok env SPI_LMS_BASE" and limit: "limit \<le> 255"
  shows "length (sc_brdg_data s) = 4 \<Longrightarrow> \<exists>r. mcu_wait_loop limit flag env s = Some r"
proof (induction "limit - unat (MCU_retries s)" arbitrary: s rule: less_induct)
  case less
  have "twp mcu_read_status env (\<lambda>_ as t. \<exists>h sc. length sc = 4 \<and> t = s\<lparr>sc_brdg_data := sc, hist := h\<rparr>) (\<lambda>_. False) s"
    by (rule twp_mcu_read_status) (use ok less.prems in auto)
  from twp_unitD [OF this] obtain h sc where rd: "length sc = 4"
    "mcu_read_status env s = Inr ((), s\<lparr>sc_brdg_data := sc, hist := h\<rparr>)"
    by (auto simp: performs_def)
  let ?t = "s\<lparr>sc_brdg_data := sc, hist := h @ [Usleep 30], MCU_retries := MCU_retries s + 1\<rparr>"
  have "\<exists>r. mcu_wait_loop limit flag env ?t = Some r" if lt: "unat (MCU_retries s) < limit"
  proof (rule less.hyps)
    have "unat (MCU_retries s + 1) = Suc (unat (MCU_retries s))"
      using lt limit by (intro unat_u8_Suc) linarith
    with lt show "limit - unat (MCU_retries ?t) < limit - unat (MCU_retries s)" by simp
  qed (use rd in simp)
  moreover have "?t = s\<lparr>sc_brdg_data := sc, hist := h\<rparr>\<lparr>MCU_retries := MCU_retries (s\<lparr>sc_brdg_data := sc, hist := h\<rparr>) + 1,
      hist := hist (s\<lparr>sc_brdg_data := sc, hist := h\<rparr>) @ [Usleep 30]\<rparr>" by simp
  ultimately show ?case
    by (subst mcu_wait_loop.simps) (auto simp: rd(2))
qed

lemma twp_mcu_wait:
  assumes ok: "F Hang \<or> spi_core_ok env SPI_LMS_BASE \<and> limit \<le> 255"
    and len: "length (sc_brdg_data s) = 4"
    and Q: "\<And>misses hit acts t. mcu_polled flag (s\<lparr>MCU_retries := 0\<rparr>) misses hit acts t \<Longrightarrow>
       hit = None \<longrightarrow> limit \<le> unat (MCU_retries t) \<Longrightarrow> Q () acts t"
  shows "twp (mcu_wait limit flag) env Q F s"
proof -
  let ?s = "s\<lparr>MCU_retries := 0\<rparr>"
  have "wp (mcu_wait_run limit flag) env (\<lambda>_ t. \<exists>acts. after env (hist ?s) acts t \<and> Q () acts t) F ?s"
  proof (cases "mcu_wait_loop limit flag env ?s")
    case None
    with ok len mcu_wait_loop_returns [of env limit ?s flag] show ?thesis
      by (auto simp: wp_def mcu_wait_run_def)
  next
    case (Some r)
    from mcu_wait_loop_result [where F = F, OF Some] len ok
    have res: "case r of Inl f \<Rightarrow> F f
       | Inr (_, s') \<Rightarrow> \<exists>misses hit acts. after env (hist ?s) acts s' \<and> mcu_polled flag ?s misses hit acts s' \<and>
           (hit = None \<longrightarrow> limit \<le> unat (MCU_retries s'))" by auto
    show ?thesis
      unfolding wp_def mcu_wait_run_def Some
      using res by (auto split: sum.splits prod.splits intro: Q)
  qed
  then have "twp (mcu_wait_run limit flag) env Q F ?s" by (simp add: twp_after)
  then show ?thesis
    unfolding mcu_wait_def mcu_wait_run_def by (intro twp_bnd twp_modify) auto
qed

text \<open>What the loop keeps.\<close>

lemma kept_polled: "mcu_polled flag s misses hit acts t \<Longrightarrow> kept u s \<Longrightarrow> kept u t"
  using kept_ok [of u s] by (auto simp: mcu_polled_def fw_ok_lengths)

lemma polled_keeps:
  assumes "mcu_polled flag s misses hit acts t"
  shows "current_portion t = current_portion s" "cmd_errors t = cmd_errors s"
    "glEp0Buffer_Rx t = glEp0Buffer_Rx s" "glEp0Buffer_Tx t = glEp0Buffer_Tx s"
    "last_portion t = last_portion s" "length (sc_brdg_data t) = 4"
  using assms by (auto simp: mcu_polled_def)

lemma tidy_concat: "(\<And>xs. xs \<in> set xss \<Longrightarrow> tidy xs) \<Longrightarrow> tidy (concat xss)"
  by (induction xss) auto

lemma tidy_polled: "mcu_polled flag s misses hit acts t \<Longrightarrow> tidy acts"
  by (auto simp: mcu_polled_def intro!: tidy_append tidy_concat tidy_Spi_Cons split: option.splits)

section \<open>Loading a portion\<close>

lemma twp_sc_send [twp_intros]:
  assumes "F Hang \<or> spi_core_ok env SPI_LMS_BASE" and "length (sc_brdg_data s) = 4"
    and "\<And>h. Q () [Spi SPI_LMS_BASE SPI_NR_LMS7002M (sc_brdg_data s) [] 0] (s\<lparr>hist := h\<rparr>)"
  shows "twp sc_send env Q F s"
  unfolding sc_send_def
  by (intro twp_intros assms(1)) (use assms(2,3) in \<open>auto simp: spi_masks\<close>)

lemma sc_all_set: "length sc = 4 \<Longrightarrow> sc[0 := a, Suc 0 := b, 2 := c, 3 := d] = [a, b, c, d]"
  by (auto simp: length_Suc_conv numeral_eq_Suc)

text \<open>The transfers that write the 32 bytes from offset 2 of the data field to the FIFO register.\<close>

definition fifo_acts :: "nat \<Rightarrow> fw \<Rightarrow> act list" where
  "fifo_acts n s = map (\<lambda>b. Spi SPI_LMS_BASE SPI_NR_LMS7002M
     [0x80, MCU_FIFO_WR_REG, 0x00, glEp0Buffer_Rx s ! (HDR_SIZE + (2 + b))] [] 0) [0..<n]"

lemma tidy_fifo [simp]: "tidy (fifo_acts n s)"
  by (simp add: fifo_acts_def)

definition mcu_quiet :: "fw \<Rightarrow> fw \<Rightarrow> bool" where
  "mcu_quiet s t \<longleftrightarrow> kept s t \<and> glEp0Buffer_Rx t = glEp0Buffer_Rx s \<and> glEp0Buffer_Tx t = glEp0Buffer_Tx s \<and>
     current_portion t = current_portion s \<and> last_portion t = last_portion s \<and> cmd_errors t = cmd_errors s"

lemma quiet_polled: "mcu_polled flag s misses hit acts t \<Longrightarrow> mcu_quiet u s \<Longrightarrow> mcu_quiet u t"
  using polled_keeps [of flag s misses hit acts t] kept_polled [of flag s misses hit acts t u]
  by (auto simp: mcu_quiet_def)

lemma twp_mcu_write_fifo:
  assumes ok: "F Hang \<or> spi_core_ok env SPI_LMS_BASE" and s: "fw_ok s"
    and Q: "\<And>t. mcu_quiet s t \<Longrightarrow> Q () (fifo_acts 32 s) t"
  shows "twp mcu_write_fifo env Q F s"
  unfolding mcu_write_fifo_def
proof (intro twp_bnd twp_modify twp_each [where I = "\<lambda>ys acts t. mcu_quiet s t \<and> acts = fifo_acts (length ys) s"])
  fix ys b zs acts t
  assume xs: "[0..<32] = ys @ b # zs" and I: "mcu_quiet s t \<and> acts = fifo_acts (length ys) s"
  then have b: "b = length ys"
    by (metis add_0 append_eq_conv_conj length_append less_add_same_cancel1 length_greater_0_conv list.distinct(1) nth_append_length nth_upt length_upt diff_zero)
  have "length ys < length [0..<32]" using xs by simp
  then have lt: "length ys < 32" by simp
  have len: "length (sc_brdg_data t) = 4" using I by (auto simp: mcu_quiet_def dest: kept_ok intro: fw_ok_lengths)
  show "twp (seqs [set_sc 0 0x80, set_sc 1 MCU_FIFO_WR_REG, set_sc 2 0x00,
        bnd (rx_data (2 + b)) (set_sc 3), sc_send,
        modify (\<lambda>s. s\<lparr>MCU_retries := 0\<rparr>), modify (\<lambda>s. s\<lparr>block := block s + 1\<rparr>)]) env
      (\<lambda>_ as u. mcu_quiet s u \<and> acts @ as = fifo_acts (length (ys @ [b])) s) F t"
    by (intro twp_intros ok)
      (use I b lt len in \<open>auto simp: mcu_quiet_def fifo_acts_def sc_all_set\<close>)
qed (use s Q in \<open>auto simp: mcu_quiet_def kept_refl fifo_acts_def\<close>)

text \<open>How often the status is read: each miss counts, and the limit ends the loop.\<close>

lemma mcu_wait_loop_bounded:
  assumes ok: "spi_core_ok env SPI_LMS_BASE" and limit: "limit \<le> 255"
  shows "length (sc_brdg_data s) = 4 \<Longrightarrow> unat (MCU_retries s) \<le> limit \<Longrightarrow>
    \<exists>misses hit acts s'. mcu_wait_loop limit flag env s = Some (Inr ((), s')) \<and>
      after env (hist s) acts s' \<and> mcu_polled flag s misses hit acts s' \<and>
      unat (MCU_retries s) + length misses \<le> limit \<and>
      (hit = None \<longrightarrow> unat (MCU_retries s) + length misses = limit)"
proof (induction "limit - unat (MCU_retries s)" arbitrary: s rule: less_induct)
  case less
  show ?case
  proof (cases "unat (MCU_retries s) < limit")
    case False
    with less.prems mcu_polled_out [of s flag] after_start [of env s] show ?thesis
      by (subst mcu_wait_loop.simps) (auto intro!: exI [of _ "[]"] exI [of _ None])
  next
    case lt: True
    have "twp mcu_read_status env (\<lambda>_ as t. \<exists>d h sc. as = [status_read d] \<and> length sc = 4 \<and> sc ! 1 = d ! 1 \<and>
        t = s\<lparr>sc_brdg_data := sc, hist := h\<rparr>) (\<lambda>_. False) s"
      by (rule twp_mcu_read_status) (use ok less.prems in auto)
    from twp_unitD [OF this] obtain d h sc where rd: "length sc = 4" "sc ! 1 = d ! 1"
      "mcu_read_status env s = Inr ((), s\<lparr>sc_brdg_data := sc, hist := h\<rparr>)"
      "after env (hist s) [status_read d] (s\<lparr>sc_brdg_data := sc, hist := h\<rparr>)"
      by (auto simp: performs_def after_def)
    show ?thesis
    proof (cases "d ! 1 AND flag = 0")
      case False
      with rd lt mcu_polled_hit [OF False rd(1), of s h] show ?thesis
        by (subst mcu_wait_loop.simps)
          (auto intro!: exI [of _ "[]"] exI [of _ "Some d"] exI [of _ "[status_read d]"])
    next
      case True
      let ?t = "s\<lparr>sc_brdg_data := sc, hist := h @ [Usleep 30], MCU_retries := MCU_retries s + 1\<rparr>"
      have inc: "unat (MCU_retries ?t) = Suc (unat (MCU_retries s))"
        using lt limit unat_u8_Suc [of "MCU_retries s"] by simp
      have "limit - unat (MCU_retries ?t) < limit - unat (MCU_retries s)" using lt inc by linarith
      from less.hyps [OF this] rd(1) lt inc obtain misses hit acts s' where r:
        "mcu_wait_loop limit flag env ?t = Some (Inr ((), s'))" "after env (hist ?t) acts s'"
        "mcu_polled flag ?t misses hit acts s'" "unat (MCU_retries ?t) + length misses \<le> limit"
        "hit = None \<longrightarrow> unat (MCU_retries ?t) + length misses = limit" by auto
      have "mcu_wait_loop limit flag env s = mcu_wait_loop limit flag env ?t"
        by (subst mcu_wait_loop.simps) (use lt True rd in \<open>simp add: hist_retries_commute\<close>)
      moreover have "after env (hist s) (status_read d # Pause 30 # acts) s'"
        using after_trans [OF after_trans [OF rd(4), of "[Pause 30]" ?t] r(2)] by (simp add: after_def)
      moreover have "mcu_polled flag s (d # misses) hit (status_read d # Pause 30 # acts) s'"
        using r(3) by (rule mcu_polled_miss [OF True])
      ultimately show ?thesis using r(1,4,5) inc
        by (intro exI [of _ "d # misses"] exI [of _ hit] exI [of _ "status_read d # Pause 30 # acts"] exI [of _ s']) simp
    qed
  qed
qed

section \<open>The handler\<close>

lemma quiet_refl: "fw_ok s \<Longrightarrow> mcu_quiet s s"
  by (simp add: mcu_quiet_def kept_refl)

lemma quiet_trans: "mcu_quiet s t \<Longrightarrow> mcu_quiet t u \<Longrightarrow> mcu_quiet s u"
  by (auto simp: mcu_quiet_def intro: kept_trans)

lemma twp_quiet_wait:
  assumes "F Hang \<or> spi_core_ok env SPI_LMS_BASE \<and> limit \<le> 255" and "fw_ok s"
    and "\<And>acts t. mcu_quiet s t \<Longrightarrow> tidy acts \<Longrightarrow> Q () acts t"
  shows "twp (mcu_wait limit flag) env Q F s"
proof (rule twp_mcu_wait [where F = F, OF assms(1)])
  fix misses hit acts t
  assume p: "mcu_polled flag (s\<lparr>MCU_retries := 0\<rparr>) misses hit acts t"
  have "mcu_quiet s (s\<lparr>MCU_retries := 0\<rparr>)" using assms(2) by (simp add: mcu_quiet_def kept_refl)
  from assms(3) [OF quiet_polled [OF p this] tidy_polled [OF p]] show "Q () acts t" .
qed (use assms(2) in \<open>simp add: fw_ok_lengths\<close>)

text \<open>
  Loading may wait for ever after the FIFO is written: the limit 500 of that loop is beyond the
  8-bit counter.
\<close>

lemma twp_mcu_load_portion:
  assumes hang: "F Hang" and s: "fw_ok s"
    and Q: "\<And>acts t. kept s t \<Longrightarrow> tidy acts \<Longrightarrow> glEp0Buffer_Tx t = glEp0Buffer_Tx s \<Longrightarrow>
       last_portion t = current_portion s \<Longrightarrow> Q () acts t"
  shows "twp mcu_load_portion env Q F s"
proof -
  have ok: "fw_ok t" if "mcu_quiet s t" for t using that by (auto simp: mcu_quiet_def dest: kept_ok)
  note q = quiet_trans [of s]
  show ?thesis
    unfolding mcu_load_portion_def
    apply (intro twp_seqs_Cons twp_seqs_Nil twp_quiet_wait twp_mcu_write_fifo disjI1 hang s)
    using ok q s apply (auto)[1]
    subgoal for a1 t1 t2
      using ok [of t1] q [of t1 t2] ok [of t2] by auto
    subgoal premises p for a1 t1 t2 a2 t3
    proof -
      have 3: "mcu_quiet s t3" using p q by blast
      then have port: "current_portion t3 = current_portion s" by (simp add: mcu_quiet_def)
      have fin: "Q () (a1 @ fifo_acts 32 t1 @ a2 @ as) (t\<lparr>last_portion := current_portion t\<rparr>)"
        if "kept s t" "glEp0Buffer_Tx t = glEp0Buffer_Tx s" "current_portion t = current_portion s" "tidy as" for t as
        using that p by (intro Q) (auto intro!: tidy_append)
      show ?thesis
        by (intro twp_intros twp_quiet_wait disjI1 hang ok [OF 3])
          (use 3 fin [where as = "[]"] fin q in \<open>auto simp: mcu_quiet_def intro: kept_trans\<close>)
    qed
    done
qed

lemma answered_mcu:
  assumes hang: "F Hang" and s: "fw_ok s"
  shows "twp cmd_lms_mcu_fw_wr env (\<lambda>_. answered s) F s"
proof -
  let ?t = "s\<lparr>current_portion := ucast (glEp0Buffer_Rx s ! HDR_SIZE)\<rparr>"
  have first: "twp mcu_first_portion env (\<lambda>_ as t. kept s t \<and> tidy as) F t" if "kept s t" for t
    unfolding mcu_first_portion_def sc_reg_write_def mcu_read_status_def
    by (intro twp_intros disjI1 hang)
      (use that kept_ok [OF that] in \<open>auto simp: fw_ok_lengths intro!: tidy_Spi_Cons\<close>)
  have rest: "twp (seqs [if booting then ret () else mcu_load_portion, status_by_errors STATUS_ERROR_CMD]) env
      (\<lambda>_ as. answered s (acts @ as)) F t" if "kept s t" "tidy acts" for booting acts t
  proof (rule twp_seqs_Cons, intro twp_if twp_ret twp_mcu_load_portion hang kept_ok [OF that(1)])
    show "twp (seqs [status_by_errors STATUS_ERROR_CMD]) env (\<lambda>_ as. answered s (acts @ [] @ as)) F t"
      using that by (auto intro!: twp_bnd twp_status_by_errors [of s] twp_ret simp: answered_def)
    fix as u
    assume "kept t u" "tidy as"
    with that have "kept s u" "tidy (acts @ as)" by (auto intro: kept_trans)
    then show "twp (seqs [status_by_errors STATUS_ERROR_CMD]) env (\<lambda>_ bs. answered s (acts @ as @ bs)) F u"
      by (auto intro!: twp_bnd twp_status_by_errors [of s] twp_ret simp: answered_def)
  qed
  have t: "kept s (s\<lparr>current_portion := v\<rparr>)" for v using s by (simp add: kept_refl)
  show ?thesis
    unfolding cmd_lms_mcu_fw_wr_def
  proof (intro twp_bnd twp_accessors(2) twp_modify twp_gets twp_prod twp_if twp_status [OF t] twp_ret)
    show "twp mcu_first_portion env (\<lambda>a as. twp (seqs [if a then ret () else mcu_load_portion,
        status_by_errors STATUS_ERROR_CMD]) env (\<lambda>b bs. answered s ([] @ [] @ [] @ as @ bs)) F) F
        (s\<lparr>current_portion := ucast (glEp0Buffer_Rx s ! (HDR_SIZE + 1))\<rparr>)"
      by (rule twp_mono [OF first [OF t]]) (simp only: append_Nil, erule conjE, rule rest)
  qed (use rest [OF t tidy_Nil, where booting = False] in \<open>auto simp: answered_def\<close>)
qed

end
