(* ===== verification/Main_Loop.thy ===== *)
theory Main_Loop
  imports Gateware Mcu
begin

text \<open>
  The \<open>switch\<close> on the command byte, the reply, the polled main loop and the start-up code of
  \<^verbatim>\<open>main()\<close>.
\<close>

section \<open>Dispatch\<close>

text \<open>The handler of a command byte; \<open>None\<close> is the \<open>default\<close> of the \<open>switch\<close>.\<close>

definition handler :: "u8 \<Rightarrow> (fw, unit) prog option" where
  "handler c =
     (if c = CMD_GET_INFO then Some cmd_get_info
      else if c = CMD_LMS_RST then Some cmd_lms_rst
      else if c = CMD_LMS7002_WR then Some cmd_lms7002_wr
      else if c = CMD_LMS7002_RD then Some cmd_lms7002_rd
      else if c = CMD_BRDSPI16_WR then Some cmd_brdspi16_wr
      else if c = CMD_BRDSPI16_RD then Some cmd_brdspi16_rd
      else if c = CMD_ADF4002_WR then Some cmd_adf4002_wr
      else if c = CMD_ANALOG_VAL_RD then Some cmd_analog_val_rd
      else if c = CMD_ANALOG_VAL_WR then Some cmd_analog_val_wr
      else if c = CMD_ALTERA_FPGA_GW_WR then Some cmd_altera_fpga_gw_wr
      else if c = CMD_SI5351_WR then Some cmd_si5351_wr
      else if c = CMD_SI5351_RD then Some cmd_si5351_rd
      else if c = CMD_MEMORY_WR then Some cmd_memory_wr
      else if c = CMD_MEMORY_RD then Some cmd_memory_rd
      else if c = CMD_LMS_MCU_FW_WR then Some cmd_lms_mcu_fw_wr
      else if c = CMD_GPIO_DIR_WR then Some cmd_gpio_dir_wr
      else if c = CMD_GPIO_DIR_RD then Some cmd_gpio_dir_rd
      else if c = CMD_GPIO_WR then Some cmd_gpio_wr
      else if c = CMD_GPIO_RD then Some cmd_gpio_rd
      else None)"

text \<open>Clear the reply and the error count, echo the header, and mark the reply busy.\<close>

definition begin_reply :: "(fw, unit) prog" where
  "begin_reply = seqs
     [modify (\<lambda>s. s\<lparr>glEp0Buffer_Tx := replicate LMS_CTRL_PACKET_SIZE 0\<rparr>),
      modify (\<lambda>s. s\<lparr>cmd_errors := 0\<rparr>),
      bnd (gets (rx_hdr HDR_COMMAND)) (set_tx_hdr HDR_COMMAND),
      bnd (gets (rx_hdr HDR_DATA_BLOCKS)) (set_tx_hdr HDR_DATA_BLOCKS),
      bnd (gets (rx_hdr HDR_PERIPH_ID)) (set_tx_hdr HDR_PERIPH_ID),
      set_status STATUS_BUSY_CMD]"

definition dispatch :: "(fw, unit) prog" where
  "dispatch =
     bnd (gets (rx_hdr HDR_COMMAND)) (\<lambda>c.
       case handler c of Some p \<Rightarrow> p | None \<Rightarrow> set_status STATUS_UNKNOWN_CMD)"

text \<open>From a received packet to the reply in the transmit buffer.\<close>

definition process_cmd :: "(fw, unit) prog" where
  "process_cmd = seqs [begin_reply, dispatch]"

definition send_reply :: "(fw, unit) prog" where
  "send_reply =
     bnd (gets glEp0Buffer_Tx) (\<lambda>tx.
     each [0..<64] (\<lambda>cnt. drv (IOWR AV_FIFO_INT_0_BASE 0 (ucast (tx ! cnt)))))"

section \<open>The main loop\<close>

definition main_iter :: "(fw, unit) prog" where
  "main_iter =
     bnd (drv (IORD SWITCH_BASE 0)) (\<lambda>led_pattern.
     bnd (set_led (push_bit 3 (ucast led_pattern))) (\<lambda>_.
     bnd (drv (IORD AV_FIFO_INT_0_BASE 2)) (\<lambda>spirez.
     if spirez AND 0x01 = 0
     then seqs [getFifoData LMS_CTRL_PACKET_SIZE, process_cmd, send_reply]
     else ret ())))"

definition DAC_VAL_ADDR :: u16 where "DAC_VAL_ADDR = 0x0010"
definition DAC_DEFF_VAL :: u8 where "DAC_DEFF_VAL = 134"

definition main_init :: "(fw, unit) prog" where
  "main_init =
     bnd (drv (IOWR LMS_CTR_GPIO_BASE 0 0x06)) (\<lambda>_.
     bnd (drv (IOWR LMS_CTR_GPIO_BASE 0 0x07)) (\<lambda>_.
     bnd (drv (I2C_init I2C_OPENCORES_0_BASE ALT_CPU_FREQ 400000)) (\<lambda>_.
     bnd (rd_dac_val DAC_VAL_ADDR) (\<lambda>eeprom_dac_val.
     bnd (modify (\<lambda>s. s\<lparr>dac_val := if eeprom_dac_val = 0xFFFF then DAC_DEFF_VAL else ucast eeprom_dac_val\<rparr>)) (\<lambda>_.
     bnd (Control_TCXO_ADF 0 []) (\<lambda>_.
     bnd (gets dac_val) (\<lambda>d.
     bnd (Control_TCXO_DAC 1 [d]) (\<lambda>_.
     bnd (spi_command SPI_FPGA_AS_BASE SPI_NR_FLASH [FLASH_CMD_READJEDECID] 3 0) (\<lambda>_.
     Configure_LM75)))))))))"

text \<open>
  \<open>main()\<close> never returns: its behaviour is the states reached at the head of the endless loop.
\<close>

inductive main_reaches :: "env \<Rightarrow> fw \<Rightarrow> bool" for env where
  main_start: "main_init env fw_boot = Inr ((), s) \<Longrightarrow> main_reaches env s"
| main_again: "main_reaches env s \<Longrightarrow> main_iter env s = Inr ((), s') \<Longrightarrow> main_reaches env s'"

section \<open>The contract of a command\<close>

text \<open>The packets whose byte and block counts stay within the data field.\<close>

definition packet_fits :: "fw \<Rightarrow> bool" where
  "packet_fits s \<longleftrightarrow>
     (rx_hdr HDR_COMMAND s = CMD_ANALOG_VAL_RD \<longrightarrow> unat (rx_hdr HDR_DATA_BLOCKS s) \<le> 14) \<and>
     (rx_hdr HDR_COMMAND s \<in> {CMD_MEMORY_WR, CMD_MEMORY_RD, CMD_ALTERA_FPGA_GW_WR} \<longrightarrow> unat (rx_count s) \<le> 32)"

lemma answered_unknown: "fw_ok s \<Longrightarrow> twp (set_status STATUS_UNKNOWN_CMD) env (\<lambda>_. answered s) F s"
  by (rule twp_status [OF kept_refl]) (auto simp: answered_def)

lemmas answered_handlers =
  answered_get_info answered_lms_rst answered_register_commands answered_adf4002_wr
  answered_analog_val_rd answered_analog_val_wr answered_gw answered_si5351_wr answered_si5351_rd
  answered_memory_wr answered_memory_rd answered_mcu answered_gpio

lemma answered_dispatch:
  assumes ok: "F Hang \<or> board_ok env \<and> rx_hdr HDR_COMMAND s \<noteq> CMD_LMS_MCU_FW_WR" and s: "fw_ok s"
    and fits: "F OutOfBounds \<or> packet_fits s"
  shows "twp dispatch env (\<lambda>_. answered s) F s"
proof -
  have "twp p env (\<lambda>_. answered s) F s" if "handler (rx_hdr HDR_COMMAND s) = Some p" for p
    using that ok s fits
    by (auto simp: handler_def packet_fits_def split: if_splits intro: answered_handlers)
  then show ?thesis
    unfolding dispatch_def
    by (intro twp_bnd twp_gets) (auto split: option.splits intro: answered_unknown s)
qed

text \<open>The reply: its header echoes the packet's, the rest of the buffers is in order.\<close>

definition replied :: "fw \<Rightarrow> fw \<Rightarrow> bool" where
  "replied s s' \<longleftrightarrow> fw_ok s' \<and> tx_hdr HDR_STATUS s' \<in> final_statuses \<and>
     (\<forall>i \<in> {HDR_COMMAND, HDR_DATA_BLOCKS, HDR_PERIPH_ID}. tx_hdr i s' = rx_hdr i s \<and> rx_hdr i s' = rx_hdr i s)"

lemma begin_reply_state:
  "wp begin_reply env Q F s = Q () (s\<lparr>cmd_errors := 0, glEp0Buffer_Tx := [rx_hdr HDR_COMMAND s, STATUS_BUSY_CMD,
      rx_hdr HDR_DATA_BLOCKS s, rx_hdr HDR_PERIPH_ID s] @ replicate 60 0\<rparr>)"
proof -
  have "replicate LMS_CTRL_PACKET_SIZE (0 :: u8) = 0 # 0 # 0 # 0 # replicate 60 0"
    by (simp add: LMS_CTRL_PACKET_SIZE_def numeral_eq_Suc)
  then show ?thesis
    unfolding begin_reply_def by (simp add: wp_simps rx_hdr_def protocol_defs)
qed

lemma twp_process_cmd:
  assumes ok: "F Hang \<or> board_ok env \<and> rx_hdr HDR_COMMAND s \<noteq> CMD_LMS_MCU_FW_WR" and s: "fw_ok s"
    and fits: "F OutOfBounds \<or> packet_fits s"
  shows "twp process_cmd env (\<lambda>_ acts s'. replied s s' \<and> tidy acts) F s"
proof -
  let ?t = "s\<lparr>cmd_errors := 0, glEp0Buffer_Tx := [rx_hdr HDR_COMMAND s, STATUS_BUSY_CMD,
      rx_hdr HDR_DATA_BLOCKS s, rx_hdr HDR_PERIPH_ID s] @ replicate 60 0\<rparr>"
  have t: "fw_ok ?t" using s by (simp add: fw_ok_def)
  have rx: "packet_fits ?t = packet_fits s" by (simp add: packet_fits_def rx_hdr_def rx_count_def)
  have hdr: "tx_hdr i ?t = rx_hdr i s" if "i \<in> {HDR_COMMAND, HDR_DATA_BLOCKS, HDR_PERIPH_ID}" for i
    using that by (auto simp: tx_hdr_def protocol_defs)
  have "twp dispatch env (\<lambda>_ acts s'. replied s s' \<and> tidy acts) F ?t"
  proof (rule twp_mono [OF answered_dispatch])
    fix acts s'
    assume a: "answered ?t acts s'"
    then have "kept ?t s'" by (simp add: answered_def)
    from kept_rx_hdr [OF this] have "rx_hdr i s' = rx_hdr i s" if "i < HDR_SIZE" for i
      using that by (simp add: rx_hdr_def)
    with a hdr show "replied s s' \<and> tidy acts"
      by (auto simp: answered_def replied_def kept_def)
  qed (use ok t fits rx in \<open>auto simp: rx_hdr_def\<close>)
  then show ?thesis
    unfolding process_cmd_def
    by (intro twp_seqs_Cons twp_silent [of begin_reply])
      (auto simp: begin_reply_state intro!: twp_bnd twp_ret elim!: twp_mono)
qed

section \<open>The reply on the FIFO\<close>

definition reply_acts :: "u8 list \<Rightarrow> act list" where
  "reply_acts tx = map (\<lambda>b. Out (IOADDR AV_FIFO_INT_0_BASE 0) (ucast b)) tx"

lemma tidy_Outs [simp]: "a \<in> plain_regs \<Longrightarrow> tidy (map (\<lambda>b. Out a (f b)) bs)"
  by (induction bs) auto

lemma tidy_Ins [simp]: "a \<in> plain_regs \<Longrightarrow> tidy (map (In a) bs)"
  by (induction bs) auto

lemma twp_send_reply:
  assumes "length (glEp0Buffer_Tx s) = 64"
    and "\<And>h. Q () (reply_acts (glEp0Buffer_Tx s)) (s\<lparr>hist := h\<rparr>)"
  shows "twp send_reply env Q F s"
proof -
  let ?tx = "glEp0Buffer_Tx s"
  have "twp (each [0..<64] (\<lambda>cnt. drv (IOWR AV_FIFO_INT_0_BASE 0 (ucast (?tx ! cnt))))) env Q F s"
  proof (rule twp_each [where I = "\<lambda>ys acts t. (\<exists>h. t = s\<lparr>hist := h\<rparr>) \<and> acts = reply_acts (take (length ys) ?tx)"])
    show "(\<exists>h. s = s\<lparr>hist := h\<rparr>) \<and> [] = reply_acts (take (length []) ?tx)"
      by (auto simp: reply_acts_def intro!: exI [of _ "hist s"])
  next
    fix ys x zs acts t
    assume xs: "[0..<64] = ys @ x # zs" and I: "(\<exists>h. t = s\<lparr>hist := h\<rparr>) \<and> acts = reply_acts (take (length ys) ?tx)"
    have "[0..<64] ! length ys = x" unfolding xs by simp
    moreover have "length ys < length [0..<64]" unfolding xs by simp
    ultimately have x: "x = length ys" "x < 64" by auto
    then have "reply_acts (take (Suc x) ?tx) = reply_acts (take x ?tx) @ [Out (IOADDR AV_FIFO_INT_0_BASE 0) (ucast (?tx ! x))]"
      using assms(1) by (simp add: reply_acts_def take_Suc_conv_app_nth)
    with I x show "twp (drv (IOWR AV_FIFO_INT_0_BASE 0 (ucast (?tx ! x)))) env
        (\<lambda>_ as t. (\<exists>h. t = s\<lparr>hist := h\<rparr>) \<and> acts @ as = reply_acts (take (length (ys @ [x])) ?tx)) F t"
      by (intro twp_intros) auto
  qed (use assms in auto)
  then show ?thesis unfolding send_reply_def by (intro twp_bnd twp_gets) simp
qed

section \<open>A round keeps the board in order\<close>

lemma twp_main_iter:
  assumes s: "fw_ok s" and hang: "F Hang" and oob: "F OutOfBounds"
  shows "twp main_iter env (\<lambda>_ acts s'. fw_ok s' \<and> tidy acts) F s"
proof -
  have packet: "twp (seqs [getFifoData LMS_CTRL_PACKET_SIZE, process_cmd, send_reply]) env
      (\<lambda>_ acts s'. fw_ok s' \<and> tidy acts) F s1" if "fw_ok s1" for s1
  proof (rule twp_seqs_Cons, rule twp_getFifoData)
    fix vs :: "u32 list" and h
    assume vs: "length vs = 64"
    have t: "fw_ok (s1\<lparr>hist := h, glEp0Buffer_Rx := map ucast vs\<rparr>)" using that vs by (simp add: fw_ok_def)
    show "twp (seqs [process_cmd, send_reply]) env
      (\<lambda>b bs s'. fw_ok s' \<and> tidy (map (In (IOADDR AV_FIFO_INT_0_BASE 1)) vs @ bs)) F
      (s1\<lparr>hist := h, glEp0Buffer_Rx := map ucast vs\<rparr>)"
      by (intro twp_seqs_Cons twp_mono [OF twp_process_cmd [OF _ t]] twp_send_reply twp_seqs_Nil)
        (use hang oob in \<open>auto simp: replied_def fw_ok_lengths reply_acts_def intro!: tidy_append\<close>)
  qed (use that in \<open>simp add: fw_ok_lengths\<close>)
  show ?thesis
    unfolding main_iter_def
    by (intro twp_bnd twp_IORD twp_set_led twp_if twp_ret twp_mono [OF packet]) (use s in auto)
qed

section \<open>Start-up\<close>

text \<open>The transfers of the initialisation, in order, with the bytes the EEPROM and the flash returned.\<close>

lemma twp_rd_dac_val:
  assumes "F Hang \<or> i2c_core_ok env I2C_OPENCORES_0_BASE"
    and "\<And>acts h v. tidy acts \<Longrightarrow> Q v acts (s\<lparr>hist := h\<rparr>)"
  shows "twp (rd_dac_val addr) env Q F s"
  unfolding rd_dac_val_def
  by (intro twp_intros assms(1)) (auto intro!: assms(2) simp: tidy_def i2c_whole_def)

lemma twp_Configure_LM75:
  assumes "F Hang \<or> i2c_core_ok env I2C_OPENCORES_0_BASE"
    and "\<And>acts h. tidy acts \<Longrightarrow> Q () acts (s\<lparr>hist := h\<rparr>)"
  shows "twp Configure_LM75 env Q F s"
  unfolding Configure_LM75_def
  by (intro twp_intros assms(1)) (auto intro!: assms(2) simp: tidy_def i2c_whole_def)

lemma twp_main_init:
  assumes ok: "F Hang \<or> board_ok env" and s: "fw_ok s"
  shows "twp main_init env (\<lambda>_ acts s'. fw_ok s' \<and> tidy acts) F s"
  unfolding main_init_def
  by (intro twp_bnd twp_IOWR twp_I2C_init twp_rd_dac_val twp_Configure_LM75 twp_Control_TCXO_ADF
      twp_Control_TCXO_DAC twp_spi_command twp_modify twp_gets)
    (use ok s in \<open>auto simp: spi_masks intro!: tidy_append tidy_Spi_Cons\<close>)

section \<open>Invariants of the running program\<close>

inductive_cases main_reachesE: "main_reaches env s"

text \<open>
  Whatever the hardware does: at the head of the main loop the data structures are in order, and
  the history is a sequence of complete transactions.
\<close>

lemma main_reaches_invariant:
  assumes "main_reaches env s"
  shows "fw_ok s \<and> (\<exists>acts. after env [] acts s \<and> tidy acts)"
  using assms
proof (induction rule: main_reaches.induct)
  case (main_start s)
  have "wp main_init env (\<lambda>_ s'. \<exists>acts. after env (hist fw_boot) acts s' \<and> fw_ok s' \<and> tidy acts) (\<lambda>_. True) fw_boot"
    using twp_main_init [of "\<lambda>_. True" env fw_boot] by (simp add: twp_after fw_ok_boot)
  from wp_returnD [OF this main_start] show ?case by (auto simp: fw_boot_def)
next
  case (main_again s s')
  then obtain acts where ok: "fw_ok s" and acts: "after env [] acts s" "tidy acts" by blast
  have "wp main_iter env (\<lambda>_ s'. \<exists>as. after env [] as s' \<and> (\<exists>bs. as = acts @ bs \<and> fw_ok s' \<and> tidy bs))
      (\<lambda>_. True) s"
    by (rule wp_after [OF acts(1)])
      (rule twp_mono [OF twp_main_iter [OF ok]], auto)
  from wp_returnD [OF this main_again(2)] obtain bs where
    "after env [] (acts @ bs) s'" "fw_ok s'" "tidy bs" by blast
  with acts(2) show ?case by (blast intro: tidy_append)
qed

end
