(* ===== verification/Command_Effects.thy ===== *)
theory Command_Effects
  imports Main_Loop
begin

text \<open>
  What one round of the main loop is, independently of the dispatcher's code: the packet it receives,
  the handler the protocol's command code names and the effect of the commands that are a fixed
  exchange, and the reply it sends.
\<close>

section \<open>What a command has to do\<close>

text \<open>
  The protocol's command codes, as the host sends them, and the handler of each.
\<close>

definition command_handlers :: "(u8 \<times> (fw, unit) prog) list" where
  "command_handlers =
     [(0x00, cmd_get_info), (0x13, cmd_si5351_wr), (0x14, cmd_si5351_rd), (0x20, cmd_lms_rst),
      (0x21, cmd_lms7002_wr), (0x22, cmd_lms7002_rd), (0x2C, cmd_lms_mcu_fw_wr), (0x31, cmd_adf4002_wr),
      (0x4F, cmd_gpio_dir_wr), (0x50, cmd_gpio_dir_rd), (0x51, cmd_gpio_wr), (0x52, cmd_gpio_rd),
      (0x53, cmd_altera_fpga_gw_wr), (0x55, cmd_brdspi16_wr), (0x56, cmd_brdspi16_rd),
      (0x61, cmd_analog_val_wr), (0x62, cmd_analog_val_rd), (0x8C, cmd_memory_wr), (0x8D, cmd_memory_rd)]"

lemma handler_of_code: "handler c = map_of command_handlers c"
  by (auto simp: handler_def command_handlers_def protocol_defs)

text \<open>
  The effect of the commands that are a fixed exchange: \<open>acts\<close> is what the command does to the board
  and \<open>s'\<close> holds its reply. Byte \<open>i\<close> of a packet's data is at \<open>HDR_SIZE + i\<close>; the block commands
  do nothing for a block count that does not fit.
\<close>

definition data_at :: "fw \<Rightarrow> nat \<Rightarrow> u8" where
  "data_at s i = glEp0Buffer_Rx s ! (HDR_SIZE + i)"

definition reply_at :: "fw \<Rightarrow> nat \<Rightarrow> nat \<Rightarrow> u8 list" where
  "reply_at s i n = take n (drop (HDR_SIZE + i) (glEp0Buffer_Tx s))"

definition reset_acts :: "u8 \<Rightarrow> act list" where
  "reset_acts mode =
     (if mode = 0 then [Out (IOADDR LMS_CTR_GPIO_BASE 0) 7]
      else if mode = 1 then [Out (IOADDR LMS_CTR_GPIO_BASE 0) 6]
      else if mode = 2 then [Out (IOADDR LMS_CTR_GPIO_BASE 0) 6, Nop 10, Out (IOADDR LMS_CTR_GPIO_BASE 0) 7]
      else [])"

definition fitting_blocks :: "fw \<Rightarrow> nat" where
  "fitting_blocks s = (let n = unat (rx_hdr HDR_DATA_BLOCKS s) in if n \<le> 14 then n else 0)"

definition fpga_register :: "u8 \<Rightarrow> fw \<Rightarrow> act list \<Rightarrow> fw \<Rightarrow> bool" where
  "fpga_register reg s acts s' \<longleftrightarrow>
     (\<exists>d0 d1. acts = [Spi SPI_LMS_BASE SPI_NR_FPGA [0x00, reg] [d0, d1] 0] \<and> reply_at s' 0 2 = [d1, d0])"

definition command_effect :: "u8 \<Rightarrow> fw \<Rightarrow> act list \<Rightarrow> fw \<Rightarrow> bool" where
  "command_effect c s acts s' \<longleftrightarrow>
     (c = 0x00 \<longrightarrow> acts = [] \<and> reply_at s' 0 5 = [7, 15, 1, 3, 0]) \<and>
     (c = 0x20 \<longrightarrow> acts = reset_acts (data_at s 0)) \<and>
     (c = 0x21 \<longrightarrow> acts = wr_acts SPI_NR_LMS7002M (fitting_blocks s) s) \<and>
     (c = 0x22 \<longrightarrow> (\<exists>ds. length ds = fitting_blocks s \<and> acts = rd_acts SPI_NR_LMS7002M ds s \<and> rd_reply ds s')) \<and>
     (c = 0x4F \<longrightarrow> acts = [Spi SPI_LMS_BASE SPI_NR_FPGA [0x80, 0xC4, data_at s 1, data_at s 0] [] 0]) \<and>
     (c = 0x50 \<longrightarrow> fpga_register 0xC4 s acts s') \<and>
     (c = 0x51 \<longrightarrow> acts = [Spi SPI_LMS_BASE SPI_NR_FPGA [0x80, 0xC6, data_at s 1, data_at s 0] [] 0]) \<and>
     (c = 0x52 \<longrightarrow> fpga_register 0xC2 s acts s') \<and>
     (c = 0x55 \<longrightarrow> acts = wr_acts SPI_NR_FPGA (fitting_blocks s) s) \<and>
     (c = 0x56 \<longrightarrow> (\<exists>ds. length ds = fitting_blocks s \<and> acts = rd_acts SPI_NR_FPGA ds s \<and> rd_reply ds s')) \<and>
     (c \<notin> fst ` set command_handlers \<longrightarrow> acts = [] \<and> tx_hdr HDR_STATUS s' = STATUS_UNKNOWN_CMD)"


text \<open>A handler's contract together with its effect.\<close>

definition effective :: "(fw, unit) prog \<Rightarrow> u8 \<Rightarrow> env \<Rightarrow> (fault \<Rightarrow> bool) \<Rightarrow> fw \<Rightarrow> bool" where
  "effective p c env F s \<longleftrightarrow> twp p env (\<lambda>_ acts s'. answered s acts s' \<and> command_effect c s acts s') F s"

lemma effective_other:
  assumes "twp p env (\<lambda>_. answered s) F s"
    and "c \<in> {0x13, 0x14, 0x2C, 0x31, 0x53, 0x61, 0x62, 0x8C, 0x8D}"
  shows "effective p c env F s"
  unfolding effective_def
  by (rule twp_mono [OF assms(1)]) (use assms(2) in \<open>auto simp: command_effect_def command_handlers_def\<close>)

lemma first_five:
  "length xs = 64 \<Longrightarrow> take 5 (drop 8 (xs[8 := a, 9 := b, 10 := c, 11 := d, 12 := e])) = [a, b, c, d, e]"
  by (rule nth_equalityI) (auto simp: less_Suc_eq numeral_eq_Suc nth_list_update)

lemma effective_others:
  assumes ok: "F Hang \<or> board_ok env" and s: "fw_ok s"
  shows "effective cmd_si5351_wr 0x13 env F s" "effective cmd_si5351_rd 0x14 env F s"
    "effective cmd_adf4002_wr 0x31 env F s" "effective cmd_analog_val_wr 0x61 env F s"
    "F Hang \<Longrightarrow> effective cmd_lms_mcu_fw_wr 0x2C env F s"
    "F OutOfBounds \<or> unat (rx_count s) \<le> 32 \<Longrightarrow> effective cmd_altera_fpga_gw_wr 0x53 env F s"
    "F OutOfBounds \<or> unat (rx_hdr HDR_DATA_BLOCKS s) \<le> 14 \<Longrightarrow> effective cmd_analog_val_rd 0x62 env F s"
    "F OutOfBounds \<or> unat (rx_count s) \<le> 32 \<Longrightarrow> effective cmd_memory_wr 0x8C env F s"
    "F OutOfBounds \<or> unat (rx_count s) \<le> 32 \<Longrightarrow> effective cmd_memory_rd 0x8D env F s"
  by (rule effective_other, (rule answered_handlers; use ok s in blast), simp)+

lemma effective_get_info: "fw_ok s \<Longrightarrow> effective cmd_get_info 0x00 env F s"
  unfolding effective_def cmd_get_info_def
  by (intro twp_intros twp_status [of s])
    (auto simp: kept_refl answered_def command_effect_def command_handlers_def reply_at_def fw_ok_lengths
      HDR_SIZE_def HDR_STATUS_def first_five FW_VER_def DEV_TYPE_def HW_VER_def EXP_BOARD_def LMS_PROTOCOL_VER_def)

lemma effective_lms_rst: "fw_ok s \<Longrightarrow> effective cmd_lms_rst 0x20 env F s"
  unfolding effective_def cmd_lms_rst_def
  by (intro twp_intros twp_status [of s])
    (auto simp: kept_refl answered_def command_effect_def command_handlers_def reset_acts_def data_at_def
      LMS_RST_DEACTIVATE_def LMS_RST_ACTIVATE_def LMS_RST_PULSE_def)

lemma effective_register:
  assumes ok: "F Hang \<or> board_ok env" and s: "fw_ok s"
  shows "effective cmd_lms7002_wr 0x21 env F s" "effective cmd_lms7002_rd 0x22 env F s"
    "effective cmd_brdspi16_wr 0x55 env F s" "effective cmd_brdspi16_rd 0x56 env F s"
  unfolding effective_def using ok
  by (rule_tac twp_register_commands; use ok s in \<open>auto simp: answered_def command_effect_def
      command_handlers_def fitting_blocks_def wr_acts_def rd_acts_def rd_reply_def\<close>)+

lemma effective_gpio_wr:
  assumes "F Hang \<or> board_ok env" and "fw_ok s"
  shows "effective cmd_gpio_dir_wr 0x4F env F s" "effective cmd_gpio_wr 0x51 env F s"
  unfolding effective_def cmd_gpio_dir_wr_def cmd_gpio_wr_def
  by (intro twp_intros twp_status [of s];
      use assms in \<open>auto simp: kept_refl answered_def command_effect_def command_handlers_def data_at_def
        sc_all_set fw_ok_lengths spi_masks\<close>)+

lemma sc_splice_2: "length sc = 4 \<Longrightarrow> splice 2 [d0, d1] (sc[0 := a, Suc 0 := b]) = [a, b, d0, d1]"
  by (rule nth_equalityI) (auto simp: less_Suc_eq numeral_eq_Suc nth_list_update)

lemma first_two: "length xs = 64 \<Longrightarrow> take 2 (drop HDR_SIZE (xs[HDR_SIZE := a, Suc HDR_SIZE := b])) = [a, b]"
  by (rule nth_equalityI) (auto simp: less_Suc_eq numeral_eq_Suc nth_list_update HDR_SIZE_def)

lemma sc_front: "length sc = 4 \<Longrightarrow> take 2 (sc[0 := a, Suc 0 := b]) = [a, b]"
  by (rule nth_equalityI) (auto simp: less_Suc_eq numeral_eq_Suc nth_list_update)

lemma length_two: "length d = 2 \<longleftrightarrow> (\<exists>d0 d1. d = [d0, d1])"
  by (auto simp: numeral_2_eq_2 length_Suc_conv)

lemma effective_gpio_rd:
  assumes "F Hang \<or> board_ok env" and "fw_ok s"
  shows "effective cmd_gpio_dir_rd 0x50 env F s" "effective cmd_gpio_rd 0x52 env F s"
  unfolding effective_def cmd_gpio_dir_rd_def cmd_gpio_rd_def
  by (intro twp_intros twp_status [of s];
      use assms in \<open>auto simp: kept_refl answered_def command_effect_def command_handlers_def fpga_register_def
        reply_at_def sc_splice_2 sc_front first_two length_two fw_ok_lengths spi_masks\<close>)+

lemma effective_unknown:
  "fw_ok s \<Longrightarrow> c \<notin> fst ` set command_handlers \<Longrightarrow> effective (set_status STATUS_UNKNOWN_CMD) c env F s"
  unfolding effective_def
  by (rule twp_status [OF kept_refl]) (auto simp: answered_def command_effect_def command_handlers_def)

lemma effective_handler:
  assumes ok: "F Hang \<or> board_ok env \<and> c \<noteq> CMD_LMS_MCU_FW_WR" and s: "fw_ok s"
    and fits: "F OutOfBounds \<or> packet_fits s" and c: "rx_hdr HDR_COMMAND s = c" "(c, p) \<in> set command_handlers"
  shows "effective p c env F s"
proof -
  have facts: "c = 0x62 \<longrightarrow> F OutOfBounds \<or> unat (rx_hdr HDR_DATA_BLOCKS s) \<le> 14"
    "c \<in> {0x53, 0x8C, 0x8D} \<longrightarrow> F OutOfBounds \<or> unat (rx_count s) \<le> 32"
    "F Hang \<or> board_ok env" "c = 0x2C \<longrightarrow> F Hang"
    using ok fits c(1) by (auto simp: packet_fits_def protocol_defs)
  note effects = effective_get_info [OF s] effective_lms_rst [OF s]
    effective_register [where F = F, OF facts(3) s] effective_gpio_wr [where F = F, OF facts(3) s]
    effective_gpio_rd [where F = F, OF facts(3) s] effective_others [where F = F, OF facts(3) s]
  have "list_all (\<lambda>(c', p'). c' = c \<longrightarrow> effective p' c' env F s) command_handlers"
    unfolding command_handlers_def list.pred_inject(2) prod.case
    by (intro conjI impI list.pred_inject(1); rule effects; use facts in simp)
  with c(2) show ?thesis by (auto simp: list_all_iff)
qed

lemma twp_dispatch_effect:
  assumes ok: "F Hang \<or> board_ok env \<and> rx_hdr HDR_COMMAND s \<noteq> CMD_LMS_MCU_FW_WR" and s: "fw_ok s"
    and fits: "F OutOfBounds \<or> packet_fits s"
  shows "effective dispatch (rx_hdr HDR_COMMAND s) env F s"
proof (cases "map_of command_handlers (rx_hdr HDR_COMMAND s)")
  case None
  then have "effective (set_status STATUS_UNKNOWN_CMD) (rx_hdr HDR_COMMAND s) env F s"
    by (intro effective_unknown s) (simp add: map_of_eq_None_iff)
  with None show ?thesis
    by (auto simp: effective_def dispatch_def handler_of_code intro!: twp_bnd twp_gets)
next
  case (Some p)
  then have "effective p (rx_hdr HDR_COMMAND s) env F s"
    by (intro effective_handler [OF ok s fits refl] map_of_SomeD)
  with Some show ?thesis
    by (auto simp: effective_def dispatch_def handler_of_code intro!: twp_bnd twp_gets)
qed

section \<open>From a packet to its reply\<close>

text \<open>The state in which a handler starts: the reply echoes the header and is marked busy.\<close>

definition prepared :: "fw \<Rightarrow> fw" where
  "prepared s = s\<lparr>cmd_errors := 0, glEp0Buffer_Tx := [rx_hdr HDR_COMMAND s, STATUS_BUSY_CMD,
     rx_hdr HDR_DATA_BLOCKS s, rx_hdr HDR_PERIPH_ID s] @ replicate 60 0\<rparr>"

text \<open>
  \<open>carried_out env s acts s'\<close>: from the received packet in \<open>s\<close>, exactly the handler of its command code
  ran, from the prepared reply, did \<open>acts\<close> to the board and left the reply in \<open>s'\<close>.
\<close>

definition carried_out :: "env \<Rightarrow> fw \<Rightarrow> act list \<Rightarrow> fw \<Rightarrow> bool" where
  "carried_out env s acts s' \<longleftrightarrow>
     (case map_of command_handlers (rx_hdr HDR_COMMAND s) of
        Some p \<Rightarrow> performs env p (prepared s) acts () s'
      | None \<Rightarrow> s' = (prepared s)\<lparr>glEp0Buffer_Tx := (glEp0Buffer_Tx (prepared s))[HDR_STATUS := STATUS_UNKNOWN_CMD]\<rparr>) \<and>
     command_effect (rx_hdr HDR_COMMAND s) (prepared s) acts s'"

lemma prepared_simps [simp]:
  "rx_hdr i (prepared s) = rx_hdr i s" "rx_count (prepared s) = rx_count s"
  "packet_fits (prepared s) = packet_fits s" "hist (prepared s) = hist s"
  "fw_ok s \<Longrightarrow> fw_ok (prepared s)"
  "i \<in> {HDR_COMMAND, HDR_DATA_BLOCKS, HDR_PERIPH_ID} \<Longrightarrow> tx_hdr i (prepared s) = rx_hdr i s"
  by (auto simp: prepared_def rx_hdr_def rx_count_def packet_fits_def fw_ok_def tx_hdr_def protocol_defs)

lemma process_cmd_dispatch: "process_cmd env s = dispatch env (prepared s)"
proof -
  have "begin_reply env s = Inr ((), prepared s)"
    using begin_reply_state [of env "\<lambda>_ s'. s' = prepared s" "\<lambda>_. False" s]
    by (auto simp: wp_def prepared_def split: sum.splits)
  then show ?thesis
    by (auto simp: process_cmd_def bnd_def ret_def split: sum.splits prod.splits)
qed

lemma dispatch_handler:
  "dispatch env s = (case map_of command_handlers (rx_hdr HDR_COMMAND s) of Some p \<Rightarrow> p env s
     | None \<Rightarrow> Inr ((), s\<lparr>glEp0Buffer_Tx := (glEp0Buffer_Tx s)[HDR_STATUS := STATUS_UNKNOWN_CMD]\<rparr>))"
  by (auto simp: dispatch_def handler_of_code bnd_def gets_def set_status_def set_tx_hdr_def modify_def
      split: option.splits)

lemma wp_process_cmd:
  assumes ok: "F Hang \<or> board_ok env \<and> rx_hdr HDR_COMMAND s \<noteq> CMD_LMS_MCU_FW_WR" and s: "fw_ok s"
    and fits: "F OutOfBounds \<or> packet_fits s"
    and Q: "\<And>acts s'. carried_out env s acts s' \<Longrightarrow> tidy acts \<Longrightarrow> replied s s' \<Longrightarrow> Q () s'"
  shows "wp process_cmd env Q F s"
proof -
  let ?t = "prepared s" let ?c = "rx_hdr HDR_COMMAND s"
  have "twp dispatch env (\<lambda>_ acts s'. answered ?t acts s' \<and> command_effect ?c ?t acts s') F ?t"
    using twp_dispatch_effect [of F env ?t] ok s fits by (simp add: effective_def)
  then have "wp dispatch env (\<lambda>_ s'. \<exists>acts es. hist s' = hist ?t @ es \<and> does env acts es \<and>
      answered ?t acts s' \<and> command_effect ?c ?t acts s') F ?t"
    by (simp add: twp_def)
  then have "wp dispatch env (\<lambda>_ s'. dispatch env ?t = Inr ((), s') \<longrightarrow> Q () s') F ?t"
  proof (rule wp_mono)
    fix a s'
    assume "\<exists>acts es. hist s' = hist ?t @ es \<and> does env acts es \<and>
      answered ?t acts s' \<and> command_effect ?c ?t acts s'"
    then obtain acts es where es: "hist s' = hist ?t @ es" "does env acts es"
      and a: "answered ?t acts s'" "command_effect ?c ?t acts s'" by blast
    have kept: "kept ?t s'" "tidy acts" "tx_hdr HDR_STATUS s' \<in> final_statuses"
      using a(1) by (simp_all add: answered_def)
    from kept_rx_hdr [OF kept(1)] kept have "replied s s'"
      by (auto simp: replied_def kept_def)
    moreover have "carried_out env s acts s'" if "dispatch env ?t = Inr ((), s')"
      using that es a(2) unfolding carried_out_def dispatch_handler
      by (auto simp: performs_def split: option.splits)
    ultimately show "dispatch env ?t = Inr ((), s') \<longrightarrow> Q () s'" using kept(2) Q by blast
  qed simp
  then show ?thesis by (auto simp: wp_def process_cmd_dispatch split: sum.splits)
qed

section \<open>One round of the main loop\<close>

text \<open>
  The first three accesses of a round: the switches, the LEDs and the FIFO's status; then the state
  after the 64 loads that take a packet out of the FIFO; and the reply's way back.
\<close>

definition looked :: "env \<Rightarrow> fw \<Rightarrow> history" where
  "looked env s = (let sw = env (hist s) (IOADDR SWITCH_BASE 0) in
     hist s @ [Rd (IOADDR SWITCH_BASE 0) sw, Wr (IOADDR LEDS_BASE 0) (ucast (push_bit 3 (ucast sw :: u8)))])"

definition fifo_status :: "env \<Rightarrow> fw \<Rightarrow> u32" where
  "fifo_status env s = env (looked env s) (IOADDR AV_FIFO_INT_0_BASE 2)"

definition fifo_looked :: "env \<Rightarrow> fw \<Rightarrow> fw" where
  "fifo_looked env s = s\<lparr>hist := looked env s @ [Rd (IOADDR AV_FIFO_INT_0_BASE 2) (fifo_status env s)]\<rparr>"

definition received :: "env \<Rightarrow> fw \<Rightarrow> fw" where
  "received env s = (let t = fifo_looked env s; fifo = IOADDR AV_FIFO_INT_0_BASE 1 in
     t\<lparr>hist := polls env fifo 64 (hist t),
       glEp0Buffer_Rx := map (\<lambda>i. ucast (env (polls env fifo i (hist t)) fifo)) [0..<64]\<rparr>)"

definition sent_back :: "fw \<Rightarrow> fw" where
  "sent_back s = s\<lparr>hist := hist s @ map (\<lambda>b. Wr (IOADDR AV_FIFO_INT_0_BASE 0) (ucast b)) (glEp0Buffer_Tx s)\<rparr>"

lemma collect_IORD:
  "collect xs (\<lambda>_. IORD base r) env h =
     Inr (map (\<lambda>i. env (polls env (IOADDR base r) i h) (IOADDR base r)) [0..<length xs],
          polls env (IOADDR base r) (length xs) h)"
proof (induction xs arbitrary: h)
  case (Cons x xs)
  have "[0..<Suc (length xs)] = 0 # map Suc [0..<length xs]"
    by (metis map_Suc_upt upt_conv_Cons zero_less_Suc)
  with Cons show ?case
    by (simp add: IORD_def rd_at_def bnd_def ret_def o_def del: upt_Suc)
qed (simp add: ret_def)

lemma wp_getFifoData:
  assumes "length (glEp0Buffer_Rx s) = 64"
  shows "wp (getFifoData LMS_CTRL_PACKET_SIZE) env Q F s =
    Q () (s\<lparr>hist := polls env (IOADDR AV_FIFO_INT_0_BASE 1) 64 (hist s),
      glEp0Buffer_Rx := map (\<lambda>i. ucast (env (polls env (IOADDR AV_FIFO_INT_0_BASE 1) i (hist s))
        (IOADDR AV_FIFO_INT_0_BASE 1))) [0..<64]\<rparr>)"
  unfolding getFifoData_def wp_bnd wp_drv
  by (simp add: wp_def [of "collect _ _"] collect_IORD wp_simps LMS_CTRL_PACKET_SIZE_def o_def
      splice_take_drop assms del: upt.simps)

lemma wp_each_IOWR:
  "wp (each xs (\<lambda>i. drv (IOWR base r (f i)))) env Q F s =
     Q () (s\<lparr>hist := hist s @ map (\<lambda>i. Wr (IOADDR base r) (f i)) xs\<rparr>)"
  by (induction xs arbitrary: s) (simp_all add: wp_simps)

lemma wp_send_reply:
  assumes "length (glEp0Buffer_Tx s) = 64"
  shows "wp send_reply env Q F s = Q () (sent_back s)"
proof -
  have "map (\<lambda>i. Wr (IOADDR AV_FIFO_INT_0_BASE 0) (ucast (glEp0Buffer_Tx s ! i))) [0..<64] =
      map (\<lambda>b. Wr (IOADDR AV_FIFO_INT_0_BASE 0) (ucast b)) (glEp0Buffer_Tx s)"
    by (rule nth_equalityI) (simp_all add: assms)
  then show ?thesis by (simp add: send_reply_def wp_simps wp_each_IOWR sent_back_def)
qed

lemma wp_main_iter:
  assumes "fw_ok s"
  shows "wp main_iter env Q F s =
    (if fifo_status env s AND 1 = 0
     then wp process_cmd env (\<lambda>_. wp send_reply env Q F) F (received env s)
     else Q () (fifo_looked env s))"
  using assms
  by (simp add: main_iter_def wp_simps wp_getFifoData fw_ok_lengths set_led_def fifo_status_def looked_def
      fifo_looked_def received_def Let_def del: upt.simps)

lemma fw_ok_received: "fw_ok s \<Longrightarrow> fw_ok (received env s)"
  by (simp add: fw_ok_def received_def fifo_looked_def Let_def del: upt.simps)

end
