(* ===== verification/Bench.thy ===== *)
theory Bench
  imports Main_Loop
begin

text \<open>
  A board that keeps its documented protocol, for the concrete instances of the properties: the SPI
  cores are always ready and have received a byte as soon as one was sent, I2C transfers are over at
  once and acknowledged, and every other register answers as the parameter \<open>dat\<close> says.
\<close>

definition bench :: "env \<Rightarrow> env" where
  "bench dat h a =
     (case find (\<lambda>b. a = IOADDR b SPI_STATUS) [SPI_LMS_BASE, SPI_1_BASE, SPI_1_ADF4002_BASE, SPI_FPGA_AS_BASE] of
        Some b \<Rightarrow> if spi_pending b h = 0 then 0x60 else 0xE0
      | None \<Rightarrow> if a = IOADDR I2C_OPENCORES_0_BASE I2C_SR then 0 else dat h a)"

lemma bench_spi:
  "base \<in> spi_bases \<Longrightarrow> bench dat h (IOADDR base SPI_STATUS) = (if spi_pending base h = 0 then 0x60 else 0xE0)"
  unfolding bench_def spi_bases_def by (auto simp: IOADDR_def address_map)

lemma bench_i2c: "bench dat h (IOADDR I2C_OPENCORES_0_BASE I2C_SR) = 0"
  unfolding bench_def by (auto simp: IOADDR_def address_map)

lemma bench_other:
  "(\<And>b. b \<in> spi_bases \<Longrightarrow> a \<noteq> IOADDR b SPI_STATUS) \<Longrightarrow> a \<noteq> IOADDR I2C_OPENCORES_0_BASE I2C_SR \<Longrightarrow>
   bench dat h a = dat h a"
  unfolding bench_def spi_bases_def by auto

lemma bench_core_ok: "base \<in> spi_bases \<Longrightarrow> spi_core_ok (bench dat) base"
  by (auto simp: spi_core_ok_def bench_spi spi_masks intro!: eventually_reads_now split: if_splits)

lemma board_ok_bench: "board_ok (bench dat)"
  unfolding board_ok_def i2c_core_ok_def
  by (auto intro!: bench_core_ok eventually_reads_now simp: bench_i2c)

text \<open>A packet with the given header and the start of the data field, in a freshly started program.\<close>

definition pad :: "nat \<Rightarrow> u8 list \<Rightarrow> u8 list" where
  "pad n xs = take n (xs @ replicate n 0)"

definition with_packet :: "u8 list \<Rightarrow> u8 list \<Rightarrow> fw" where
  "with_packet hdr dat = fw_boot\<lparr>glEp0Buffer_Rx := pad 8 hdr @ pad 56 dat\<rparr>"

lemma length_pad [simp]: "length (pad n xs) = n"
  by (simp add: pad_def)

lemma nth_pad: "i < n \<Longrightarrow> pad n xs ! i = (if i < length xs then xs ! i else 0)"
  by (simp add: pad_def nth_append)

lemma fw_ok_with_packet [simp]: "fw_ok (with_packet hdr dat)"
  by (simp add: with_packet_def fw_ok_def fw_boot_def)

lemma rx_hdr_with_packet: "i < 8 \<Longrightarrow> rx_hdr i (with_packet hdr dat) = (if i < length hdr then hdr ! i else 0)"
  by (simp add: rx_hdr_def with_packet_def nth_append nth_pad)

lemma rx_byte_with_packet:
  "i < 56 \<Longrightarrow> glEp0Buffer_Rx (with_packet hdr dat) ! (HDR_SIZE + i) = (if i < length dat then dat ! i else 0)"
  by (simp add: with_packet_def nth_append nth_pad HDR_SIZE_def)

lemma rx_drop_with_packet: "drop (HDR_SIZE + i) (glEp0Buffer_Rx (with_packet hdr dat)) = drop i (pad 56 dat)"
  by (simp add: with_packet_def HDR_SIZE_def)

lemma rx_block_with_packet: "rx_block n j (with_packet hdr dat) = take n (drop (j * n) (pad 56 dat))"
  by (simp add: rx_block_def rx_drop_with_packet)

lemma rx_count_with_packet: "rx_count (with_packet hdr dat) = (if 5 < length dat then dat ! 5 else 0)"
  unfolding rx_count_def by (rule rx_byte_with_packet) simp

lemma hist_with_packet [simp]: "hist (with_packet hdr dat) = []"
  by (simp add: with_packet_def fw_boot_def)

lemmas with_packet_simps = rx_hdr_with_packet rx_count_with_packet rx_drop_with_packet rx_block_with_packet
  rx_byte_with_packet pad_def

end
