(* ===== verification/Commands.thy ===== *)
theory Commands
  imports Bench
begin

text \<open>
  What single commands put on the wires and into the reply, exactly: register access over SPI, the
  refusal of packets with too many blocks, the consequences of the counts that are not checked,
  EEPROM access over I2C, the converters and the GPIO registers.
\<close>

section \<open>Register access over SPI\<close>

lemma wr_acts_unmerged [simp]: "list_all unmerged (wr_acts slave n s)" "list_all unmerged (rd_acts slave ds s)"
  by (auto simp: wr_acts_def rd_acts_def list_all_iff)

lemma slave_numbers [simp]: "unat SPI_NR_LMS7002M = 0" "unat SPI_NR_FPGA = 1" "unat SPI_NR_DAC = 0"
  "unat SPI_NR_ADF4002 = 0" "unat SPI_NR_FLASH = 0"
  by (simp_all add: SPI_NR_LMS7002M_def SPI_NR_FPGA_def SPI_NR_DAC_def SPI_NR_ADF4002_def SPI_NR_FLASH_def)

text \<open>The received bytes of a burst of reads are all there is on the core's receive register.\<close>

lemma miso_spi_call:
  assumes "spi_core_ok env base" "spi_call env base slave w d 0 es" "d \<noteq> []"
  shows "length (spi_miso base es) = Suc (length w + length d)" "drop (Suc (length w)) (spi_miso base es) = d"
proof -
  have d: "d = drop (length w) (tl (spi_miso base es))" using assms(1,2) by (simp add: spi_call_def)
  then have "length (tl (spi_miso base es)) - length w = length d" by simp
  moreover have "length d > 0" using assms(3) by simp
  ultimately have "length (tl (spi_miso base es)) = length w + length d" by linarith
  with \<open>length d > 0\<close> show "length (spi_miso base es) = Suc (length w + length d)" by (cases "spi_miso base es") auto
  show "drop (Suc (length w)) (spi_miso base es) = d" using d by (simp add: drop_Suc)
qed

lemma miso_reads:
  assumes ok: "spi_core_ok env SPI_LMS_BASE"
    and w: "\<And>j. j < length ds \<Longrightarrow> length (w j) = 2" and d: "\<And>j. j < length ds \<Longrightarrow> length (ds ! j) = 2"
    and es: "does env (map (\<lambda>j. Spi SPI_LMS_BASE slave (w j) (ds ! j) 0) [0..<length ds]) es"
  shows "j < length ds \<Longrightarrow> ds ! j = take 2 (drop (5 * j + 3) (spi_miso SPI_LMS_BASE es))"
  using w d es
proof (induction ds arbitrary: w es j)
  case (Cons d' ds)
  let ?m = "spi_miso SPI_LMS_BASE"
  have shift: "map (\<lambda>j. Spi SPI_LMS_BASE slave (w j) ((d' # ds) ! j) 0) [0..<length (d' # ds)] =
     Spi SPI_LMS_BASE slave (w 0) d' 0 # map (\<lambda>j. Spi SPI_LMS_BASE slave (w (Suc j)) (ds ! j) 0) [0..<length ds]"
    by (simp add: upt_conv_Cons map_Suc_upt [symmetric] del: upt_Suc)
  from Cons.prems(4) obtain es1 es2 where es: "es = es1 @ es2"
    "spi_call env SPI_LMS_BASE slave (w 0) d' 0 es1"
    "does env (map (\<lambda>j. Spi SPI_LMS_BASE slave (w (Suc j)) (ds ! j) 0) [0..<length ds]) es2"
    unfolding shift by auto
  have d': "length d' = 2" "d' \<noteq> []" using Cons.prems(3) [of 0] by auto
  note m = miso_spi_call [OF ok es(2) d'(2), unfolded Cons.prems(2) [of 0, simplified] d'(1), simplified]
  show ?case
  proof (cases j)
    case 0
    have "drop 3 (?m es1) = d'" using m(2) by (simp add: numeral_eq_Suc)
    with m(1) d' 0 show ?thesis by (simp add: es(1))
  next
    case (Suc i)
    have "ds ! i = take 2 (drop (5 * i + 3) (?m es2))"
      by (rule Cons.IH [of i "\<lambda>j. w (Suc j)"]) (use Suc Cons.prems es(3) in force)+
    with Suc m(1) show ?thesis by (simp add: es(1) add.commute)
  qed
qed simp

text \<open>
  C7: \<open>CMD_LMS7002_WR\<close> with \<open>n\<close> blocks that fit puts exactly \<open>n\<close> transactions on the chip's select
  line, in order, each the four bytes of its block with the write bit set, and reports success.
\<close>

lemma lms7002_write_wire:
  assumes "board_ok env" "fw_ok s" "line_cs (spi_wire SPI_LMS_BASE (hist s)) = None"
    and "unat (rx_hdr HDR_DATA_BLOCKS s) \<le> 14"
  shows "\<exists>s'. cmd_lms7002_wr env s = Inr ((), s') \<and> tx_hdr HDR_STATUS s' = STATUS_COMPLETED_CMD \<and>
     line_cs (spi_wire SPI_LMS_BASE (hist s')) = None \<and>
     line_txns (spi_wire SPI_LMS_BASE (hist s')) = line_txns (spi_wire SPI_LMS_BASE (hist s)) @
       map (\<lambda>j. (1, write_word (rx_block 4 j s))) [0..<unat (rx_hdr HDR_DATA_BLOCKS s)]"
proof -
  let ?n = "unat (rx_hdr HDR_DATA_BLOCKS s)"
  have "twp cmd_lms7002_wr env (\<lambda>_ acts s'. acts = wr_acts SPI_NR_LMS7002M ?n s \<and>
      tx_hdr HDR_STATUS s' = STATUS_COMPLETED_CMD) (\<lambda>_. False) s"
    by (rule twp_register_commands) (use assms in auto)
  from twp_unitD [OF this] obtain s' where p: "performs env cmd_lms7002_wr s (wr_acts SPI_NR_LMS7002M ?n s) () s'"
    and st: "tx_hdr HDR_STATUS s' = STATUS_COMPLETED_CMD" by blast
  from performs_txns [OF assms(1) p _ _ _ assms(3)] st p show ?thesis
    by (auto simp: performs_def tidy_board) (simp add: wr_acts_def)
qed

lemma lms7002_write_wire_witness:
  "\<exists>s'. cmd_lms7002_wr (bench (\<lambda>_ _. 0)) (with_packet [0x21, 0, 2] [0x00, 0x20, 0x12, 0x34, 0x01, 0x0A, 0xBE, 0xEF]) = Inr ((), s') \<and>
     line_txns (spi_wire SPI_LMS_BASE (hist s')) = [(1, [0x80, 0x20, 0x12, 0x34]), (1, [0x81, 0x0A, 0xBE, 0xEF])]"
  using lms7002_write_wire [OF board_ok_bench fw_ok_with_packet,
      of "[0x21, 0, 2]" "[0x00, 0x20, 0x12, 0x34, 0x01, 0x0A, 0xBE, 0xEF]" "\<lambda>_ _. 0"]
  by (auto simp: with_packet_simps protocol_defs numeral_2_eq_2 [symmetric] upt_rec spi_wire_def)

text \<open>
  C8: \<open>CMD_BRDSPI16_RD\<close> puts one transaction per block on the FPGA's select line, register address
  with the write bit clear and two zero bytes, and the two bytes the core received during
  block \<open>j\<close> are what the reply carries at \<open>2 + 4 * j\<close>.
\<close>

lemma brdspi16_read_wire:
  assumes "board_ok env" "fw_ok s" "line_cs (spi_wire SPI_LMS_BASE (hist s)) = None"
    and "unat (rx_hdr HDR_DATA_BLOCKS s) \<le> 14"
  shows "\<exists>s' es. cmd_brdspi16_rd env s = Inr ((), s') \<and> tx_hdr HDR_STATUS s' = STATUS_COMPLETED_CMD \<and>
     line_cs (spi_wire SPI_LMS_BASE (hist s')) = None \<and>
     line_txns (spi_wire SPI_LMS_BASE (hist s')) = line_txns (spi_wire SPI_LMS_BASE (hist s)) @
       map (\<lambda>j. (2, read_word (rx_block 2 j s) @ [0, 0])) [0..<unat (rx_hdr HDR_DATA_BLOCKS s)] \<and>
     hist s' = hist s @ es \<and>
     (\<forall>j < unat (rx_hdr HDR_DATA_BLOCKS s). take 2 (drop (HDR_SIZE + (2 + j * 4)) (glEp0Buffer_Tx s')) =
        take 2 (drop (5 * j + 3) (spi_miso SPI_LMS_BASE es)))"
proof -
  let ?n = "unat (rx_hdr HDR_DATA_BLOCKS s)"
  have "twp cmd_brdspi16_rd env (\<lambda>_ acts s'. \<exists>ds. acts = rd_acts SPI_NR_FPGA ds s \<and> length ds = ?n \<and>
      list_all (\<lambda>d. length d = 2) ds \<and> rd_reply ds s' \<and> tx_hdr HDR_STATUS s' = STATUS_COMPLETED_CMD) (\<lambda>_. False) s"
  proof (rule twp_register_commands)
    fix s' and ds :: "u8 list list"
    assume a: "length ds = ?n" "rd_reply ds s'" "tx_hdr HDR_STATUS s' = STATUS_COMPLETED_CMD" "kept s s'"
    have "length (ds ! j) = 2" if "j < length ds" for j
    proof -
      have "ds ! j = take 2 (drop (HDR_SIZE + (2 + j * 4)) (glEp0Buffer_Tx s'))"
        using a(2) that by (simp add: rd_reply_def)
      moreover have "length (glEp0Buffer_Tx s') = 64" using a(4) by (simp add: kept_def fw_ok_def)
      moreover have "j \<le> 13" using that a(1) assms(4) by linarith
      ultimately show ?thesis by (simp add: HDR_SIZE_def)
    qed
    with a show "\<exists>ds'. rd_acts SPI_NR_FPGA ds s = rd_acts SPI_NR_FPGA ds' s \<and> length ds' = ?n \<and>
      list_all (\<lambda>d. length d = 2) ds' \<and> rd_reply ds' s' \<and> tx_hdr HDR_STATUS s' = STATUS_COMPLETED_CMD"
      by (auto simp: list_all_length)
  qed (use assms in auto)
  from twp_unitD [OF this] obtain s' ds where p: "performs env cmd_brdspi16_rd s (rd_acts SPI_NR_FPGA ds s) () s'"
    and ds: "length ds = ?n" "\<And>j. j < length ds \<Longrightarrow> length (ds ! j) = 2" "rd_reply ds s'"
    and st: "tx_hdr HDR_STATUS s' = STATUS_COMPLETED_CMD" by (auto simp: list_all_length)
  from p obtain es where es: "hist s' = hist s @ es" "does env (rd_acts SPI_NR_FPGA ds s) es"
    "cmd_brdspi16_rd env s = Inr ((), s')" by (auto simp: performs_def)
  have w: "length (read_word (rx_block 2 j s)) = 2" if "j < length ds" for j
  proof -
    have "j < 14" using that ds(1) assms(4) by (metis less_le_trans)
    then have "(j + 1) * 2 \<le> 56" by simp
    from length_rx_block [OF assms(2) this] show ?thesis by (cases "rx_block 2 j s") auto
  qed
  have lms: "spi_core_ok env SPI_LMS_BASE" using board_okD [OF assms(1)] by simp
  have miso: "ds ! j = take 2 (drop (5 * j + 3) (spi_miso SPI_LMS_BASE es))" if "j < length ds" for j
    by (rule miso_reads [OF lms w ds(2) es(2) [unfolded rd_acts_def] that])
  have sp: "spi_part SPI_LMS_BASE (rd_acts SPI_NR_FPGA ds s) = map (\<lambda>j. (2, read_word (rx_block 2 j s) @ [0, 0])) [0..<?n]"
    using ds(1,2) by (auto simp: rd_acts_def numeral_2_eq_2)
  from performs_txns [OF assms(1) p _ _ _ assms(3)] st es ds(1,3) sp miso show ?thesis
    by (auto simp: tidy_board rd_reply_def)
qed

lemma brdspi16_read_wire_witness:
  "\<exists>s'. cmd_brdspi16_rd (bench (\<lambda>_ _. 0x5A)) (with_packet [0x56, 0, 1] [0x80, 0xC2]) = Inr ((), s') \<and>
     line_txns (spi_wire SPI_LMS_BASE (hist s')) = [(2, [0x00, 0xC2, 0, 0])]"
  using brdspi16_read_wire [OF board_ok_bench fw_ok_with_packet,
      of "[0x56, 0, 1]" "[0x80, 0xC2]" "\<lambda>_ _. 0x5A"]
  by (auto simp: with_packet_simps protocol_defs upt_rec spi_wire_def)

section \<open>Block counts\<close>

text \<open>The commands that check their block count, with the size of a block.\<close>

definition checked_commands :: "((fw, unit) prog \<times> nat) list" where
  "checked_commands =
     [(cmd_lms7002_wr, 4), (cmd_lms7002_rd, 4), (cmd_brdspi16_wr, 4), (cmd_brdspi16_rd, 4),
      (cmd_adf4002_wr, 3), (cmd_analog_val_wr, 4), (cmd_si5351_wr, 2), (cmd_si5351_rd, 2)]"

text \<open>
  C13: a packet that announces more blocks than fit its 56 data bytes is refused by every command
  that checks: no register is touched, on any hardware, and only the reply's status byte changes.
\<close>

lemma too_many_blocks_refused:
  assumes "(p, n) \<in> set checked_commands" "56 div n < unat (rx_hdr HDR_DATA_BLOCKS s)"
  shows "p env s = Inr ((), s\<lparr>glEp0Buffer_Tx := (glEp0Buffer_Tx s)[HDR_STATUS := STATUS_BLOCKS_ERROR_CMD]\<rparr>)"
  using assms
  by (auto simp: checked_commands_def cmd_lms7002_wr_def cmd_lms7002_rd_def cmd_brdspi16_wr_def cmd_brdspi16_rd_def
      cmd_adf4002_wr_def cmd_analog_val_wr_def cmd_si5351_wr_def cmd_si5351_rd_def Check_many_blocks_def
      set_status_def set_tx_hdr_def bnd_def gets_def ret_def modify_def HDR_SIZE_def DATA_FIELD_SIZE_def LMS_CTRL_PACKET_SIZE_def)

lemma too_many_blocks_refused_witness:
  "(cmd_si5351_wr, 2) \<in> set checked_commands \<and>
   cmd_si5351_wr (\<lambda>_ _. 0) (with_packet [0x13, 0, 29] []) =
     Inr ((), (with_packet [0x13, 0, 29] [])\<lparr>glEp0Buffer_Tx := (replicate 64 0)[1 := 4]\<rparr>)"
proof -
  have m: "(cmd_si5351_wr, 2) \<in> set checked_commands" by (simp add: checked_commands_def)
  from too_many_blocks_refused [OF m, of "with_packet [0x13, 0, 29] []" "\<lambda>_ _. 0"] m
  show ?thesis by (simp add: with_packet_simps protocol_defs) (simp add: with_packet_def fw_boot_def)
qed

section \<open>Counts that are not checked\<close>

lemma twp_analog_rd_block:
  assumes "F Hang \<or> board_ok env" and "fw_ok s"
    and over: "i < 14 \<or> (glEp0Buffer_Rx s ! (HDR_SIZE + i) \<in> {0, 1} \<and> F OutOfBounds)" "i < 56"
    and Q: "\<And>acts u. i < 14 \<Longrightarrow> fw_ok u \<Longrightarrow> block u = block s \<Longrightarrow> glEp0Buffer_Rx u = glEp0Buffer_Rx s \<Longrightarrow> Q () acts u"
  shows "twp (analog_rd_block i) env Q F s"
proof (cases "i < 14")
  case True
  show ?thesis
    unfolding analog_rd_block_def
    by (intro twp_intros) (use True assms in \<open>auto simp: fw_ok_def intro!: Q\<close>)
next
  case False
  with over show ?thesis
    unfolding analog_rd_block_def
    by (intro twp_intros) (use False assms(1) in auto)
qed

text \<open>
  C22: \<open>CMD_ANALOG_VAL_RD\<close> lacks the check of the block count: with more than 14 blocks and a known
  channel in the fifteenth the reply buffer is overrun.
\<close>

lemma analog_val_rd_overrun:
  assumes "board_ok env" "fw_ok s" "14 < unat (rx_hdr HDR_DATA_BLOCKS s)"
    and "glEp0Buffer_Rx s ! (HDR_SIZE + 14) \<in> {0, 1}"
  shows "cmd_analog_val_rd env s = Inl OutOfBounds"
proof -
  let ?I = "\<lambda>i (acts :: act list) t. i \<le> 14 \<and> fw_ok t \<and> glEp0Buffer_Rx t = glEp0Buffer_Rx s"
  have "twp (for_blocks analog_rd_block) env (\<lambda>_ _ _. False) (\<lambda>f. f = OutOfBounds) s"
  proof (rule twp_for_blocks [where I = ?I, OF _ refl])
    fix i acts t
    assume i: "i < unat (rx_hdr HDR_DATA_BLOCKS s)" and t: "?I i acts t"
    show "twp (analog_rd_block i) env
       (\<lambda>_ as u. block u = block t \<and> rx_hdr HDR_DATA_BLOCKS u = rx_hdr HDR_DATA_BLOCKS s \<and>
          ?I (Suc i) (acts @ as) (u\<lparr>block := block u + 1\<rparr>)) (\<lambda>f. f = OutOfBounds) t"
    proof (rule twp_analog_rd_block)
      show "i < 14 \<or> glEp0Buffer_Rx t ! (HDR_SIZE + i) \<in> {0, 1} \<and> OutOfBounds = OutOfBounds"
        using t assms(4) by (cases "i = 14") auto
    qed (use t assms(1) in \<open>auto simp: rx_hdr_def fw_ok_def\<close>)
  qed (use assms in auto)
  then have "twp cmd_analog_val_rd env (\<lambda>_ _ _. False) (\<lambda>f. f = OutOfBounds) s"
    unfolding cmd_analog_val_rd_def by (intro twp_seqs_Cons) (erule twp_mono, blast)
  then show ?thesis by (auto simp: twp_def wp_def split: sum.splits)
qed

lemma analog_val_rd_overrun_witness:
  "cmd_analog_val_rd (bench (\<lambda>_ _. 0)) (with_packet [0x62, 0, 15] []) = Inl OutOfBounds"
  by (rule analog_val_rd_overrun [OF board_ok_bench fw_ok_with_packet])
    (simp_all add: with_packet_simps(1,5) HDR_DATA_BLOCKS_def)

text \<open>An EEPROM command addresses memory bank 3, device 0; the address bytes are at 8 and 9.\<close>

definition eeprom_packet :: "fw \<Rightarrow> bool" where
  "eeprom_packet s \<longleftrightarrow> glEp0Buffer_Rx s ! (HDR_SIZE + 10) = 0 \<and> glEp0Buffer_Rx s ! (HDR_SIZE + 11) = 3 \<and>
     glEp0Buffer_Rx s ! HDR_SIZE = 0"

lemma add_errors_bound:
  assumes "unat e + n < 256" "n \<le> 1"
  shows "unat (ucast (ucast (e :: u8) + of_nat n :: u32) :: u8) = unat e + n"
proof -
  have "uint e < 256" using uint_lt2p [of e] by simp
  with assms show ?thesis by (cases n) (simp_all add: unat_word_ariths unsigned_ucast_eq take_bit_eq_mod)
qed
section \<open>The EEPROM over I2C\<close>

text \<open>Acknowledges that failed.\<close>

definition fails :: "bool list \<Rightarrow> nat" where
  "fails acks = length (filter Not acks)"

lemma fails_simps [simp]: "fails [] = 0" "fails (a # as) = (if a then 0 else 1) + fails as"
  "fails (as @ bs) = fails as + fails bs"
  by (simp_all add: fails_def)

lemma fails_zero: "fails as = 0 \<longleftrightarrow> (\<forall>a\<in>set as. a)"
  by (auto simp: fails_def filter_empty_conv)

lemma fails_le: "fails as \<le> length as"
  by (simp add: fails_def)

lemma upt_split:
  assumes "[0..<k] = ys @ x # zs"
  shows "x = length ys" "x < k"
proof -
  have "length ys < k" using arg_cong [OF assms, of length] by simp
  moreover have "x = [0..<k] ! length ys" unfolding assms by simp
  ultimately show "x = length ys" "x < k" by simp_all
qed

text \<open>One more acknowledge counted.\<close>

lemma count_ack:
  assumes "unat e = n" "n < 255"
  shows "unat (ucast (ucast (e :: u8) + (if ack then I2C_ACK else I2C_NOACK) :: u32) :: u8) = n + (if ack then 0 else 1)"
  using add_errors_bound [of e "if ack then 0 else 1"] assms by (cases ack) (simp_all add: I2C_ACK_def I2C_NOACK_def)

definition send_bytes :: "u8 list \<Rightarrow> bool list \<Rightarrow> act list" where
  "send_bytes vs acks = concat (map2 (\<lambda>v a. [I2c (SendByte v False a), Pause 5000]) vs acks)"

lemma send_bytes_snoc:
  "length vs = length acks \<Longrightarrow> send_bytes (vs @ [v]) (acks @ [a]) = send_bytes vs acks @ [I2c (SendByte v False a), Pause 5000]"
  by (simp add: send_bytes_def)

lemma send_bytes_part [simp]:
  "i2c_part (send_bytes vs acks) = map2 (\<lambda>v a. SendByte v False a) vs acks"
  "list_all board_act (send_bytes vs acks)"
  by (induction vs acks rule: list_induct2') (auto simp: send_bytes_def)

lemma twp_send_each:
  assumes ok: "i2c_core_ok env I2C_OPENCORES_0_BASE" and k: "k \<le> 32" "fw_ok s"
    and e: "unat (cmd_errors s) + k < 255"
    and Q: "\<And>acks ce h. length acks = k \<Longrightarrow> unat ce = unat (cmd_errors s) + fails acks \<Longrightarrow>
       Q () (send_bytes (take k (drop (HDR_SIZE + 24) (glEp0Buffer_Rx s))) acks) (s\<lparr>hist := h, cmd_errors := ce\<rparr>)"
  shows "twp (each [0..<k] (\<lambda>i. bnd (rx_data (24 + i)) (\<lambda>v.
      bnd (drv (I2C_write I2C_OPENCORES_0_BASE v 0)) (\<lambda>e. bnd (add_errors e) (\<lambda>_. usleep 5000))))) env Q F s"
proof (rule twp_each [where I = "\<lambda>ys acts t. \<exists>acks ce h. length acks = length ys \<and>
      unat ce = unat (cmd_errors s) + fails acks \<and> t = s\<lparr>hist := h, cmd_errors := ce\<rparr> \<and>
      acts = send_bytes (take (length ys) (drop (HDR_SIZE + 24) (glEp0Buffer_Rx s))) acks"])
  show "\<exists>acks ce h. length acks = length [] \<and> unat ce = unat (cmd_errors s) + fails acks \<and>
      s = s\<lparr>hist := h, cmd_errors := ce\<rparr> \<and> [] = send_bytes (take (length []) (drop (HDR_SIZE + 24) (glEp0Buffer_Rx s))) acks"
    by (intro exI [of _ "[]"] exI [of _ "cmd_errors s"] exI [of _ "hist s"]) (simp add: send_bytes_def)
next
  fix ys x zs acts t
  assume xs: "[0..<k] = ys @ x # zs" and "\<exists>acks ce h. length acks = length ys \<and>
      unat ce = unat (cmd_errors s) + fails acks \<and> t = s\<lparr>hist := h, cmd_errors := ce\<rparr> \<and>
      acts = send_bytes (take (length ys) (drop (HDR_SIZE + 24) (glEp0Buffer_Rx s))) acks"
  then obtain acks ce h where I: "length acks = length ys" "unat ce = unat (cmd_errors s) + fails acks"
    "t = s\<lparr>hist := h, cmd_errors := ce\<rparr>"
    "acts = send_bytes (take (length ys) (drop (HDR_SIZE + 24) (glEp0Buffer_Rx s))) acks" by blast
  have x: "x = length ys" "x < k"
    using upt_split [OF xs] by auto
  let ?v = "glEp0Buffer_Rx s ! (HDR_SIZE + (24 + x))"
  have bytes: "take (Suc x) (drop (HDR_SIZE + 24) (glEp0Buffer_Rx s)) = take x (drop (HDR_SIZE + 24) (glEp0Buffer_Rx s)) @ [?v]"
    using k x by (simp add: take_Suc_conv_app_nth fw_ok_lengths HDR_SIZE_def add.assoc)
  have "fails acks \<le> x" using fails_le [of acks] I(1) x by simp
  then have ce: "unat ce < 255" using I(2) e x(2) by linarith
  show "twp (bnd (rx_data (24 + x)) (\<lambda>v. bnd (drv (I2C_write I2C_OPENCORES_0_BASE v 0)) (\<lambda>e.
       bnd (add_errors e) (\<lambda>_. usleep 5000)))) env
     (\<lambda>_ as t. \<exists>acks ce h. length acks = length (ys @ [x]) \<and>
      unat ce = unat (cmd_errors s) + fails acks \<and> t = s\<lparr>hist := h, cmd_errors := ce\<rparr> \<and>
      acts @ as = send_bytes (take (length (ys @ [x])) (drop (HDR_SIZE + 24) (glEp0Buffer_Rx s))) acks) F t"
  proof (intro twp_bnd twp_accessors twp_I2C_write twp_usleep)
    fix ack h1 h2
    assume "24 + x < 56"
    show "\<exists>acks' ce' h'. length acks' = length (ys @ [x]) \<and>
      unat ce' = unat (cmd_errors s) + fails acks' \<and>
      t\<lparr>hist := h1, cmd_errors := ucast (ucast (cmd_errors (t\<lparr>hist := h1\<rparr>)) + (if ack then I2C_ACK else I2C_NOACK) :: u32)\<rparr>\<lparr>hist := h2\<rparr> =
        s\<lparr>hist := h', cmd_errors := ce'\<rparr> \<and>
      acts @ [] @ [I2c (SendByte (glEp0Buffer_Rx t ! (HDR_SIZE + (24 + x))) ((0 :: u32) \<noteq> 0) ack)] @ [] @ [Pause 5000] =
        send_bytes (take (length (ys @ [x])) (drop (HDR_SIZE + 24) (glEp0Buffer_Rx s))) acks'"
      using I x bytes count_ack [OF refl ce, of ack] k
      by (intro exI [of _ "acks @ [ack]"]
          exI [of _ "ucast (ucast (cmd_errors (t\<lparr>hist := h1\<rparr>)) + (if ack then I2C_ACK else I2C_NOACK) :: u32)"] exI [of _ h2])
        (auto simp: send_bytes_snoc fw_ok_lengths HDR_SIZE_def simp del: take_Suc)
  qed (use ok x(2) k(1) in auto)
qed (use Q in auto)

text \<open>
  The I2C log of an EEPROM write: the write address of the device, the two address bytes, the data,
  the last byte with the stop condition; \<open>acks\<close> are the acknowledges in order.
\<close>

definition eeprom_write_log :: "u8 \<Rightarrow> u8 \<Rightarrow> u8 list \<Rightarrow> bool list \<Rightarrow> i2c_op list" where
  "eeprom_write_log hi lo dat acks =
     [SendAddr 0xA0 (acks ! 0), SendByte hi False (acks ! 1), SendByte lo False (acks ! 2)] @
     map2 (\<lambda>v a. SendByte v False a) (butlast dat) (drop 3 acks) @ [SendByte (last dat) True (last acks)]"

lemma zip_prefix: "length xs = length ys \<Longrightarrow> zip xs (ys @ zs) = zip xs ys"
  by (induction xs ys rule: list_induct2) auto

lemma rx_payload_split:
  assumes "fw_ok s" "0 < unat (rx_count s)" "unat (rx_count s) \<le> 32"
  shows "take (unat (rx_count s) - 1) (drop (HDR_SIZE + 24) (glEp0Buffer_Rx s)) = butlast (rx_payload s)"
    and "glEp0Buffer_Rx s ! (HDR_SIZE + (24 + (unat (rx_count s) - 1))) = last (rx_payload s)"
proof -
  let ?n = "unat (rx_count s)"
  have len: "length (rx_payload s) = ?n" using assms by (simp add: rx_payload_def fw_ok_lengths HDR_SIZE_def)
  show "take (?n - 1) (drop (HDR_SIZE + 24) (glEp0Buffer_Rx s)) = butlast (rx_payload s)"
    using assms len by (simp add: butlast_conv_take) (simp add: rx_payload_def min_def)
  show "glEp0Buffer_Rx s ! (HDR_SIZE + (24 + (?n - 1))) = last (rx_payload s)"
    using assms len by (simp add: last_conv_nth rx_payload_def fw_ok_lengths HDR_SIZE_def)
qed

lemma twp_addr_assigned:
  assumes "i2c_core_ok env I2C_OPENCORES_0_BASE"
    and "\<And>ack ce h. unat ce = (if ack then 0 else 1) \<Longrightarrow>
       twp (k ()) env (\<lambda>b bs. Q b (I2c (SendAddr (ucast (push_bit 1 add + (0x1 AND rd))) ack) # bs)) F
         (s\<lparr>hist := h, cmd_errors := ce\<rparr>)"
  shows "twp (bnd (drv (I2C_start I2C_OPENCORES_0_BASE add rd)) (\<lambda>e. bnd (assign_errors e) k)) env Q F s"
  unfolding assign_errors_def
  by (intro twp_bnd twp_I2C_start twp_modify) (use assms in \<open>auto simp: I2C_ACK_def I2C_NOACK_def\<close>)

lemma twp_addr_counted:
  assumes "i2c_core_ok env I2C_OPENCORES_0_BASE" "unat (cmd_errors s) = n" "n < 255"
    and "\<And>ack ce h. unat ce = n + (if ack then 0 else 1) \<Longrightarrow>
       twp (k ()) env (\<lambda>b bs. Q b (I2c (SendAddr (ucast (push_bit 1 add + (0x1 AND rd))) ack) # bs)) F
         (s\<lparr>hist := h, cmd_errors := ce\<rparr>)"
  shows "twp (bnd (drv (I2C_start I2C_OPENCORES_0_BASE add rd)) (\<lambda>e. bnd (add_errors e) k)) env Q F s"
  by (intro twp_bnd twp_I2C_start twp_accessors) (use assms count_ack [OF assms(2,3)] in auto)

lemma twp_send_counted:
  assumes "i2c_core_ok env I2C_OPENCORES_0_BASE" "unat (cmd_errors s) = n" "n < 255"
    and "\<And>ack ce h. unat ce = n + (if ack then 0 else 1) \<Longrightarrow>
       twp (k ()) env (\<lambda>b bs. Q b (I2c (SendByte v (lst \<noteq> 0) ack) # bs)) F (s\<lparr>hist := h, cmd_errors := ce\<rparr>)"
  shows "twp (bnd (drv (I2C_write I2C_OPENCORES_0_BASE v lst)) (\<lambda>e. bnd (add_errors e) k)) env Q F s"
  by (intro twp_bnd twp_I2C_write twp_accessors) (use assms count_ack [OF assms(2,3)] in auto)

text \<open>The handlers end with success exactly when nothing was counted.\<close>

lemma twp_final_status:
  assumes "Q () [] (s\<lparr>glEp0Buffer_Tx := (glEp0Buffer_Tx s)[HDR_STATUS :=
     if unat (cmd_errors s) = 0 then STATUS_COMPLETED_CMD else err]\<rparr>)"
  shows "twp (status_by_errors err) env Q F s"
  unfolding status_by_errors_def
  by (intro twp_bnd twp_gets twp_if twp_set_status) (use assms in \<open>simp_all add: unat_eq_zero\<close>)

lemma tx_status_set [simp]:
  "length xs = 64 \<Longrightarrow> tx_hdr HDR_STATUS (s\<lparr>glEp0Buffer_Tx := xs[HDR_STATUS := v]\<rparr>) = v"
  by (simp add: tx_hdr_def HDR_STATUS_def)

text \<open>The last byte, with the stop condition, and the status.\<close>

lemma twp_write_tail:
  assumes "i2c_core_ok env I2C_OPENCORES_0_BASE" "unat (cmd_errors t) = n" "n < 255" "k < 32" "fw_ok t"
    and "\<And>al s'. tx_hdr HDR_STATUS s' = (if n = 0 \<and> al then STATUS_COMPLETED_CMD else STATUS_ERROR_CMD) \<Longrightarrow>
       Q () [I2c (SendByte (glEp0Buffer_Rx t ! (HDR_SIZE + (24 + k))) True al), Pause 5000] s'"
  shows "twp (seqs [bnd (rx_data (24 + k)) (\<lambda>v.
            bnd (drv (I2C_write I2C_OPENCORES_0_BASE v 1)) (\<lambda>e.
            bnd (add_errors e) (\<lambda>_. usleep 5000))),
            status_by_errors STATUS_ERROR_CMD]) env Q F t"
proof (intro twp_seqs_Cons twp_bnd [of "rx_data _"] twp_accessors)
  assume "24 + k < 56"
  show "twp (bnd (drv (I2C_write I2C_OPENCORES_0_BASE (glEp0Buffer_Rx t ! (HDR_SIZE + (24 + k))) 1)) (\<lambda>e.
       bnd (add_errors e) (\<lambda>_. usleep 5000))) env
     (\<lambda>b bs. twp (seqs [status_by_errors STATUS_ERROR_CMD]) env (\<lambda>ba bsa. Q ba (([] @ bs) @ bsa)) F) F t"
    by (rule twp_send_counted [OF assms(1-3)], intro twp_usleep twp_seqs_Cons twp_final_status twp_seqs_Nil)
      (use assms(5) in \<open>auto simp: fw_ok_lengths intro!: assms(6)\<close>)
qed (use assms(4) in simp)

text \<open>
  C9: \<open>CMD_MEMORY_WR\<close> to the EEPROM is one I2C transaction: device address, the two address bytes of
  the packet, the payload in order, stop after its last byte. Success is reported exactly when every
  byte was acknowledged.
\<close>

lemma eeprom_write:
  assumes "board_ok env" "fw_ok s" "eeprom_packet s" "0 < unat (rx_count s)" "unat (rx_count s) \<le> 32"
  shows "\<exists>s' acks. cmd_memory_wr env s = Inr ((), s') \<and> length acks = unat (rx_count s) + 3 \<and>
     i2c_log (i2c_bus I2C_OPENCORES_0_BASE (hist s')) = i2c_log (i2c_bus I2C_OPENCORES_0_BASE (hist s)) @
       eeprom_write_log (glEp0Buffer_Rx s ! (HDR_SIZE + 8)) (glEp0Buffer_Rx s ! (HDR_SIZE + 9)) (rx_payload s) acks \<and>
     tx_hdr HDR_STATUS s' = (if \<forall>a\<in>set acks. a then STATUS_COMPLETED_CMD else STATUS_ERROR_CMD)"
proof -
  let ?n = "unat (rx_count s)"
  let ?L = "eeprom_write_log (glEp0Buffer_Rx s ! (HDR_SIZE + 8)) (glEp0Buffer_Rx s ! (HDR_SIZE + 9)) (rx_payload s)"
  define R where "R acts s' \<longleftrightarrow> (\<exists>acks. length acks = ?n + 3 \<and> list_all board_act acts \<and> i2c_part acts = ?L acks \<and>
     tx_hdr HDR_STATUS s' = (if \<forall>a\<in>set acks. a then STATUS_COMPLETED_CMD else STATUS_ERROR_CMD))" for acts s'
  have i2c: "i2c_core_ok env I2C_OPENCORES_0_BASE" using assms(1) by blast
  note pay = rx_payload_split [OF assms(2,4,5)]
  have dev: "ucast (EEPROM_I2C_ADDR * 2) = (0xA0 :: u8)" by (simp add: EEPROM_I2C_ADDR_def)
  have R: "R (I2c (SendAddr 0xA0 a0) # I2c (SendByte (glEp0Buffer_Rx s ! (HDR_SIZE + 8)) False a1) #
       I2c (SendByte (glEp0Buffer_Rx s ! (HDR_SIZE + 9)) False a2) #
       send_bytes (butlast (rx_payload s)) acks @ [I2c (SendByte (last (rx_payload s)) True al), Pause 5000]) s'"
    if "length acks = ?n - 1" and "tx_hdr HDR_STATUS s' =
       (if (if a0 then 0 else 1) + (if a1 then 0 else 1) + (if a2 then 0 else 1) + fails acks = 0 \<and> al
        then STATUS_COMPLETED_CMD else STATUS_ERROR_CMD)" for a0 a1 a2 acks al s'
  proof -
    let ?acks = "a0 # a1 # a2 # acks @ [al]"
    have "length (butlast (rx_payload s)) = length acks"
      using that(1) assms(2,5) by (simp add: rx_payload_def fw_ok_lengths HDR_SIZE_def)
    then have "i2c_part (I2c (SendAddr 0xA0 a0) # I2c (SendByte (glEp0Buffer_Rx s ! (HDR_SIZE + 8)) False a1) #
       I2c (SendByte (glEp0Buffer_Rx s ! (HDR_SIZE + 9)) False a2) #
       send_bytes (butlast (rx_payload s)) acks @ [I2c (SendByte (last (rx_payload s)) True al), Pause 5000]) = ?L ?acks"
      by (simp add: eeprom_write_log_def zip_prefix)
    moreover have "length ?acks = ?n + 3" using that(1) assms(4) by simp
    moreover have "tx_hdr HDR_STATUS s' = (if \<forall>a\<in>set ?acks. a then STATUS_COMPLETED_CMD else STATUS_ERROR_CMD)"
      using that(2) fails_zero [of acks] by (auto split: if_splits)
    ultimately show ?thesis unfolding R_def by (intro exI [of _ ?acks]) simp
  qed
  have "twp cmd_memory_wr env (\<lambda>_. R) (\<lambda>_. False) s"
    unfolding cmd_memory_wr_def
    apply (intro twp_bnd [of read_portion] twp_read_portion twp_bnd [of "rx_data _"] twp_accessors twp_if)
    apply (rule twp_addr_assigned [OF i2c])
    apply (intro twp_bnd [of "rx_data _"] twp_accessors)
    apply (rule twp_send_counted [OF i2c], simp, simp)
    apply (intro twp_bnd [of "rx_data _"] twp_accessors)
    apply (rule twp_send_counted [OF i2c], simp, simp)
    apply (intro twp_bnd [of "gets _"] twp_gets)
    apply (rule twp_seqs_Cons)
    apply (rule twp_send_each [OF i2c])
    prefer 4
    apply (rule twp_write_tail [OF i2c])
    using assms(2-5) pay
    apply (simp_all add: eeprom_packet_def dev del: seqs.simps)
    subgoal for ack ce h acka cea ha ackb ceb hb acks using fails_le [of acks] by (simp split: if_splits)
    subgoal by (rule R) simp_all
    subgoal by auto
    done
  from twp_unitD [OF this] obtain acts s' where p: "performs env cmd_memory_wr s acts () s'" and "R acts s'" by blast
  then obtain acks where "length acks = ?n + 3" "list_all board_act acts" "i2c_part acts = ?L acks"
    "tx_hdr HDR_STATUS s' = (if \<forall>a\<in>set acks. a then STATUS_COMPLETED_CMD else STATUS_ERROR_CMD)"
    by (auto simp: R_def)
  with p performs_wires(2) [OF assms(1) p] show ?thesis
    by (intro exI [of _ s'] exI [of _ acks]) (simp add: performs_def)
qed

lemma eeprom_write_witness:
  "\<exists>s' acks. cmd_memory_wr (bench (\<lambda>_ _. 0)) (with_packet [0x8C, 0, 1]
       [0, 0, 0, 0, 0, 2, 0, 0, 0x00, 0x10, 0, 3, 0, 0, 0, 0, 0, 0, 0, 0, 0, 0, 0, 0, 0xAA, 0xBB]) = Inr ((), s') \<and>
     length acks = 5 \<and>
     i2c_log (i2c_bus I2C_OPENCORES_0_BASE (hist s')) = eeprom_write_log 0x00 0x10 [0xAA, 0xBB] acks"
proof -
  let ?s = "with_packet [0x8C, 0, 1] [0, 0, 0, 0, 0, 2, 0, 0, 0x00, 0x10, 0, 3, 0, 0, 0, 0, 0, 0, 0, 0, 0, 0, 0, 0, 0xAA, 0xBB]"
  have e: "eeprom_packet ?s"
    using rx_byte_with_packet [of 0] by (simp add: eeprom_packet_def rx_byte_with_packet)
  have c: "rx_count ?s = 2" by (simp add: rx_count_with_packet)
  have p: "rx_payload ?s = [0xAA, 0xBB]" unfolding rx_payload_def c by (simp add: rx_drop_with_packet pad_def)
  have a: "glEp0Buffer_Rx ?s ! (HDR_SIZE + 8) = 0x00" "glEp0Buffer_Rx ?s ! (HDR_SIZE + 9) = 0x10"
    by (simp_all add: rx_byte_with_packet)
  from eeprom_write [OF board_ok_bench fw_ok_with_packet e, of "\<lambda>_ _. 0", unfolded c p a] show ?thesis by auto
qed

lemma twp_each_32:
  assumes body: "\<And>i t. fw_ok t \<Longrightarrow> twp (body i) env (\<lambda>_ _ u. i < 32 \<and> fw_ok u) F t" and s: "fw_ok s"
  shows "twp (each [0..<k] body) env (\<lambda>_ _ u. k \<le> 32 \<and> fw_ok u) F s"
proof (rule twp_each [where I = "\<lambda>ys _ u. length ys \<le> 32 \<and> fw_ok u"])
  fix ys x zs acts t
  assume "[0..<k] = ys @ x # zs" and t: "length ys \<le> 32 \<and> fw_ok t"
  from upt_split [OF this(1)] have x: "x = length ys" by simp
  show "twp (body x) env (\<lambda>_ as u. length (ys @ [x]) \<le> 32 \<and> fw_ok u) F t"
    by (rule twp_mono [OF body]) (use t x in auto)
qed (use s in auto)

lemma twp_overrun:
  assumes body: "\<And>i t. fw_ok t \<Longrightarrow> twp (body i) env (\<lambda>_ _ u. i < 32 \<and> fw_ok u) F t"
    and tail: "\<And>i t. fw_ok t \<Longrightarrow> twp (tail i) env (\<lambda>_ _ u. i < 32 \<and> fw_ok u) F t"
    and "32 \<le> k" "fw_ok s"
  shows "twp (seqs [each [0..<k] body, tail k, p]) env Q F s"
proof (rule twp_seqs_Cons, rule twp_mono [OF twp_each_32 [OF body assms(4)]], assumption)
  fix a acts u
  assume "k \<le> 32 \<and> fw_ok (u :: fw)"
  then show "twp (seqs [tail k, p]) env (\<lambda>b bs. Q b (acts @ bs)) F u"
    by (intro twp_seqs_Cons twp_mono [OF tail]) (use assms(3) in auto)
qed

text \<open>
  C23: the two EEPROM commands do not check their byte count: a count above 32 overruns the 56-byte
  data field of the packet.
\<close>

lemma eeprom_count_overrun:
  assumes "board_ok env" "fw_ok s" "eeprom_packet s" "32 < unat (rx_count s)"
  shows "cmd_memory_wr env s = Inl OutOfBounds \<and> cmd_memory_rd env s = Inl OutOfBounds"
proof -
  let ?F = "\<lambda>f. f = OutOfBounds" let ?k = "unat (rx_count s) - 1"
  have i2c: "i2c_core_ok env I2C_OPENCORES_0_BASE" using assms(1) by blast
  have k: "32 \<le> ?k" using assms(4) by simp
  have wr: "twp (bnd (rx_data (24 + i)) (\<lambda>v. bnd (drv (I2C_write I2C_OPENCORES_0_BASE v lst)) (\<lambda>e.
       bnd (add_errors e) (\<lambda>_. usleep 5000)))) env (\<lambda>_ _ u. i < 32 \<and> fw_ok u) ?F t" if "fw_ok t" for i lst t
    by (intro twp_intros) (use that i2c in \<open>auto simp: fw_ok_def\<close>)
  have rd: "twp (bnd (drv (I2C_read I2C_OPENCORES_0_BASE lst)) (\<lambda>v. set_tx_data (24 + i) (ucast v)))
      env (\<lambda>_ _ u. i < 32 \<and> fw_ok u) ?F t" if "fw_ok t" for i lst t
    by (intro twp_intros) (use that i2c in \<open>auto simp: fw_ok_def\<close>)
  note rules = twp_bnd twp_read_portion twp_accessors twp_if twp_I2C_start twp_I2C_write twp_modify twp_gets
  have "twp cmd_memory_wr env (\<lambda>_ _ _. False) ?F s"
    unfolding cmd_memory_wr_def assign_errors_def
    by (intro rules twp_overrun wr) (use assms i2c k in \<open>simp_all add: eeprom_packet_def fw_ok_def\<close>)
  moreover have "twp cmd_memory_rd env (\<lambda>_ _ _. False) ?F s"
    unfolding cmd_memory_rd_def assign_errors_def
    by (intro rules twp_overrun rd) (use assms i2c k in \<open>simp_all add: eeprom_packet_def fw_ok_def\<close>)
  ultimately show ?thesis by (auto simp: twp_def wp_def split: sum.splits)
qed

lemma eeprom_count_overrun_witness:
  "cmd_memory_wr (bench (\<lambda>_ _. 0)) (with_packet [0x8C, 0, 1] [0, 0, 0, 0, 0, 33, 0, 0, 0, 0, 0, 3]) = Inl OutOfBounds"
proof -
  let ?s = "with_packet [0x8C, 0, 1] [0, 0, 0, 0, 0, 33, 0, 0, 0, 0, 0, 3]"
  have "eeprom_packet ?s" "32 < unat (rx_count ?s)"
    using rx_byte_with_packet [of 0] by (simp_all add: eeprom_packet_def rx_byte_with_packet rx_count_with_packet)
  from eeprom_count_overrun [OF board_ok_bench fw_ok_with_packet this] show ?thesis by simp
qed

section \<open>Converters and GPIO\<close>

lemma performs_lms_one:
  assumes "board_ok env" "performs env m s [Spi SPI_LMS_BASE slave w d 0] a s'" "line_cs (spi_wire SPI_LMS_BASE (hist s)) = None"
  shows "line_txns (spi_wire SPI_LMS_BASE (hist s')) =
      line_txns (spi_wire SPI_LMS_BASE (hist s)) @ [(push_bit (unat slave) 1, w @ replicate (length d) 0)]"
  using performs_txns(2) [OF assms(1,2) _ _ _ assms(3)] by simp

text \<open>
  \<open>CMD_GPIO_WR\<close> writes the packet's two bytes to register 0x00C6 of the FPGA in one transaction,
  most significant byte first on the wire although the packet carries it second.
\<close>

lemma gpio_write_wire:
  assumes "board_ok env" "fw_ok s" "line_cs (spi_wire SPI_LMS_BASE (hist s)) = None"
  shows "\<exists>s'. cmd_gpio_wr env s = Inr ((), s') \<and> tx_hdr HDR_STATUS s' = STATUS_COMPLETED_CMD \<and>
     line_txns (spi_wire SPI_LMS_BASE (hist s')) = line_txns (spi_wire SPI_LMS_BASE (hist s)) @
       [(2, [0x80, 0xC6, glEp0Buffer_Rx s ! (HDR_SIZE + 1), glEp0Buffer_Rx s ! HDR_SIZE])]"
proof -
  have "twp cmd_gpio_wr env (\<lambda>_ acts s'. tx_hdr HDR_STATUS s' = STATUS_COMPLETED_CMD \<and>
      acts = [Spi SPI_LMS_BASE SPI_NR_FPGA [0x80, 0xC6, glEp0Buffer_Rx s ! (HDR_SIZE + 1), glEp0Buffer_Rx s ! HDR_SIZE] [] 0])
      (\<lambda>_. False) s"
    unfolding cmd_gpio_wr_def
    by (intro twp_intros twp_set_status) (use assms(1,2) in \<open>auto simp: sc_all_set fw_ok_lengths spi_masks\<close>)
  from twp_unitD [OF this] obtain s' where p: "performs env cmd_gpio_wr s
      [Spi SPI_LMS_BASE SPI_NR_FPGA [0x80, 0xC6, glEp0Buffer_Rx s ! (HDR_SIZE + 1), glEp0Buffer_Rx s ! HDR_SIZE] [] 0] () s'"
    and "tx_hdr HDR_STATUS s' = STATUS_COMPLETED_CMD" by blast
  with performs_lms_one [OF assms(1) p assms(3)] show ?thesis by (auto simp: performs_def)
qed

lemma gpio_write_wire_witness:
  "\<exists>s'. cmd_gpio_wr (bench (\<lambda>_ _. 0)) (with_packet [0x51] [0x34, 0x12]) = Inr ((), s') \<and>
     line_txns (spi_wire SPI_LMS_BASE (hist s')) = [(2, [0x80, 0xC6, 0x12, 0x34])]"
  using gpio_write_wire [OF board_ok_bench fw_ok_with_packet, of "[0x51]" "[0x34, 0x12]" "\<lambda>_ _. 0"]
    rx_byte_with_packet [of 0 "[0x51]" "[0x34, 0x12]"] rx_byte_with_packet [of 1 "[0x51]" "[0x34, 0x12]"]
  by (auto simp: spi_wire_def)

text \<open>
  Setting the TCXO DAC over \<open>CMD_ANALOG_VAL_WR\<close> first puts the phase detector into three-state (its
  four latch words on its own select line) and then writes the value's two DAC bytes, left aligned
  with the power-down bits clear; the value is kept for later reads.
\<close>

lemma dac_write_wire:
  assumes "board_ok env" "fw_ok s" "rx_hdr HDR_DATA_BLOCKS s = 1"
    and "take 3 (drop HDR_SIZE (glEp0Buffer_Rx s)) = [0, 0, 0]" "cmd_errors s = 0"
    and "\<forall>base\<in>spi_bases. line_cs (spi_wire base (hist s)) = None"
  shows "\<exists>s'. cmd_analog_val_wr env s = Inr ((), s') \<and> tx_hdr HDR_STATUS s' = STATUS_COMPLETED_CMD \<and>
     dac_val s' = glEp0Buffer_Rx s ! (HDR_SIZE + 3) \<and>
     line_txns (spi_wire SPI_1_BASE (hist s')) = line_txns (spi_wire SPI_1_BASE (hist s)) @
       [(1, [drop_bit 2 (dac_val s'), push_bit 6 (dac_val s')])] \<and>
     line_txns (spi_wire SPI_1_ADF4002_BASE (hist s')) = line_txns (spi_wire SPI_1_ADF4002_BASE (hist s)) @
       [(1, [0x1f, 0x81, 0xf3]), (1, [0x1f, 0x81, 0xf2]), (1, [0x00, 0x01, 0xf4]), (1, [0x01, 0x80, 0x01])]"
proof -
  let ?v = "glEp0Buffer_Rx s ! (HDR_SIZE + 3)"
  have rx: "glEp0Buffer_Rx s ! HDR_SIZE = 0" "glEp0Buffer_Rx s ! (HDR_SIZE + 1) = 0" "glEp0Buffer_Rx s ! (HDR_SIZE + 2) = 0"
    using arg_cong [OF assms(4), of "\<lambda>l. l ! 0"] arg_cong [OF assms(4), of "\<lambda>l. l ! 1"]
      arg_cong [OF assms(4), of "\<lambda>l. l ! 2"] assms(2) by (simp_all add: fw_ok_lengths HDR_SIZE_def)
  let ?acts = "adf_three_state_acts @ [Spi SPI_1_BASE SPI_NR_DAC [drop_bit 2 ?v, push_bit 6 ?v] [] 0]"
  have "twp (for_blocks analog_wr_block) env (\<lambda>_ acts t. acts = ?acts \<and> dac_val t = ?v \<and> cmd_errors t = 0 \<and> fw_ok t) (\<lambda>_. False) s"
  proof (rule twp_for_blocks [where I = "\<lambda>i acts t. fw_ok t \<and> glEp0Buffer_Rx t = glEp0Buffer_Rx s \<and> cmd_errors t = 0 \<and>
      (if i = 0 then acts = [] else acts = ?acts \<and> dac_val t = ?v)", OF _ assms(3)])
    fix i acts t
    assume "i < unat (1 :: u8)" and t: "fw_ok t \<and> glEp0Buffer_Rx t = glEp0Buffer_Rx s \<and> cmd_errors t = 0 \<and>
      (if i = 0 then acts = [] else acts = ?acts \<and> dac_val t = ?v)" "rx_hdr HDR_DATA_BLOCKS t = 1"
    then have i: "i = 0" by simp
    show "twp (analog_wr_block i) env (\<lambda>_ as u. block u = block t \<and> rx_hdr HDR_DATA_BLOCKS u = 1 \<and>
       fw_ok (u\<lparr>block := block u + 1\<rparr>) \<and> glEp0Buffer_Rx (u\<lparr>block := block u + 1\<rparr>) = glEp0Buffer_Rx s \<and>
       cmd_errors (u\<lparr>block := block u + 1\<rparr>) = 0 \<and>
       (if Suc i = 0 then acts @ as = [] else acts @ as = ?acts \<and> dac_val (u\<lparr>block := block u + 1\<rparr>) = ?v)) (\<lambda>_. False) t"
      unfolding analog_wr_block_def i
      by (intro twp_intros) (use assms(1) t i rx in \<open>auto simp: fw_ok_def rx_hdr_def\<close>)
  qed (use assms in \<open>auto simp: fw_ok_def\<close>)
  then have "twp cmd_analog_val_wr env (\<lambda>_ acts t. acts = ?acts \<and> dac_val t = ?v \<and>
      tx_hdr HDR_STATUS t = STATUS_COMPLETED_CMD) (\<lambda>_. False) s"
    unfolding cmd_analog_val_wr_def
    apply (intro twp_block_command [OF assms(2)] twp_seqs_Cons)
    using assms(3) apply (auto intro!: twp_bnd twp_final_status twp_ret elim!: twp_mono simp: fw_ok_lengths)
    done
  from twp_unitD [OF this] obtain s' where p: "performs env cmd_analog_val_wr s ?acts () s'"
    and "dac_val s' = ?v" "tx_hdr HDR_STATUS s' = STATUS_COMPLETED_CMD" by blast
  moreover have "SPI_1_ADF4002_BASE \<noteq> SPI_1_BASE" by (simp add: address_map)
  moreover have "list_all board_act ?acts" "list_all unmerged ?acts"
    by (auto simp: adf_three_state_acts_def tidy_board list_all_iff)
  ultimately show ?thesis
    using performs_txns(2) [OF assms(1) p, of SPI_1_BASE] performs_txns(2) [OF assms(1) p, of SPI_1_ADF4002_BASE] assms(6)
    by (auto simp: performs_def adf_three_state_acts_def)
qed

lemma dac_write_wire_witness:
  "\<exists>s'. cmd_analog_val_wr (bench (\<lambda>_ _. 0)) (with_packet [0x61, 0, 1] [0, 0, 0, 0x86]) = Inr ((), s') \<and>
     line_txns (spi_wire SPI_1_BASE (hist s')) = [(1, [0x21, 0x80])]"
proof -
  let ?s = "with_packet [0x61, 0, 1] [0, 0, 0, 0x86]"
  have v: "glEp0Buffer_Rx ?s ! (HDR_SIZE + 3) = 0x86" by (simp add: rx_byte_with_packet)
  have "take 3 (drop HDR_SIZE (glEp0Buffer_Rx ?s)) = [0, 0, 0]"
    using rx_drop_with_packet [of 0 "[0x61, 0, 1]" "[0, 0, 0, 0x86]"] by (simp add: pad_def)
  moreover have "rx_hdr HDR_DATA_BLOCKS ?s = 1" by (simp add: rx_hdr_with_packet HDR_DATA_BLOCKS_def)
  moreover have "cmd_errors ?s = 0" by (simp add: with_packet_def fw_boot_def)
  ultimately show ?thesis
    using dac_write_wire [OF board_ok_bench fw_ok_with_packet, of "[0x61, 0, 1]" "[0, 0, 0, 0x86]" "\<lambda>_ _. 0"] v
    by (auto simp: spi_wire_def)
qed

text \<open>
  The temperature \<open>CMD_ANALOG_VAL_RD\<close> reports is ten times the sensor's signed whole degrees plus
  five when the half-degree bit is set; it never overflows the 16-bit result.
\<close>

lemma lm75_value_correct:
  "sint (lm75_value msb lsb) = 10 * sint (ucast msb :: u8) + (if bit lsb 7 then 5 else 0)"
proof -
  have c: "signed_drop_bit 8 (push_bit 8 (ucast msb :: u16)) = (scast (ucast msb :: u8) :: u16)"
    by (rule bit_word_eqI) (auto simp: bit_simps)
  have b: "lsb AND 0x80 \<noteq> 0 \<longleftrightarrow> bit lsb 7"
    using and_exp_eq_0_iff_not_bit [of lsb 7] by simp
  let ?c = "sint (ucast msb :: u8)"
  have range: "-128 \<le> ?c" "?c < 128" using sint_ge [of "ucast msb :: u8"] sint_lt [of "ucast msb :: u8"] by simp_all
  have up: "sint (scast (ucast msb :: u8) :: u16) = ?c" by (rule sint_up_scast) (simp add: is_up)
  have ten: "sint (10 * scast (ucast msb :: u8) :: u16) = 10 * ?c"
    using range by (simp add: sint_word_ariths signed_take_bit_int_eq_self up)
  then have "sint (10 * scast (ucast msb :: u8) + 5 :: u16) = 10 * ?c + 5"
    using range by (simp add: sint_word_ariths(1) signed_take_bit_int_eq_self)
  with ten show ?thesis unfolding lm75_value_def Let_def c b by simp
qed

text \<open>
  The EEPROM address byte that should carry the high half of the DAC value's address is always
  zero: the cast to eight bits binds before the shift.
\<close>

lemma dac_address_msb_lost:
  "dac_addr_msb addr = 0 \<and> dac_addr_lsb addr = ucast addr"
proof
  show "dac_addr_msb addr = 0"
    by (rule bit_word_eqI) (auto simp: dac_addr_msb_def bit_simps bit_numeral_rec)
  have "(0x00FF :: u8) = -1" by simp
  then show "dac_addr_lsb addr = ucast addr"
    unfolding dac_addr_lsb_def by (simp only: and.right_neutral)
qed

end
