(* ===== verification/Drivers.thy ===== *)
theory Drivers
  imports Bench
begin

text \<open>
  The properties of the two serial drivers by themselves, on the history of register accesses: what
  one call puts on the bus and returns, on a core that keeps its documented protocol and on any
  hardware at all.
\<close>

section \<open>SPI\<close>

text \<open>
  C10: on a core that keeps its protocol \<open>alt_avalon_spi_command\<close> returns; it puts the bytes to write
  and one zero byte per byte to read on the wire as one chip-select transaction (or as a part of one
  with the MERGE flag), and hands back exactly the bytes received after those clocked in while
  writing. It touches no other register.
\<close>

lemma spi_transfer:
  assumes "spi_core_ok env base" "0 < length wdata + rlen" "flags AND ALT_AVALON_SPI_COMMAND_TOGGLE_SS_N = 0"
  shows "\<exists>d es. alt_avalon_spi_command base slave wdata rlen flags env h = Inr ((rlen, d), h @ es) \<and>
     length d = rlen \<and> d = drop (length wdata) (tl (spi_miso base es)) \<and> confined base es \<and>
     spi_wire base (h @ es) =
       spi_effect flags (push_bit (unat slave) 1) (wdata @ replicate rlen 0) (spi_wire base h)"
proof -
  let ?Q = "\<lambda>r h'. \<exists>d es. r = (rlen, d) \<and> h' = h @ es \<and> confined base es \<and> length d = rlen \<and>
     d = drop (length wdata) (tl (spi_miso base es)) \<and> spi_wire base (h @ es) =
       spi_effect flags (push_bit (unat slave) 1) (wdata @ replicate rlen 0) (spi_wire base h)"
  have "wp (alt_avalon_spi_command base slave wdata rlen flags) env ?Q (\<lambda>_. False) h"
    by (rule spi.cmd_law) (use assms in \<open>auto simp: spi_wire_append\<close>)
  from wp_totalD [OF this] show ?thesis by blast
qed

lemma spi_transfer_witness:
  "\<exists>d es. alt_avalon_spi_command SPI_LMS_BASE 1 [0x00, 0xC2] 2 0 (bench (\<lambda>_ _. 0x5A)) [] = Inr ((2, d), es) \<and>
     length d = 2 \<and> line_txns (spi_wire SPI_LMS_BASE es) = [(2, [0x00, 0xC2, 0, 0])]"
  using spi_transfer [OF bench_core_ok [OF spi_bases_mem(1)], of "[0x00, 0xC2]" 2 0 1 "\<lambda>_ _. 0x5A" "[]"]
  by (auto simp: spi_effect_def Let_def spi_wire_def numeral_2_eq_2)

text \<open>
  Whatever the hardware answers, the receive buffer is never overrun: the call either returns
  exactly \<open>read_length\<close> bytes, having accessed only the core's registers, or never returns.
\<close>

lemma spi_buffer_safe:
  assumes "0 < length wdata + rlen"
  shows "alt_avalon_spi_command base slave wdata rlen flags env h = Inl Hang \<or>
     (\<exists>d es. alt_avalon_spi_command base slave wdata rlen flags env h = Inr ((rlen, d), h @ es) \<and>
        length d = rlen \<and> confined base es)"
proof -
  have "wp (alt_avalon_spi_command base slave wdata rlen flags) env
      (\<lambda>r h'. \<exists>d es. r = (rlen, d) \<and> h' = h @ es \<and> length d = rlen \<and> confined base es) (\<lambda>f. f = Hang) h"
    by (rule wp_spi_command_any) (use assms in auto)
  then show ?thesis by (auto simp: wp_def split: sum.splits)
qed

lemma spi_buffer_safe_witness:
  "alt_avalon_spi_command SPI_1_BASE 0 [1] 3 0 (\<lambda>_ _. 0xFF) [] = Inl Hang \<or>
   (\<exists>d h'. alt_avalon_spi_command SPI_1_BASE 0 [1] 3 0 (\<lambda>_ _. 0xFF) [] = Inr ((3, d), h') \<and> length d = 3)"
  using spi_buffer_safe [of "[1]" 3 SPI_1_BASE 0 0 "\<lambda>_ _. 0xFF" "[]"] by auto

text \<open>A transfer of nothing: once the credit is spent the loop waits for a byte that was never sent.\<close>

definition nothing_left :: "spi_xfer \<Rightarrow> bool" where
  "nothing_left x \<longleftrightarrow> write_data x = [] \<and> write_zeros x = 0"

lemma spi_iter_nothing:
  assumes "spi_core_ok env base" "nothing_left x" "spi_pending base h = 0"
  shows "wp (spi_iter base x) env (\<lambda>r h'. \<not> fst r \<and> nothing_left (snd r) \<and> spi_pending base h' = 0) (\<lambda>f. f = Hang) h"
  unfolding spi_iter_def wp_bnd
proof (rule wp_pollI)
  fix vs v
  assume v: "v = env (h @ map (Rd (IOADDR base SPI_STATUS)) vs) (IOADDR base SPI_STATUS)"
  have p: "spi_pending base (h @ map (Rd (IOADDR base SPI_STATUS)) ws) = 0" for ws
    using assms(3) by (simp add: spi_pending_append)
  then have "\<not> bits_set v SPI_STATUS_RRDY_MSK" using spi_core_okD(1) [OF assms(1)] v by simp
  then show "wp (spi_tx base v x) env (\<lambda>a. wp (spi_rx base v a) env
      (\<lambda>r h'. \<not> fst r \<and> nothing_left (snd r) \<and> spi_pending base h' = 0) (\<lambda>f. f = Hang)) (\<lambda>f. f = Hang)
      (h @ map (Rd (IOADDR base SPI_STATUS)) (vs @ [v]))"
    using assms(2) p [of "vs @ [v]"]
    by (auto simp: spi_tx_def spi_rx_def wp_simps nothing_left_def Let_def)
qed simp

lemma spi_loop_nothing:
  assumes "spi_loop base x env h = Some r" and "spi_core_ok env base" "nothing_left x" "spi_pending base h = 0"
  shows "r = Inl Hang"
proof -
  let ?P = "\<lambda>base x env h r. spi_core_ok env base \<longrightarrow> nothing_left x \<longrightarrow> spi_pending base h = 0 \<longrightarrow> r = Inl Hang"
  have "?P base x env h r"
  proof (rule spi_loop.raw_induct [where P = ?P, OF _ assms(1)], intro impI)
    fix f base x env h r
    assume IH: "\<And>base x env h r. f base x env h = Some r \<Longrightarrow> ?P base x env h r"
      and eq: "(case spi_iter base x env h of Inl f \<Rightarrow> Some (Inl f)
          | Inr r \<Rightarrow> if fst (fst r) then Some (Inr (read_data (snd (fst r)), snd r))
                     else f base (snd (fst r)) env (snd r)) = Some r"
      and ok: "spi_core_ok env base" "nothing_left x" "spi_pending base h = 0"
    from spi_iter_nothing [OF ok] show "r = Inl Hang"
      using eq IH ok(1) by (auto simp: wp_def split: sum.splits prod.splits)
  qed
  with assms show ?thesis by simp
qed

text \<open>
  Asked to transfer no byte at all, on a core that keeps its protocol, the driver never returns:
  nothing is sent, so the receive flag its loop waits for never comes. (No caller does this.)
\<close>

lemma spi_empty_transfer_hangs:
  assumes "spi_core_ok env base"
  shows "alt_avalon_spi_command base slave [] 0 flags env h = Inl Hang"
proof -
  let ?x = "\<lparr>credits = 1, write_data = [], write_zeros = 0, read_ignore = 0, read_data = [], read_length = 0\<rparr>"
  have n: "nothing_left ?x" unfolding nothing_left_def by simp
  have run: "spi_run base ?x env h' = Inl Hang" if "spi_pending base h' = 0" for h'
  proof -
    have "spi_loop base ?x env h' = Some r \<Longrightarrow> r = Inl Hang" for r
      by (rule spi_loop_nothing [OF _ assms n that])
    then show ?thesis by (auto simp: spi_run_def split: option.splits)
  qed
  have "spi_pending base (h @ [Wr a v, Rd (IOADDR base SPI_RXDATA) w]) = 0"
    "spi_pending base (h @ [Wr a v, Wr a' v', Rd (IOADDR base SPI_RXDATA) w]) = 0" for a v a' v' w
    by (simp_all add: spi_pending_append)
  then have "wp (alt_avalon_spi_command base slave [] 0 flags) env (\<lambda>_ _. False) (\<lambda>f. f = Hang) h"
    unfolding alt_avalon_spi_command_def wp_bnd wp_IOWR wp_IORD
    by (auto simp: wp_simps wp_def [of "spi_run _ _"] run)
  then show ?thesis by (auto simp: wp_def split: sum.splits)
qed

lemma spi_empty_transfer_hangs_witness:
  "alt_avalon_spi_command SPI_LMS_BASE 0 [] 0 0 (bench (\<lambda>_ _. 0)) [] = Inl Hang"
  by (rule spi_empty_transfer_hangs [OF bench_core_ok [OF spi_bases_mem(1)]])

section \<open>I2C\<close>

text \<open>
  C14: the I2C calls on a core whose transfers end: each returns and adds exactly one operation to
  the bus, the start call the address byte with the read bit, the others a byte with or without a
  stop condition; start and write report the acknowledge.
\<close>

lemma i2c_operations:
  assumes "i2c_core_ok env base"
  shows "(\<exists>ack es. I2C_start base add rd env h = Inr (if ack then I2C_ACK else I2C_NOACK, h @ es) \<and>
        i2c_log (i2c_bus base (h @ es)) = i2c_log (i2c_bus base h) @ [SendAddr (ucast (push_bit 1 add + (0x1 AND rd))) ack]) \<and>
     (\<exists>ack es. I2C_write base dat lst env h = Inr (if ack then I2C_ACK else I2C_NOACK, h @ es) \<and>
        i2c_log (i2c_bus base (h @ es)) = i2c_log (i2c_bus base h) @ [SendByte dat (lst \<noteq> 0) ack]) \<and>
     (\<exists>v es. I2C_read base lst env h = Inr (v, h @ es) \<and>
        i2c_log (i2c_bus base (h @ es)) = i2c_log (i2c_bus base h) @ [RecvByte v (lst \<noteq> 0)])"
proof (intro conjI)
  let ?Q = "\<lambda>p r h'. \<exists>ack es. r = (if ack then I2C_ACK else I2C_NOACK) \<and> h' = h @ es \<and>
      i2c_log (i2c_bus base (h @ es)) = i2c_log (i2c_bus base h) @ [p ack]"
  let ?A = "SendAddr (ucast (push_bit 1 add + (0x1 AND rd)))" let ?B = "SendByte dat (lst \<noteq> 0)"
  have "wp (I2C_start base add rd) env (?Q ?A) (\<lambda>_. False) h"
    by (rule i2c.start_law) (use assms i2c_log_bus in blast)+
  from wp_totalD [OF this] show "\<exists>ack es. I2C_start base add rd env h = Inr (if ack then I2C_ACK else I2C_NOACK, h @ es) \<and>
        i2c_log (i2c_bus base (h @ es)) = i2c_log (i2c_bus base h) @ [?A ack]" by blast
  have "wp (I2C_write base dat lst) env (?Q ?B) (\<lambda>_. False) h"
    by (rule i2c.send_law) (use assms i2c_log_bus in blast)+
  from wp_totalD [OF this] show "\<exists>ack es. I2C_write base dat lst env h = Inr (if ack then I2C_ACK else I2C_NOACK, h @ es) \<and>
        i2c_log (i2c_bus base (h @ es)) = i2c_log (i2c_bus base h) @ [?B ack]" by blast
  have "wp (I2C_read base lst) env (\<lambda>v h'. \<exists>es. h' = h @ es \<and>
      i2c_log (i2c_bus base (h @ es)) = i2c_log (i2c_bus base h) @ [RecvByte v (lst \<noteq> 0)]) (\<lambda>_. False) h"
    by (rule i2c.recv_law) (use assms i2c_log_bus in blast)+
  from wp_totalD [OF this] show "\<exists>v es. I2C_read base lst env h = Inr (v, h @ es) \<and>
        i2c_log (i2c_bus base (h @ es)) = i2c_log (i2c_bus base h) @ [RecvByte v (lst \<noteq> 0)]" by blast
qed

lemma i2c_operations_witness:
  "\<exists>ack es. I2C_write I2C_OPENCORES_0_BASE 0x55 1 (bench (\<lambda>_ _. 0)) [] = Inr (if ack then 0 else 1, es) \<and>
     i2c_log (i2c_bus I2C_OPENCORES_0_BASE es) = [SendByte 0x55 True ack]"
proof -
  have ok: "i2c_core_ok (bench (\<lambda>_ _. 0)) I2C_OPENCORES_0_BASE" using board_ok_bench by blast
  from i2c_operations [OF ok, where h = "[]" and dat = "0x55" and lst = 1] obtain ack es where
    "I2C_write I2C_OPENCORES_0_BASE 0x55 1 (bench (\<lambda>_ _. 0)) [] = Inr (if ack then I2C_ACK else I2C_NOACK, [] @ es)"
    "i2c_log (i2c_bus I2C_OPENCORES_0_BASE ([] @ es)) = i2c_log (i2c_bus I2C_OPENCORES_0_BASE []) @ [SendByte 0x55 (1 \<noteq> (0 :: u32)) ack]"
    by blast
  then show ?thesis
    by (intro exI [of _ ack] exI [of _ es]) (simp add: I2C_ACK_def I2C_NOACK_def i2c_bus_def)
qed

text \<open>
  At the board's clock the start-up code programs the prescaler to 49, for which the bus runs at
  exactly the 400 kHz asked for, and enables the core last.
\<close>

lemma i2c_init_prescaler:
  "I2C_init I2C_OPENCORES_0_BASE ALT_CPU_FREQ 400000 env h = Inr ((), h @ i2c_setup I2C_OPENCORES_0_BASE 49) \<and>
   unat ALT_CPU_FREQ = 5 * (49 + 1) * 400000 \<and>
   last (i2c_setup I2C_OPENCORES_0_BASE 49) = Wr (IOADDR I2C_OPENCORES_0_BASE I2C_CTR) I2C_CTR_EN_MSK"
proof -
  have "wp (I2C_init I2C_OPENCORES_0_BASE ALT_CPU_FREQ 400000) env
      (\<lambda>_ h'. h' = h @ i2c_setup I2C_OPENCORES_0_BASE 49) (\<lambda>_. False) h"
    unfolding I2C_init_def by (simp add: wp_simps ALT_CPU_FREQ_def i2c_setup_def Let_def)
  from wp_totalD [OF this] show ?thesis by (auto simp: ALT_CPU_FREQ_def i2c_setup_def)
qed

section \<open>Address map\<close>

text \<open>
  No two devices of the system overlap, so a driver's accesses reach its own device only.
\<close>

lemma address_map_disjoint:
  "sorted_wrt disjoint_spans address_spans"
  by (simp add: address_spans_def disjoint_spans_def address_map)

end
