(* ===== verification/Programming.thy ===== *)
theory Programming
  imports Commands
begin

text \<open>
  The properties of the three upload paths: programming the configuration flash, the gateware stream
  that feeds it, and the firmware upload of the LMS7002M's microcontroller.
\<close>

section \<open>Flash\<close>

text \<open>
  The bit reversal the flash library applies to opcodes and addresses is exactly the reversal of
  the byte's bits, so it is its own inverse.
\<close>

lemma bit_reversal:
  "ReverseBitOrder (ReverseBitOrder b) = b \<and> (\<forall>n < 8. bit (ReverseBitOrder b) n = bit b (7 - n))"
proof
  show "ReverseBitOrder (ReverseBitOrder b) = b"
    by (rule bit_word_eqI) (simp add: bit_ReverseBitOrder)
  show "\<forall>n < 8. bit (ReverseBitOrder b) n = bit b (7 - n)" by (simp add: bit_ReverseBitOrder)
qed

lemma bit_reversal_witness:
  "bit (ReverseBitOrder 0x9F) 0 = bit (0x9F :: u8) 7 \<and> ReverseBitOrder (ReverseBitOrder 0x9F) = 0x9F"
  using bit_reversal [of "0x9F"] by auto

lemma waited_shape:
  assumes "waited n base slave r ws" "base \<in> spi_bases"
  shows "list_all board_act ws" "list_all unmerged ws" "length ws \<le> 2 * (n + 1)"
proof -
  from assms(1) obtain bs st where "ws = concat (map (wait_round base slave) (bs @ [st]))" "length bs \<le> n"
    unfolding waited_def by (blast intro: less_imp_le order_refl)
  then obtain sts where ws: "ws = concat (map (wait_round base slave) sts)" "length sts \<le> n + 1"
    by (metis add_le_cancel_right length_append_singleton Suc_eq_plus1)
  have "length (concat (map (wait_round base slave) sts)) = 2 * length sts"
    by (induction sts) (simp_all add: wait_round_def)
  with ws show "length ws \<le> 2 * (n + 1)" by simp
  show "list_all board_act ws" "list_all unmerged ws"
    using assms(2) unfolding ws(1) by (auto simp: list_all_iff wait_round_def)
qed

text \<open>
  C11: programming one page on a working board returns after at most 10001 status polls. When the
  flash got ready in time the page went out as one chip-select transaction, page-write opcode,
  bit-reversed address and the 256 bytes, and the status is 0; otherwise nothing but polls was sent
  and the status is 1.
\<close>

lemma flash_page_write:
  assumes "board_ok env" "length buf = FLASH_PAGE_SIZE" "base \<in> spi_bases"
    and "line_cs (spi_wire base (hist s)) = None"
  shows "\<exists>r s' acts ws. performs env (FlashSpiTransfer base slave page (of_nat FLASH_PAGE_SIZE) buf False) s acts (r, buf) s' \<and>
     waited STATUS_RETRIES base slave r ws \<and> length ws \<le> 20002 \<and> line_cs (spi_wire base (hist s')) = None \<and>
     line_txns (spi_wire base (hist s')) = line_txns (spi_wire base (hist s)) @ spi_part base ws @
       (if r = 0 then [(push_bit (unat slave) 1, flash_location FLASH_CMD_PAGE_WRITE (page * 0x100) @ buf)] else [])"
proof -
  have "twp (FlashSpiTransfer base slave page (of_nat FLASH_PAGE_SIZE) buf False) env
     (\<lambda>rb acts _. snd rb = buf \<and> page_programmed base slave (page * 0x100) buf (fst rb) acts) (\<lambda>_. False) s"
    by (rule twp_program_page) (use assms board_core_ok in auto)
  from twp_totalD [OF this] obtain r acts s' where
    p: "performs env (FlashSpiTransfer base slave page (of_nat FLASH_PAGE_SIZE) buf False) s acts (r, buf) s'"
    and pp: "page_programmed base slave (page * 0x100) buf r acts" by auto
  from pp obtain ws where w: "waited STATUS_RETRIES base slave r ws"
    and acts: "acts = ws @ (if r = 0 then
          [Spi base slave (flash_location FLASH_CMD_PAGE_WRITE (page * 0x100)) [] ALT_AVALON_SPI_COMMAND_MERGE,
           Spi base slave buf [] 0] else [])" unfolding page_programmed_def by blast
  note shape = waited_shape [OF w assms(3)]
  have "tidy acts" using tidy_page_programmed [OF assms(3) pp] .
  from performs_wires(1) [OF assms(1) p tidy_board [OF this] assms(3)]
  have wire: "spi_wire base (hist s') = foldl (spi_act base) (foldl (spi_act base) (spi_wire base (hist s)) ws) (drop (length ws) acts)"
    by (simp add: acts)
  from spi_act_txns [OF shape(2) assms(4), of base] have
    "line_cs (spi_wire base (hist s')) = None \<and>
     line_txns (spi_wire base (hist s')) = line_txns (spi_wire base (hist s)) @ spi_part base ws @
       (if r = 0 then [(push_bit (unat slave) 1, flash_location FLASH_CMD_PAGE_WRITE (page * 0x100) @ buf)] else [])"
    unfolding wire by (auto simp: acts spi_effect_def Let_def spi_masks)
  with p w shape(3) show ?thesis
    by (intro exI [of _ r] exI [of _ s'] exI [of _ acts] exI [of _ ws]) (simp add: STATUS_RETRIES_def)
qed

lemma flash_page_write_witness:
  "\<exists>r s' acts. performs (bench (\<lambda>_ _. 0x40))
     (FlashSpiTransfer SPI_FPGA_AS_BASE 0 3 (of_nat FLASH_PAGE_SIZE) (replicate 256 0xAB) False) fw_boot acts (r, replicate 256 0xAB) s' \<and>
     line_cs (spi_wire SPI_FPGA_AS_BASE (hist s')) = None"
  using flash_page_write [OF board_ok_bench, of "replicate 256 0xAB" SPI_FPGA_AS_BASE fw_boot "\<lambda>_ _. 0x40" 0 3]
  by (auto simp: flash_sizes fw_boot_def)

text \<open>
  C18: erasing a sector returns on a working board: write enable, the erase opcode with the
  bit-reversed address of the 64 KiB sector, then at most 3000001 status polls; 0 is returned exactly
  when the busy bit was seen clear before the limit.
\<close>

lemma flash_sector_erase:
  assumes "board_ok env" "base \<in> spi_bases" "isErase \<noteq> 0"
  shows "\<exists>r s' polls. performs env (FlashSpiEraseSector base slave isErase sector) s
     ([Spi base slave [FLASH_CMD_PAGE_WRITEEN] [] 0,
       Spi base slave (flash_location FLASH_CMD_SECTOR_ERASE (ucast sector * 0x10000)) [] 0] @
      map (\<lambda>st. Spi base slave [FLASH_CMD_PAGE_READST] st 0) polls) r s' \<and>
     0 < length polls \<and> length polls \<le> 3000001 \<and> (\<forall>st\<in>set (butlast polls). bit (st ! 0) 7) \<and>
     (r = 0 \<longleftrightarrow> \<not> bit (last polls ! 0) 7 \<and> length polls \<le> 3000000) \<and> (r = 0 \<or> r = 1)"
proof -
  have busy: "x AND 0x80 = 0 \<longleftrightarrow> \<not> bit x 7" for x :: u8 using and_exp_eq_0_iff_not_bit [of x 7] by simp
  have "twp (FlashSpiEraseSector base slave isErase sector) env (\<lambda>r acts _. sector_erased base slave sector r acts) (\<lambda>_. False) s"
    by (rule twp_FlashSpiEraseSector) (use assms board_core_ok in auto)
  from twp_totalD [OF this] obtain r acts s' where p: "performs env (FlashSpiEraseSector base slave isErase sector) s acts r s'"
    and e: "sector_erased base slave sector r acts" by blast
  from e obtain bs st where acts: "acts = [Spi base slave [FLASH_CMD_PAGE_WRITEEN] [] 0,
          Spi base slave (flash_location FLASH_CMD_SECTOR_ERASE (ucast sector * 0x10000)) [] 0] @
          map (\<lambda>b. Spi base slave [FLASH_CMD_PAGE_READST] b 0) (bs @ [st])"
    and b: "\<forall>b\<in>set bs. b ! 0 AND 0x80 \<noteq> 0"
    and r: "r = 0 \<and> st ! 0 AND 0x80 = 0 \<and> length bs < STATUS_RETRIES_ERASE \<or> r = 1 \<and> length bs = STATUS_RETRIES_ERASE"
    unfolding sector_erased_def polled_erase_def by blast
  show ?thesis
    by (intro exI [of _ r] exI [of _ s'] exI [of _ "bs @ [st]"])
      (use p b r in \<open>auto simp: acts busy STATUS_RETRIES_ERASE_def\<close>)
qed

lemma flash_sector_erase_witness:
  "\<exists>r s' acts. performs (bench (\<lambda>_ _. 0)) (FlashSpiEraseSector SPI_FPGA_AS_BASE 0 1 2) fw_boot acts r s' \<and> (r = 0 \<or> r = 1)"
  using flash_sector_erase [OF board_ok_bench spi_bases_mem(4), of 1 "\<lambda>_ _. 0" 0 2 fw_boot] by fastforce

section \<open>The gateware stream\<close>

text \<open>The handler in its flash-writing mode.\<close>

definition gw_input :: "fw \<Rightarrow> fw" where
  "gw_input s = s\<lparr>current_portion := rx_portion s, data_cnt := rx_count s\<rparr>"

lemma gw_input_simps [simp]:
  "fw_ok (gw_input s) = fw_ok s" "gw_holds bs (gw_input s) = gw_holds bs s" "data_cnt (gw_input s) = rx_count s"
  "current_portion (gw_input s) = rx_portion s" "glEp0Buffer_Rx (gw_input s) = glEp0Buffer_Rx s"
  "flash_page (gw_input s) = flash_page s" "flash_page_data_cnt (gw_input s) = flash_page_data_cnt s"
  "flash_page_data (gw_input s) = flash_page_data s" "fpga_byte (gw_input s) = fpga_byte s"
  by (simp_all add: gw_input_def fw_ok_def gw_holds_def)

lemma twp_gw_mode_1:
  assumes "glEp0Buffer_Rx s ! HDR_SIZE = 1" "twp gw_program env Q F (gw_input s)"
  shows "twp cmd_altera_fpga_gw_wr env Q F s"
  unfolding cmd_altera_fpga_gw_wr_def
  by (intro twp_intros twp_read_portion) (use assms in \<open>auto simp: gw_input_def\<close>)

text \<open>
  C6: one packet of a gateware upload refines appending its payload to the stream. With \<open>bs\<close> taken in
  before, for a payload of 1 to 32 bytes that does not straddle a flash page and an upload that stays
  within the flash (2751361 bytes), the handler holds \<open>bs\<close> and the payload afterwards; a page that
  became full was sent to the flash at its own place, its sector erased first when it is the first
  page of one, and the packet is refused exactly when the flash failed. What happens to a packet that
  straddles a page is C21.
\<close>

lemma gateware_stream_step:
  assumes "board_ok env" "fw_ok s" "glEp0Buffer_Rx s ! HDR_SIZE = 1"
    and "if rx_portion s = 0 then bs = [] else gw_holds bs s"
    and "0 < unat (rx_count s)" "unat (rx_count s) \<le> 32" "length bs mod 256 + unat (rx_count s) \<le> 256"
    and "length bs + unat (rx_count s) \<le> 2751361"
  shows "\<exists>acts s'. performs env cmd_altera_fpga_gw_wr s acts () s' \<and> gw_step_post bs (rx_payload s) acts s'"
proof -
  have "twp gw_program env (\<lambda>_. gw_step_post bs (rx_payload s)) (\<lambda>_. False) (gw_input s)"
    by (rule twp_gw_stream_step) (use assms in \<open>auto simp: rx_payload_def\<close>)
  from twp_unitD [OF twp_gw_mode_1 [OF assms(3) this]] show ?thesis by blast
qed

text \<open>A started program in the middle of an upload, with the first page's bytes in its buffer.\<close>

definition with_page :: "u8 list \<Rightarrow> fw \<Rightarrow> fw" where
  "with_page bs s = s\<lparr>flash_page := 0, flash_page_data_cnt := int (length bs), flash_page_data := pad 256 bs,
     fpga_byte := of_nat (length bs)\<rparr>"

lemma with_page_simps [simp]:
  "glEp0Buffer_Rx (with_page bs s) = glEp0Buffer_Rx s" "rx_portion (with_page bs s) = rx_portion s"
  "rx_count (with_page bs s) = rx_count s" "rx_payload (with_page bs s) = rx_payload s"
  by (simp_all add: with_page_def rx_portion_def rx_count_def rx_payload_def)

lemma with_page_ok:
  assumes "fw_ok s" "length bs < 256"
  shows "fw_ok (with_page bs s)" "gw_holds bs (with_page bs s)"
  using assms by (simp_all add: with_page_def fw_ok_def gw_holds_def flash_sizes pad_def)

lemma rx_portion_with_packet:
  "rx_portion (with_packet hdr (m # p # 0 # 0 # 0 # dat)) = push_bit 24 (ucast p)"
  using rx_byte_with_packet [of 1] rx_byte_with_packet [of 2] rx_byte_with_packet [of 3] rx_byte_with_packet [of 4]
  by (simp add: rx_portion_def)

lemma gateware_stream_step_witness:
  "\<exists>acts s'. performs (bench (\<lambda>_ _. 0)) cmd_altera_fpga_gw_wr (with_packet [] [1, 0, 0, 0, 0, 3]) acts () s' \<and> acts = []"
proof -
  let ?s = "with_packet [] [1, 0, 0, 0, 0, 3]"
  have c: "unat (rx_count ?s) = 3" by (simp add: rx_count_with_packet)
  then have l: "length (rx_payload ?s) = 3" by (simp add: rx_payload_def with_packet_simps)
  have "glEp0Buffer_Rx ?s ! HDR_SIZE = 1" using rx_byte_with_packet [of 0] by simp
  moreover have "if rx_portion ?s = 0 then [] = [] else gw_holds [] ?s" by (simp add: rx_portion_with_packet)
  ultimately show ?thesis
    using gateware_stream_step [OF board_ok_bench [of "\<lambda>_ _. 0"] fw_ok_with_packet, of "[]" "[1, 0, 0, 0, 0, 3]" "[]"] c l
    by (auto simp: gw_step_post_def)
qed

lemma take_splice_5:
  assumes "length (buf :: u8 list) = 256"
  shows "take 5 (splice 0 (le32 v @ [1]) buf) = le32 v @ [1]"
  by (subst splice_take_drop) (simp_all add: assms le32_def)

text \<open>
  C12: the packet that ends the upload (a count of zero) pads the page in progress and sends it to the
  flash; on success it reports completion and leaves the size of the stream and the autoload flag at
  the start of the page buffer.
\<close>

lemma gateware_stream_end:
  assumes "board_ok env" "fw_ok s" "glEp0Buffer_Rx s ! HDR_SIZE = 1" "rx_portion s \<noteq> 0" "gw_holds bs s"
    and "rx_count s = 0" "length bs mod 256 > 0" "length bs \<le> 2751361"
  shows "\<exists>acts s' page r. performs env cmd_altera_fpga_gw_wr s acts () s' \<and>
     flushed_to (int (length bs div 256)) page r acts \<and> length page = 256 \<and>
     take (length bs mod 256) page = drop (256 * (length bs div 256)) bs \<and>
     (if r = 0 then tx_hdr HDR_STATUS s' = STATUS_COMPLETED_CMD \<and>
        take 5 (flash_page_data s') = le32 (of_nat (length bs)) @ [1]
      else tx_hdr HDR_STATUS s' = STATUS_ERROR_CMD)"
proof -
  let ?t = "gw_input s" let ?v = "filled (begun ?t)" let ?k = "length bs mod 256"
  have b: "begun ?t = ?t" using assms(4) by (simp add: begun_def)
  have "fw_ok ?t" using assms(2) by simp
  moreover have t': "flash_page_data_cnt ?t = int ?k" "?k < 256" "sint (flash_page ?t) = int (length bs div 256)"
    "fpga_byte ?t = of_nat (length bs)" "length (flash_page_data s) = 256"
    "take ?k (flash_page_data s) = drop (256 * (length bs div 256)) bs"
    using assms(2,5) by (simp_all add: gw_holds_def fw_ok_def flash_sizes)
  ultimately have t: "fw_ok ?t" "flash_page_data_cnt ?t = int ?k" "?k < 256" "sint (flash_page ?t) = int (length bs div 256)"
    "fpga_byte ?t = of_nat (length bs)" "length (flash_page_data s) = 256"
    "take ?k (flash_page_data s) = drop (256 * (length bs div 256)) bs" by simp_all
  have n: "fill_count ?t = 0" using t(2,3) assms(6) by (simp add: fill_count_def flash_sizes)
  have v: "flash_page_data_cnt ?v = 256" "sint (flash_page ?v) = int (length bs div 256)" "flash_data_counter_to_copy ?v = 0"
    "flash_page_data ?v = flash_page_data s" "fpga_byte ?v = of_nat (length bs)" "data_cnt ?v = 0"
    using t(2-5) n assms(6,7) by (auto simp: b filled_def flash_sizes Let_def)
  have kv: "kept ?t ?v" using t(1) by (intro kept_filled kept_begun kept_refl)
  have le: "of_nat (length bs) \<le> FPGA_SIZE"
    using assms(8) by (simp add: FPGA_SIZE_def word_le_nat_alt unat_of_nat)
  let ?R = "\<lambda>acts s'. \<exists>page r. flushed_to (int (length bs div 256)) page r acts \<and> length page = 256 \<and>
     take ?k page = drop (256 * (length bs div 256)) bs \<and>
     (if r = 0 then tx_hdr HDR_STATUS s' = STATUS_COMPLETED_CMD \<and>
        take 5 (flash_page_data s') = le32 (of_nat (length bs)) @ [1]
      else tx_hdr HDR_STATUS s' = STATUS_ERROR_CMD)"
  have "twp gw_program env (\<lambda>_. ?R) (\<lambda>_. False) ?t"
  proof (rule twp_gw_program [OF _ t(1)])
    fix acts h
    assume fl: "page_flushed ?v 0 acts"
    let ?w = "next_page h ?v"
    have sp: "spilled ?w = ?w" using v by (simp add: spilled_def next_page_def)
    have w: "kept ?t ?w" by (rule kept_next_page [OF kv])
    have "tx_hdr HDR_STATUS (finished ?w) = STATUS_COMPLETED_CMD"
      using finished_status [OF w] v le by (simp add: next_page_def)
    moreover have "take 5 (flash_page_data (finished ?w)) = le32 (of_nat (length bs)) @ [1]"
      using v le t(6) by (simp add: finished_def next_page_def Let_def take_splice_5 del: splice.simps)
    ultimately show "?R acts (finished (spilled ?w))"
      unfolding sp using fl v t(6,7)
      by (intro exI [of _ "flash_page_data s"] exI [of _ 0]) (simp add: page_flushed_def)
  next
    fix r acts h
    assume fl: "page_flushed ?v r acts" and r: "r \<noteq> 0"
    then show "?R acts (?v\<lparr>spiFastRead := 1, hist := h,
         glEp0Buffer_Tx := (glEp0Buffer_Tx ?v)[HDR_STATUS := STATUS_ERROR_CMD]\<rparr>)"
      using v t(6,7) kept_ok [OF kv]
      by (intro exI [of _ "flash_page_data s"] exI [of _ r]) (simp add: page_flushed_def fw_ok_lengths)
  qed (use v assms in \<open>auto simp: flash_sizes\<close>)
  from twp_unitD [OF twp_gw_mode_1 [OF assms(3) this]] show ?thesis by blast
qed

lemma gateware_stream_end_witness:
  "\<exists>acts s'. performs (bench (\<lambda>_ _. 0)) cmd_altera_fpga_gw_wr
     (with_page (replicate 250 7) (with_packet [] [1, 1, 0, 0, 0])) acts () s'"
proof -
  let ?s = "with_page (replicate 250 7) (with_packet [] [1, 1, 0, 0, 0])"
  have "glEp0Buffer_Rx ?s ! HDR_SIZE = 1" using rx_byte_with_packet [of 0] by simp
  moreover have "rx_portion ?s \<noteq> 0" by (simp add: rx_portion_with_packet)
  moreover have "rx_count ?s = 0" by (simp add: rx_count_with_packet)
  ultimately show ?thesis
    using gateware_stream_end [OF board_ok_bench [of "\<lambda>_ _. 0"] with_page_ok(1) _ _ with_page_ok(2), of "with_packet [] [1, 1, 0, 0, 0]" "replicate 250 7"]
    by fastforce
qed



section \<open>The microcontroller upload\<close>

text \<open>
  A portion of the microcontroller's program that does not follow the last one is refused before
  any bus access, on any hardware; the portion number is stored all the same.
\<close>

lemma mcu_wrong_order:
  assumes "p = glEp0Buffer_Rx s ! (HDR_SIZE + 1)" "p \<noteq> 0" "last_portion s \<noteq> ucast p - 1"
  shows "cmd_lms_mcu_fw_wr env s = Inr ((), s\<lparr>current_portion := ucast p,
     glEp0Buffer_Tx := (glEp0Buffer_Tx s)[HDR_STATUS := STATUS_WRONG_ORDER_CMD]\<rparr>)"
proof -
  have "ucast p \<noteq> (0 :: u32)" using assms(2) by (metis ucast_u8_u32 unsigned_0)
  then have "wp cmd_lms_mcu_fw_wr env (\<lambda>_ s'. s' = s\<lparr>current_portion := ucast p,
     glEp0Buffer_Tx := (glEp0Buffer_Tx s)[HDR_STATUS := STATUS_WRONG_ORDER_CMD]\<rparr>) (\<lambda>_. False) s"
    unfolding cmd_lms_mcu_fw_wr_def using assms by (simp add: wp_simps wp_accessors)
  from wp_totalD [OF this] show ?thesis by auto
qed

lemma mcu_wrong_order_witness:
  "\<exists>s'. cmd_lms_mcu_fw_wr (bench (\<lambda>_ _. 0)) (with_packet [] [0, 5]) = Inr ((), s') \<and> current_portion s' = 5"
proof -
  have "5 = glEp0Buffer_Rx (with_packet [] [0, 5]) ! (HDR_SIZE + 1)"
    using rx_byte_with_packet [of 1] by simp
  from mcu_wrong_order [OF this] show ?thesis by (simp add: with_packet_def fw_boot_def)
qed

text \<open>
  C19: the waits limited to 30 polls end on a working board: at most 30 status reads miss, and a wait
  that gives up has seen exactly 30.
\<close>

lemma mcu_wait_bounded:
  assumes "board_ok env" "fw_ok s"
  shows "\<exists>misses hit acts s'. performs env (mcu_wait MAX_MCU_RETRIES flag) s acts () s' \<and>
     mcu_polled flag (s\<lparr>MCU_retries := 0\<rparr>) misses hit acts s' \<and> length misses \<le> 30 \<and>
     (hit = None \<longrightarrow> length misses = 30)"
proof -
  let ?s = "s\<lparr>MCU_retries := 0\<rparr>"
  have lms: "spi_core_ok env SPI_LMS_BASE" using assms(1) by blast
  from mcu_wait_loop_bounded [OF lms, of MAX_MCU_RETRIES ?s flag] assms(2)
  obtain misses hit acts s' where "mcu_wait_loop MAX_MCU_RETRIES flag env ?s = Some (Inr ((), s'))"
    "after env (hist ?s) acts s'" "mcu_polled flag ?s misses hit acts s'"
    "length misses \<le> 30" "hit = None \<longrightarrow> length misses = 30"
    by (auto simp: MAX_MCU_RETRIES_def fw_ok_lengths)
  then show ?thesis
    by (intro exI [of _ misses] exI [of _ hit] exI [of _ acts] exI [of _ s'])
      (simp add: performs_def mcu_wait_def bnd_def modify_def after_def)
qed

lemma mcu_wait_bounded_witness:
  "\<exists>acts s'. performs (bench (\<lambda>_ _. 0)) (mcu_wait MAX_MCU_RETRIES 0x01) fw_boot acts () s'"
  using mcu_wait_bounded [OF board_ok_bench [of "\<lambda>_ _. 0"] fw_ok_boot, where flag = "0x01"] by blast

text \<open>
  C20: the wait after the FIFO was written has no time-out although it is coded with a limit of 500:
  the retry counter is eight bits wide, so on a working board the loop either runs for ever or is left
  by a status read that hits, never by its limit.
\<close>

lemma mcu_wait_500_never_gives_up:
  assumes "board_ok env" "fw_ok s"
  shows "mcu_wait 500 flag env s = Inl Hang \<or>
     (\<exists>misses d acts s'. performs env (mcu_wait 500 flag) s acts () s' \<and>
        mcu_polled flag (s\<lparr>MCU_retries := 0\<rparr>) misses (Some d) acts s')"
proof (cases "mcu_wait_loop 500 flag env (s\<lparr>MCU_retries := 0\<rparr>)")
  case None
  then show ?thesis by (simp add: mcu_wait_def bnd_def modify_def)
next
  case (Some r)
  let ?s = "s\<lparr>MCU_retries := 0\<rparr>"
  have lms: "spi_core_ok env SPI_LMS_BASE" using assms(1) by blast
  from mcu_wait_loop_result [where F = "\<lambda>_. False", OF Some] assms(2) lms obtain s' misses hit acts where
    p: "r = Inr ((), s')" "after env (hist ?s) acts s'" "mcu_polled flag ?s misses hit acts s'"
    "hit = None \<longrightarrow> 500 \<le> unat (MCU_retries s')"
    by (cases r) (auto simp: fw_ok_lengths)
  have "unat (MCU_retries s') < 256" by (rule unat_u8_less)
  with p obtain d where "hit = Some d" by (cases hit) auto
  with p Some show ?thesis
    by (intro disjI2 exI [of _ misses] exI [of _ d] exI [of _ acts] exI [of _ s'])
      (simp add: performs_def mcu_wait_def bnd_def modify_def after_def)
qed

lemma mcu_wait_500_never_gives_up_witness:
  "mcu_wait 500 2 (bench (\<lambda>_ _. 0)) fw_boot = Inl Hang \<or>
   (\<exists>acts s'. performs (bench (\<lambda>_ _. 0)) (mcu_wait 500 2) fw_boot acts () s')"
  using mcu_wait_500_never_gives_up [OF board_ok_bench [of "\<lambda>_ _. 0"] fw_ok_boot, of 2] by blast

end
