(* ===== verification/Ring.thy ===== *)
theory Ring
  imports Platform
begin

text \<open>
  The circular buffers of the interrupt-driven drivers: 64 bytes, a start and an end index, one slot
  always kept free. \<open>ring_content\<close> reads a buffer as the queue of its pending bytes; the locale
  \<open>byte_queue\<close> is the contract both directions of the UART rest on.
\<close>

section \<open>Indices\<close>

definition ALT_AVALON_UART_BUF_LEN :: nat where "ALT_AVALON_UART_BUF_LEN = 64"
definition ALT_AVALON_UART_BUF_MSK :: u32 where "ALT_AVALON_UART_BUF_MSK = 63"

definition ring_next :: "u32 \<Rightarrow> u32" where
  "ring_next i = (i + 1) AND ALT_AVALON_UART_BUF_MSK"

lemma unat_ring_next: "unat (ring_next i) = (unat i + 1) mod 64"
proof -
  have "(i + 1) AND 63 = take_bit 6 (i + 1)" by (simp add: take_bit_eq_mask mask_eq_exp_minus_1)
  then have "unat (ring_next i) = unat (i + 1) mod 64"
    unfolding ring_next_def ALT_AVALON_UART_BUF_MSK_def
    by (simp only: unsigned_take_bit_eq) (simp add: take_bit_eq_mod)
  also have "unat (i + 1) = (unat i + 1) mod 2 ^ 32" by (simp add: unat_word_ariths)
  also have "(unat i + 1) mod 2 ^ 32 mod 64 = (unat i + 1) mod 64"
    by (rule mod_mod_cancel) simp
  finally show ?thesis .
qed

lemma ring_next_less [simp]: "unat (ring_next i) < 64"
  by (simp add: unat_ring_next)

lemma ring_next_eq_iff: "unat s < 64 \<Longrightarrow> ring_next e = s \<longleftrightarrow> (unat e + 1) mod 64 = unat s"
  by (metis unat_ring_next word_unat_eq_iff)

section \<open>The pending bytes\<close>

definition ring_count :: "u32 \<Rightarrow> u32 \<Rightarrow> nat" where
  "ring_count s e = (unat e + 64 - unat s) mod 64"

definition ring_content :: "u8 list \<Rightarrow> u32 \<Rightarrow> u32 \<Rightarrow> u8 list" where
  "ring_content buf s e = map (\<lambda>k. buf ! ((unat s + k) mod 64)) [0..<ring_count s e]"

lemma length_ring_content [simp]: "length (ring_content buf s e) = ring_count s e"
  by (simp add: ring_content_def)

lemma ring_count_less: "ring_count s e < 64"
  by (simp add: ring_count_def)

lemma ring_count_0:
  assumes "unat s < 64" "unat e < 64"
  shows "ring_count s e = 0 \<longleftrightarrow> s = e"
  using assms unfolding ring_count_def word_unat_eq_iff by (cases "unat e < unat s") (auto simp: mod_if)

lemma ring_full:
  assumes "unat s < 64" "unat e < 64"
  shows "ring_next e = s \<longleftrightarrow> ring_count s e = 63"
  using assms unfolding ring_count_def ring_next_eq_iff [OF assms(1)]
  by (cases "unat e < unat s") (auto simp: mod_if)

lemma ring_content_Nil [simp]: "ring_content buf s s = []"
  by (simp add: ring_content_def ring_count_def)

lemma ring_content_empty:
  "unat s < 64 \<Longrightarrow> unat e < 64 \<Longrightarrow> ring_content buf s e = [] \<longleftrightarrow> s = e"
  using ring_count_0 [of s e] by (metis length_0_conv length_ring_content)

text \<open>The slot at the end holds no pending byte; advancing the end makes it one.\<close>

lemma ring_end_slot:
  assumes "unat s < 64" "unat e < 64" "k < ring_count s e"
  shows "(unat s + k) mod 64 \<noteq> unat e"
  using assms ring_count_less [of s e] unfolding ring_count_def
  by (cases "unat e < unat s") (auto simp: mod_if split: if_splits)

lemma ring_store_end:
  assumes "unat s < 64" "unat e < 64"
  shows "ring_content (buf[unat e := b]) s e = ring_content buf s e"
  unfolding ring_content_def
  by (intro map_cong refl) (metis assms atLeastLessThan_iff nth_list_update_neq ring_end_slot set_upt)

lemma ring_advance:
  assumes "unat s < 64" "unat e < 64" "ring_next e \<noteq> s"
  shows "ring_content buf s (ring_next e) = ring_content buf s e @ [buf ! unat e]"
proof -
  have n: "ring_count s (ring_next e) = Suc (ring_count s e)"
    using assms unfolding ring_count_def unat_ring_next ring_next_eq_iff [OF assms(1)]
    by (cases "unat e < unat s") (auto simp: mod_if)
  have e: "(unat s + ring_count s e) mod 64 = unat e"
    using assms(1,2) unfolding ring_count_def by (cases "unat e < unat s") (auto simp: mod_if)
  show ?thesis by (simp add: ring_content_def n e)
qed

text \<open>Storing a byte at the end of a ring that is not full appends it.\<close>

lemma ring_put:
  assumes "unat s < 64" "unat e < 64" "length buf = 64" "ring_next e \<noteq> s"
  shows "ring_content (buf[unat e := b]) s (ring_next e) = ring_content buf s e @ [b]"
  using ring_advance [OF assms(1,2,4)] ring_store_end [OF assms(1,2)] assms(2,3) by simp

text \<open>The first byte is the one at the start index; advancing the start removes it.\<close>

lemma ring_get:
  assumes "unat s < 64" "unat e < 64" "s \<noteq> e"
  shows "ring_content buf s e = buf ! unat s # ring_content buf (ring_next s) e"
proof -
  have n: "ring_count s e = Suc (ring_count (ring_next s) e)"
    using assms unfolding ring_count_def unat_ring_next word_unat_eq_iff [of s e]
    by (cases "unat e < unat s") (auto simp: mod_if)
  have "[0..<Suc m] = 0 # map Suc [0..<m]" for m by (simp add: map_Suc_upt upt_conv_Cons del: upt_Suc)
  moreover have "(unat s + Suc k) mod 64 = (unat (ring_next s) + k) mod 64" for k
    unfolding unat_ring_next by (simp add: mod_add_left_eq)
  ultimately show ?thesis using assms(1) by (simp add: ring_content_def n comp_def del: upt_Suc)
qed

text \<open>
  Storing a byte in a full ring instead moves the end onto the start: the ring is then empty, and
  all 63 pending bytes are lost.
\<close>

lemma ring_put_full: "ring_next e = s \<Longrightarrow> ring_content (buf[unat e := b]) s (ring_next e) = []"
  by simp

section \<open>The queue contract\<close>

locale byte_queue =
  fixes ok :: "'s \<Rightarrow> bool"
    and content :: "'s \<Rightarrow> u8 list"
    and put :: "u8 \<Rightarrow> 's \<Rightarrow> 's"
    and get :: "'s \<Rightarrow> 's"
    and full :: "'s \<Rightarrow> bool"
    and room :: nat
  assumes ok_put: "ok s \<Longrightarrow> ok (put b s)"
    and ok_get: "ok s \<Longrightarrow> ok (get s)"
    and full_iff: "ok s \<Longrightarrow> full s \<longleftrightarrow> length (content s) = room"
    and content_le: "ok s \<Longrightarrow> length (content s) \<le> room"
    and content_put: "ok s \<Longrightarrow> \<not> full s \<Longrightarrow> content (put b s) = content s @ [b]"
    and content_get: "ok s \<Longrightarrow> content s \<noteq> [] \<Longrightarrow> content (get s) = tl (content s)"
begin

text \<open>Taking bytes out until \<open>n\<close> were taken or none is left.\<close>

lemma gets_content:
  "ok s \<Longrightarrow> n \<le> length (content s) \<Longrightarrow> ok ((get ^^ n) s) \<and> content ((get ^^ n) s) = drop n (content s)"
proof (induction n)
  case (Suc n)
  then have IH: "ok ((get ^^ n) s)" "content ((get ^^ n) s) = drop n (content s)" by simp_all
  moreover have "drop n (content s) \<noteq> []" using Suc.prems(2) by simp
  ultimately show ?case by (simp add: ok_get content_get drop_Suc tl_drop)
qed simp

text \<open>Bytes that fit are queued in order.\<close>

lemma puts_content:
  "ok s \<Longrightarrow> length (content s) + length bs \<le> room \<Longrightarrow>
   ok (fold put bs s) \<and> content (fold put bs s) = content s @ bs"
proof (induction bs arbitrary: s)
  case (Cons b bs)
  then have "\<not> full s" by (simp add: full_iff)
  with Cons.prems have "content (put b s) = content s @ [b]" by (simp add: content_put)
  with Cons.prems Cons.IH [of "put b s"] show ?case by (simp add: ok_put)
qed simp

text \<open>First in, first out.\<close>

lemma fifo:
  assumes "ok s" "content s = []" "length bs \<le> room" "n \<le> length bs"
  shows "content ((get ^^ n) (fold put bs s)) = drop n bs"
  using puts_content [of s bs] gets_content [of "fold put bs s" n] assms by simp

end

end
