(* ===== verification/Uart.thy ===== *)
theory Uart
  imports Ring
begin

text \<open>
  The interrupt-driven UART driver, \<^verbatim>\<open>drivers/src/altera_avalon_uart_*.c\<close>: the state structure
  with its two circular buffers, the interrupt handler with its receive and transmit halves, and
  the foreground calls read, write, close and ioctl, which an interrupt can enter between any two
  accesses to the shared state. The polled (small) variant of read and write is at the end.
\<close>

section \<open>Registers and state\<close>

abbreviation (input) UART_RXDATA :: u32 where "UART_RXDATA \<equiv> 0"
abbreviation (input) UART_TXDATA :: u32 where "UART_TXDATA \<equiv> 1"
abbreviation (input) UART_STATUS :: u32 where "UART_STATUS \<equiv> 2"
abbreviation (input) UART_CONTROL :: u32 where "UART_CONTROL \<equiv> 3"
abbreviation (input) UART_DIVISOR :: u32 where "UART_DIVISOR \<equiv> 4"

definition UART_STATUS_PE_MSK :: u32 where "UART_STATUS_PE_MSK = 0x1"
definition UART_STATUS_FE_MSK :: u32 where "UART_STATUS_FE_MSK = 0x2"
definition UART_STATUS_TRDY_MSK :: u32 where "UART_STATUS_TRDY_MSK = 0x40"
definition UART_STATUS_RRDY_MSK :: u32 where "UART_STATUS_RRDY_MSK = 0x80"
definition UART_STATUS_DCTS_MSK :: u32 where "UART_STATUS_DCTS_MSK = 0x400"
definition UART_STATUS_CTS_MSK :: u32 where "UART_STATUS_CTS_MSK = 0x800"
definition UART_CONTROL_TRDY_MSK :: u32 where "UART_CONTROL_TRDY_MSK = 0x40"
definition UART_CONTROL_RRDY_MSK :: u32 where "UART_CONTROL_RRDY_MSK = 0x80"
definition UART_CONTROL_DCTS_MSK :: u32 where "UART_CONTROL_DCTS_MSK = 0x400"
definition UART_CONTROL_RTS_MSK :: u32 where "UART_CONTROL_RTS_MSK = 0x800"

definition ALT_AVALON_UART_FB :: u32 where "ALT_AVALON_UART_FB = 0x1"
definition ALT_AVALON_UART_FC :: u32 where "ALT_AVALON_UART_FC = 0x2"

definition UART_IRQ :: nat where "UART_IRQ = 1"

text \<open>The C library's values of the flags and error numbers the driver uses.\<close>

definition O_NONBLOCK :: u32 where "O_NONBLOCK = 0x4000"
definition EWOULDBLOCK :: int where "EWOULDBLOCK = 11"
definition EIO :: int where "EIO = 5"
definition ENOTTY :: int where "ENOTTY = 25"
definition TIOCMGET :: u32 where "TIOCMGET = 0x741d"
definition TIOCMSET :: u32 where "TIOCMSET = 0x741a"

record termios =
  c_iflag :: u16
  c_oflag :: u16
  c_cflag :: u16
  c_lflag :: u16
  c_line :: u8
  c_cc :: "u8 list"
  c_ispeed :: u32
  c_ospeed :: u32

text \<open>
  \<open>altera_avalon_uart_state\<close>, with the bus history and the C library's \<open>errno\<close>. The events and
  locks are empty in the single-threaded environment.
\<close>

record uart =
  uart_hist :: history
  uart_errno :: int
  sp_base :: u32
  sp_ctrl :: u32
  sp_rx_start :: u32
  sp_rx_end :: u32
  sp_tx_start :: u32
  sp_tx_end :: u32
  sp_termios :: termios
  sp_freq :: u32
  sp_flags :: u32
  sp_rx_buf :: "u8 list"
  sp_tx_buf :: "u8 list"

definition udrv :: "(history, 'a) prog \<Rightarrow> (uart, 'a) prog" where
  "udrv m = (\<lambda>env s. case m env (uart_hist s) of
     Inl f \<Rightarrow> Inl f | Inr (a, h) \<Rightarrow> Inr (a, s\<lparr>uart_hist := h\<rparr>))"

lemma wp_udrv [wp_simps]:
  "wp (udrv m) env Q F s = wp m env (\<lambda>a h. Q a (s\<lparr>uart_hist := h\<rparr>)) F (uart_hist s)"
  by (auto simp: wp_def udrv_def split: sum.splits prod.splits)

definition uart_rd :: "u32 \<Rightarrow> (uart, u32) prog" where
  "uart_rd r = bnd (gets sp_base) (\<lambda>b. udrv (IORD b r))"

definition uart_wr :: "u32 \<Rightarrow> u32 \<Rightarrow> (uart, unit) prog" where
  "uart_wr r v = bnd (gets sp_base) (\<lambda>b. udrv (IOWR b r v))"

text \<open>The accesses to the two buffers, with the bounds of the C arrays.\<close>

definition rx_buf_store :: "u32 \<Rightarrow> u8 \<Rightarrow> (uart, unit) prog" where
  "rx_buf_store i v = (\<lambda>env s. if unat i < length (sp_rx_buf s)
     then Inr ((), s\<lparr>sp_rx_buf := (sp_rx_buf s)[unat i := v]\<rparr>) else Inl OutOfBounds)"

definition tx_buf_store :: "u32 \<Rightarrow> u8 \<Rightarrow> (uart, unit) prog" where
  "tx_buf_store i v = (\<lambda>env s. if unat i < length (sp_tx_buf s)
     then Inr ((), s\<lparr>sp_tx_buf := (sp_tx_buf s)[unat i := v]\<rparr>) else Inl OutOfBounds)"

definition rx_buf_load :: "u32 \<Rightarrow> (uart, u8) prog" where
  "rx_buf_load i = (\<lambda>env s. if unat i < length (sp_rx_buf s) then Inr (sp_rx_buf s ! unat i, s) else Inl OutOfBounds)"

definition tx_buf_load :: "u32 \<Rightarrow> (uart, u8) prog" where
  "tx_buf_load i = (\<lambda>env s. if unat i < length (sp_tx_buf s) then Inr (sp_tx_buf s ! unat i, s) else Inl OutOfBounds)"

lemma wp_bufs [wp_simps]:
  "wp (rx_buf_store i v) env Q F s =
     (if unat i < length (sp_rx_buf s) then Q () (s\<lparr>sp_rx_buf := (sp_rx_buf s)[unat i := v]\<rparr>) else F OutOfBounds)"
  "wp (tx_buf_store i v) env Q F s =
     (if unat i < length (sp_tx_buf s) then Q () (s\<lparr>sp_tx_buf := (sp_tx_buf s)[unat i := v]\<rparr>) else F OutOfBounds)"
  "wp (rx_buf_load i) env R F s = (if unat i < length (sp_rx_buf s) then R (sp_rx_buf s ! unat i) s else F OutOfBounds)"
  "wp (tx_buf_load i) env R F s = (if unat i < length (sp_tx_buf s) then R (sp_tx_buf s ! unat i) s else F OutOfBounds)"
  by (simp_all add: wp_def rx_buf_store_def tx_buf_store_def rx_buf_load_def tx_buf_load_def)

definition set_ctrl :: "u32 \<Rightarrow> (uart, unit) prog" where
  "set_ctrl m = modify (\<lambda>s. s\<lparr>sp_ctrl := sp_ctrl s OR m\<rparr>)"

definition clear_ctrl :: "u32 \<Rightarrow> (uart, unit) prog" where
  "clear_ctrl m = modify (\<lambda>s. s\<lparr>sp_ctrl := sp_ctrl s AND NOT m\<rparr>)"

definition write_ctrl :: "(uart, unit) prog" where
  "write_ctrl = bnd (gets sp_ctrl) (uart_wr UART_CONTROL)"

section \<open>Start-up\<close>

text \<open>The instance of the board's UART: its parameters in \<^verbatim>\<open>system.h\<close>, the bits of \<open>c_cflag\<close> in
  \<^verbatim>\<open>sys/termios.h\<close>.\<close>

definition UART_BAUD :: u32 where "UART_BAUD = 115200"
definition UART_FREQ :: u32 where "UART_FREQ = 100000000"
definition UART_DATA_BITS :: nat where "UART_DATA_BITS = 8"
definition UART_STOP_BITS :: nat where "UART_STOP_BITS = 1"
definition UART_PARITY :: char where "UART_PARITY = CHR ''N''"
definition UART_FIXED_BAUD :: bool where "UART_FIXED_BAUD = True"
definition UART_USE_CTS_RTS :: bool where "UART_USE_CTS_RTS = False"

definition CS7 :: u16 where "CS7 = 0x20"
definition CS8 :: u16 where "CS8 = 0x30"
definition CS9 :: u16 where "CS9 = 0"
definition CSTOPB :: u16 where "CSTOPB = 0x40"
definition PARENB :: u16 where "PARENB = 0x100"
definition PAODD :: u16 where "PAODD = 0x200"
definition CRTSCTS :: u16 where "CRTSCTS = 0x1000 OR 0x2000"

definition ALTERA_AVALON_UART_TERMIOS :: "nat \<Rightarrow> bool \<Rightarrow> bool \<Rightarrow> nat \<Rightarrow> bool \<Rightarrow> u32 \<Rightarrow> termios" where
  "ALTERA_AVALON_UART_TERMIOS stop_bits parity odd_parity data_bits ctsrts baud =
     \<lparr>c_iflag = 0, c_oflag = 0,
      c_cflag = (if stop_bits = 2 then CSTOPB else 0) OR (if parity then PARENB else 0) OR
        (if odd_parity then PAODD else 0) OR
        (if data_bits = 7 then CS7 else if data_bits = 9 then CS9 else CS8) OR (if ctsrts then CRTSCTS else 0),
      c_lflag = 0, c_line = 0, c_cc = replicate 13 0, c_ispeed = baud, c_ospeed = baud\<rparr>"

definition ALTERA_AVALON_UART_DEV_INSTANCE :: uart where
  "ALTERA_AVALON_UART_DEV_INSTANCE =
     \<lparr>uart_hist = [], uart_errno = 0, sp_base = UART_BASE, sp_ctrl = 0, sp_rx_start = 0, sp_rx_end = 0,
      sp_tx_start = 0, sp_tx_end = 0,
      sp_termios = ALTERA_AVALON_UART_TERMIOS UART_STOP_BITS (UART_PARITY = CHR ''N'') (UART_PARITY = CHR ''O'')
        UART_DATA_BITS UART_USE_CTS_RTS UART_BAUD,
      sp_freq = UART_FREQ,
      sp_flags = (if UART_FIXED_BAUD then ALT_AVALON_UART_FB else 0) OR (if UART_USE_CTS_RTS then ALT_AVALON_UART_FC else 0),
      sp_rx_buf = replicate ALT_AVALON_UART_BUF_LEN 0, sp_tx_buf = replicate ALT_AVALON_UART_BUF_LEN 0\<rparr>"

definition altera_avalon_uart_init :: "(uart, unit) prog" where
  "altera_avalon_uart_init = seqs
     [modify (\<lambda>s. s\<lparr>sp_ctrl := UART_CONTROL_RTS_MSK OR UART_CONTROL_RRDY_MSK OR UART_CONTROL_DCTS_MSK\<rparr>),
      write_ctrl]"

section \<open>The interrupt handler\<close>

definition altera_avalon_uart_rxirq :: "u32 \<Rightarrow> (uart, unit) prog" where
  "altera_avalon_uart_rxirq status =
     (if bits_set status (UART_STATUS_PE_MSK OR UART_STATUS_FE_MSK) then ret ()
      else
        bnd (gets sp_rx_end) (\<lambda>e.
        bnd (uart_rd UART_RXDATA) (\<lambda>d.
        bnd (rx_buf_store e (ucast d)) (\<lambda>_.
        bnd (modify (\<lambda>s. s\<lparr>sp_rx_end := ring_next e\<rparr>)) (\<lambda>_.
        bnd (gets (\<lambda>s. ring_next (sp_rx_end s) = sp_rx_start s)) (\<lambda>full.
        if full then seqs [clear_ctrl UART_CONTROL_RRDY_MSK, write_ctrl] else ret ()))))))"

definition altera_avalon_uart_txirq :: "u32 \<Rightarrow> (uart, unit) prog" where
  "altera_avalon_uart_txirq status =
     bnd (gets (\<lambda>s. sp_tx_start s \<noteq> sp_tx_end s)) (\<lambda>some. seqs
       [if some then
          bnd (gets (\<lambda>s. bits_set (sp_flags s) ALT_AVALON_UART_FC)) (\<lambda>fc.
          if \<not> fc \<or> bits_set status UART_STATUS_CTS_MSK then
            bnd (gets sp_tx_start) (\<lambda>i.
            bnd (tx_buf_load i) (\<lambda>b. seqs
              [uart_wr UART_TXDATA (ucast b),
               modify (\<lambda>s. s\<lparr>sp_tx_start := ring_next i\<rparr>),
               set_ctrl UART_CONTROL_TRDY_MSK]))
          else
            bnd (uart_rd UART_STATUS) (\<lambda>status'.
            if \<not> bits_set status' UART_STATUS_CTS_MSK then clear_ctrl UART_CONTROL_TRDY_MSK else ret ()))
        else ret (),
        bnd (gets (\<lambda>s. sp_tx_start s = sp_tx_end s)) (\<lambda>none.
          if none then clear_ctrl (UART_CONTROL_TRDY_MSK OR UART_CONTROL_DCTS_MSK) else ret ()),
        write_ctrl])"

definition altera_avalon_uart_irq :: "(uart, unit) prog" where
  "altera_avalon_uart_irq =
     bnd (uart_rd UART_STATUS) (\<lambda>status. seqs
       [uart_wr UART_STATUS 0,
        void (uart_rd UART_STATUS),
        if bits_set status UART_STATUS_RRDY_MSK then altera_avalon_uart_rxirq status else ret (),
        if bits_set status (UART_STATUS_TRDY_MSK OR UART_STATUS_DCTS_MSK)
        then altera_avalon_uart_txirq status else ret ()])"

text \<open>
  Between two accesses of the foreground code the processor looks at its pending interrupts; while
  the UART's line is up, the dispatcher calls the handler, any number of times in a row, with
  interrupts off. The number is the environment's answer at \<open>IPENDING\<close>, which stands for the
  processor's register of that name; it is no address of the bus.
\<close>

definition IPENDING :: u32 where "IPENDING = 0xFFFFFFFF"

definition interruptible :: "(uart, unit) prog" where
  "interruptible = bnd (udrv (rd_at IPENDING)) (\<lambda>n. each [0..<unat n] (\<lambda>_. altera_avalon_uart_irq))"

section \<open>Reading\<close>

text \<open>The inner loop: at most \<open>n\<close> more bytes, until the ring is empty.\<close>

primrec uart_drain :: "nat \<Rightarrow> u8 list \<Rightarrow> (uart, u8 list) prog" where
  "uart_drain 0 acc = ret acc"
| "uart_drain (Suc n) acc =
     bnd interruptible (\<lambda>_.
     bnd (gets (\<lambda>s. sp_rx_start s \<noteq> sp_rx_end s)) (\<lambda>some.
     if some then
       bnd (gets sp_rx_start) (\<lambda>i.
       bnd (rx_buf_load i) (\<lambda>b.
       bnd interruptible (\<lambda>_.
       bnd (modify (\<lambda>s. s\<lparr>sp_rx_start := ring_next i\<rparr>)) (\<lambda>_.
       uart_drain n (acc @ [b])))))
     else ret acc))"

text \<open>The sequence with interrupts off that lets the receiver run again.\<close>

definition enable_rx :: "(uart, unit) prog" where
  "enable_rx = seqs [set_ctrl UART_CONTROL_RRDY_MSK, write_ctrl]"

text \<open>
  One round of the outer loop: the bytes taken out, whether the call would block, and whether the
  loop is left.
\<close>

definition uart_read_round :: "int \<Rightarrow> bool \<Rightarrow> (uart, u8 list \<times> bool \<times> bool) prog" where
  "uart_read_round len block =
     bnd interruptible (\<lambda>_.
     bnd (uart_drain (nat len) []) (\<lambda>bs.
     bnd interruptible (\<lambda>_.
     bnd (gets (\<lambda>s. sp_rx_start s = sp_rx_end s)) (\<lambda>empty.
     if bs = [] \<and> empty then
       if \<not> block then
         bnd (modify (\<lambda>s. s\<lparr>uart_errno := EWOULDBLOCK\<rparr>)) (\<lambda>_. ret (bs, True, True))
       else bnd enable_rx (\<lambda>_. ret (bs, False, len = 0))
     else ret (bs, False, bs \<noteq> [] \<or> len = 0)))))"

partial_function (option) uart_read_loop ::
    "int \<Rightarrow> bool \<Rightarrow> env \<Rightarrow> uart \<Rightarrow> (fault + (u8 list \<times> bool) \<times> uart) option" where
  "uart_read_loop len block env s =
     (case uart_read_round len block env s of
        Inl f \<Rightarrow> Some (Inl f)
      | Inr r \<Rightarrow>
          (if snd (snd (fst r)) then Some (Inr ((fst (fst r), fst (snd (fst r))), snd r))
           else uart_read_loop len block env (snd r)))"

definition uart_read_run :: "int \<Rightarrow> bool \<Rightarrow> (uart, u8 list \<times> bool) prog" where
  "uart_read_run len block =
     (\<lambda>env s. case uart_read_loop len block env s of None \<Rightarrow> Inl Hang | Some r \<Rightarrow> r)"

text \<open>The C return value and the bytes stored at \<open>ptr\<close>, which has room for \<open>len\<close> bytes.\<close>

definition altera_avalon_uart_read :: "int \<Rightarrow> u32 \<Rightarrow> (uart, int \<times> u8 list) prog" where
  "altera_avalon_uart_read len fl =
     bnd (uart_read_run len (fl AND O_NONBLOCK = 0)) (\<lambda>r.
     bnd enable_rx (\<lambda>_.
     ret (if snd r then - EWOULDBLOCK else int (length (fst r)), fst r)))"

section \<open>Writing\<close>

partial_function (option) uart_wait_space :: "u32 \<Rightarrow> env \<Rightarrow> uart \<Rightarrow> (fault + unit \<times> uart) option" where
  "uart_wait_space nxt env s =
     (case interruptible env s of
        Inl f \<Rightarrow> Some (Inl f)
      | Inr r \<Rightarrow> (if nxt = sp_tx_start (snd r) then uart_wait_space nxt env (snd r) else Some (Inr r)))"

definition uart_wait_run :: "u32 \<Rightarrow> (uart, unit) prog" where
  "uart_wait_run nxt = (\<lambda>env s. case uart_wait_space nxt env s of None \<Rightarrow> Inl Hang | Some r \<Rightarrow> r)"

definition enable_tx :: "(uart, unit) prog" where
  "enable_tx = seqs [set_ctrl (UART_CONTROL_TRDY_MSK OR UART_CONTROL_DCTS_MSK), write_ctrl]"

text \<open>The next free slot: \<open>None\<close> when a non-blocking call finds the ring full.\<close>

definition uart_claim_slot :: "bool \<Rightarrow> (uart, u32 option) prog" where
  "uart_claim_slot no_block =
     bnd (gets (\<lambda>s. ring_next (sp_tx_end s))) (\<lambda>nxt.
     bnd interruptible (\<lambda>_.
     bnd (gets (\<lambda>s. nxt = sp_tx_start s)) (\<lambda>full.
     if \<not> full then ret (Some nxt)
     else if no_block then bnd (modify (\<lambda>s. s\<lparr>uart_errno := EWOULDBLOCK\<rparr>)) (\<lambda>_. ret None)
     else bnd enable_tx (\<lambda>_. bnd (uart_wait_run nxt) (\<lambda>_. ret (Some nxt))))))"

text \<open>
  The loop over the bytes at \<open>ptr\<close>; it returns what is left of the count. Running past the end of
  the data is out of bounds.
\<close>

fun uart_write_loop :: "bool \<Rightarrow> u8 list \<Rightarrow> int \<Rightarrow> (uart, int) prog" where
  "uart_write_loop no_block ptr count =
     (if count = 0 then ret count
      else bnd (uart_claim_slot no_block) (\<lambda>slot.
        case slot of
          None \<Rightarrow> ret count
        | Some nxt \<Rightarrow>
            (case ptr of
               [] \<Rightarrow> fail OutOfBounds
             | b # ptr' \<Rightarrow>
                 bnd (gets sp_tx_end) (\<lambda>e.
                 bnd (tx_buf_store e b) (\<lambda>_.
                 bnd interruptible (\<lambda>_.
                 bnd (modify (\<lambda>s. s\<lparr>sp_tx_end := nxt\<rparr>)) (\<lambda>_.
                 uart_write_loop no_block ptr' (count - 1))))))))"

definition altera_avalon_uart_write :: "u8 list \<Rightarrow> int \<Rightarrow> u32 \<Rightarrow> (uart, int) prog" where
  "altera_avalon_uart_write ptr len fl =
     bnd (uart_write_loop (fl AND O_NONBLOCK \<noteq> 0) ptr len) (\<lambda>count.
     bnd enable_tx (\<lambda>_.
     ret (len - count)))"

section \<open>Closing\<close>

partial_function (option) uart_close_loop :: "bool \<Rightarrow> env \<Rightarrow> uart \<Rightarrow> (fault + int \<times> uart) option" where
  "uart_close_loop no_block env s =
     (case interruptible env s of
        Inl f \<Rightarrow> Some (Inl f)
      | Inr r \<Rightarrow>
          (if sp_tx_start (snd r) = sp_tx_end (snd r) then Some (Inr (0, snd r))
           else if no_block then Some (Inr (- EWOULDBLOCK, snd r))
           else uart_close_loop no_block env (snd r)))"

definition altera_avalon_uart_close :: "u32 \<Rightarrow> (uart, int) prog" where
  "altera_avalon_uart_close fl =
     (\<lambda>env s. case uart_close_loop (fl AND O_NONBLOCK \<noteq> 0) env s of None \<Rightarrow> Inl Hang | Some r \<Rightarrow> r)"

section \<open>Configuration\<close>

definition altera_avalon_uart_tiocmget :: "(uart, int \<times> termios) prog" where
  "altera_avalon_uart_tiocmget = bnd (gets sp_termios) (\<lambda>t. ret (0, t))"

text \<open>
  \<open>altera_avalon_uart_tiocmset\<close>: the comparison of the two structures is the one of their fields.
\<close>

definition altera_avalon_uart_tiocmset :: "termios \<Rightarrow> (uart, int) prog" where
  "altera_avalon_uart_tiocmset term =
     bnd (gets (\<lambda>s. c_ispeed (sp_termios s))) (\<lambda>speed.
     bnd (modify (\<lambda>s. if bits_set (sp_flags s) ALT_AVALON_UART_FB then s
            else s\<lparr>sp_termios := (sp_termios s)\<lparr>c_ispeed := c_ispeed term, c_ospeed := c_ispeed term\<rparr>\<rparr>)) (\<lambda>_.
     bnd (gets sp_termios) (\<lambda>t.
     if term \<noteq> t then
       bnd (modify (\<lambda>s. s\<lparr>sp_termios := (sp_termios s)\<lparr>c_ispeed := speed, c_ospeed := speed\<rparr>\<rparr>)) (\<lambda>_.
       ret (- EIO))
     else
       bnd (gets sp_freq) (\<lambda>freq.
       if c_ispeed t = 0 then fail DivByZero
       else bnd (uart_wr UART_DIVISOR (freq div c_ispeed t - 1)) (\<lambda>_. ret 0)))))"

text \<open>The request's argument is the structure read or written; what is at \<open>arg\<close> afterwards is returned.\<close>

definition altera_avalon_uart_ioctl :: "u32 \<Rightarrow> termios \<Rightarrow> (uart, int \<times> termios) prog" where
  "altera_avalon_uart_ioctl req arg =
     (if req = TIOCMGET then altera_avalon_uart_tiocmget
      else if req = TIOCMSET then bnd (altera_avalon_uart_tiocmset arg) (\<lambda>rc. ret (rc, arg))
      else ret (- ENOTTY, arg))"

end
