(* ===== verification/Uart_Line.thy ===== *)
theory Uart_Line
  imports Uart
begin

text \<open>
  What a history of bus accesses puts on the UART's serial line. The transmitter takes a byte only
  when it is ready; a byte stored while it is busy is lost. A driver knows that it is ready only by
  having seen the ready bit after its last store.
\<close>

section \<open>Stores to the transmit register and bytes on the line\<close>

text \<open>The bytes handed to the transmitter.\<close>

definition tx_out :: "u32 \<Rightarrow> history \<Rightarrow> u8 list" where
  "tx_out b h = concat (map (\<lambda>e. case e of Wr a v \<Rightarrow> (if a = IOADDR b UART_TXDATA then [ucast v] else []) | _ \<Rightarrow> []) h)"

lemma tx_out_append [simp]: "tx_out b (h @ h') = tx_out b h @ tx_out b h'"
  by (simp add: tx_out_def)

lemma tx_out_simps [simp]:
  "tx_out b [] = []"
  "tx_out b (Rd a v # h) = tx_out b h"
  "tx_out b (Wr a v # h) = (if a = IOADDR b UART_TXDATA then ucast v # tx_out b h else tx_out b h)"
  by (simp_all add: tx_out_def)

text \<open>
  \<open>arm b r es\<close>: whether the accesses \<open>es\<close>, begun with the transmitter seen ready (\<open>r\<close>) or not, end
  with the ready bit seen and no store since. \<open>line_from\<close> is what they transmit: a byte stored to the
  transmit register without this is not on the line.
\<close>

fun arm :: "u32 \<Rightarrow> bool \<Rightarrow> io list \<Rightarrow> bool" where
  "arm b r [] = r"
| "arm b r (Rd a v # es) = arm b (r \<or> a = IOADDR b UART_STATUS \<and> bits_set v UART_STATUS_TRDY_MSK) es"
| "arm b r (Wr a v # es) = arm b (r \<and> a \<noteq> IOADDR b UART_TXDATA) es"
| "arm b r (Usleep n # es) = arm b r es"
| "arm b r (Nops n # es) = arm b r es"

fun line_from :: "u32 \<Rightarrow> bool \<Rightarrow> io list \<Rightarrow> u8 list" where
  "line_from b r [] = []"
| "line_from b r (Rd a v # es) = line_from b (r \<or> a = IOADDR b UART_STATUS \<and> bits_set v UART_STATUS_TRDY_MSK) es"
| "line_from b r (Wr a v # es) =
     (if a = IOADDR b UART_TXDATA then (if r then [ucast v] else []) @ line_from b False es
      else line_from b r es)"
| "line_from b r (Usleep n # es) = line_from b r es"
| "line_from b r (Nops n # es) = line_from b r es"

definition line_out :: "u32 \<Rightarrow> history \<Rightarrow> u8 list" where
  "line_out b h = line_from b False h"

lemma arm_append: "arm b r (es @ fs) = arm b (arm b r es) fs"
  by (induction b r es rule: arm.induct) auto

lemma line_from_append: "line_from b r (es @ fs) = line_from b r es @ line_from b (arm b r es) fs"
  by (induction b r es rule: line_from.induct) auto

lemma line_out_append: "line_out b (h @ es) = line_out b h @ line_from b (arm b False h) es"
  by (simp add: line_out_def line_from_append)

text \<open>Accesses that store nothing transmit nothing and leave the transmitter ready.\<close>

lemma line_from_silent: "tx_out b es = [] \<Longrightarrow> line_from b r es = []"
  by (induction b r es rule: line_from.induct) (auto simp: tx_out_def)

lemma arm_silent: "tx_out b es = [] \<Longrightarrow> r \<Longrightarrow> arm b r es"
  by (induction b r es rule: arm.induct) (auto simp: tx_out_def split: if_splits)

text \<open>Every store was to a transmitter seen ready.\<close>

definition guarded :: "u32 \<Rightarrow> bool \<Rightarrow> io list \<Rightarrow> bool" where
  "guarded b r es \<longleftrightarrow> line_from b r es = tx_out b es"

lemma guarded_silent: "tx_out b es = [] \<Longrightarrow> guarded b r es"
  by (simp add: guarded_def line_from_silent)

lemma guarded_append: "guarded b r es \<Longrightarrow> guarded b (arm b r es) fs \<Longrightarrow> guarded b r (es @ fs)"
  by (simp add: guarded_def line_from_append)

text \<open>
  The status showed a change of the CTS line but no ready transmitter. The interrupt handler stores a
  byte in this case too; a core without the CTS line never reports it.
\<close>

definition cts_seen :: "u32 \<Rightarrow> io list \<Rightarrow> bool" where
  "cts_seen b es \<longleftrightarrow> (\<exists>v. Rd (IOADDR b UART_STATUS) v \<in> set es \<and> bits_set v UART_STATUS_DCTS_MSK \<and>
     \<not> bits_set v UART_STATUS_TRDY_MSK)"

lemma cts_seen_append [simp]: "cts_seen b (es @ fs) \<longleftrightarrow> cts_seen b es \<or> cts_seen b fs"
  by (auto simp: cts_seen_def)

text \<open>From \<open>h\<close> to \<open>h'\<close> nothing was stored that does not reach the line, unless \<open>waived\<close>.\<close>

definition sends :: "bool \<Rightarrow> u32 \<Rightarrow> history \<Rightarrow> history \<Rightarrow> bool" where
  "sends waived b h h' \<longleftrightarrow> (\<exists>es. h' = h @ es \<and> (waived \<or> cts_seen b es \<or> guarded b (arm b False h) es))"

lemma sends_silent: "tx_out b es = [] \<Longrightarrow> sends w b h (h @ es)"
  by (auto simp: sends_def guarded_silent)

lemma sends_refl [simp]: "sends w b h h"
  using sends_silent [of b "[]"] by simp

lemma sends_trans: "sends False b h h' \<Longrightarrow> sends False b h' h'' \<Longrightarrow> sends False b h h''"
  by (auto simp: sends_def arm_append guarded_append intro: guarded_append)

lemma sends_waived: "cts_seen b es \<Longrightarrow> sends w b (h @ es) h' \<Longrightarrow> sends False b h h'"
  by (auto simp: sends_def)

lemma sends_store:
  assumes "arm b False h" "tx_out b fs = []"
  shows "sends False b h (h @ Wr (IOADDR b UART_TXDATA) v # fs)"
  using assms by (auto simp: sends_def guarded_def line_from_silent)

text \<open>What was stored since is what is on the line.\<close>

lemma sends_line:
  assumes "sends False b h h'" "tx_out b h' = tx_out b h @ bs"
  shows "line_out b h' = line_out b h @ bs \<or> cts_seen b (drop (length h) h')"
  using assms by (auto simp: sends_def line_out_append guarded_def)

section \<open>The transmit interrupt\<close>

text \<open>Whether the last value stored to the control register enables the transmit interrupt.\<close>

fun irq_on_from :: "u32 \<Rightarrow> bool \<Rightarrow> io list \<Rightarrow> bool" where
  "irq_on_from b on [] = on"
| "irq_on_from b on (Wr a v # es) =
     irq_on_from b (if a = IOADDR b UART_CONTROL then bits_set v UART_CONTROL_TRDY_MSK else on) es"
| "irq_on_from b on (e # es) = irq_on_from b on es"

definition tx_irq_on :: "u32 \<Rightarrow> history \<Rightarrow> bool" where
  "tx_irq_on b h = irq_on_from b False h"

lemma irq_on_append [simp]: "irq_on_from b on (es @ fs) = irq_on_from b (irq_on_from b on es) fs"
  by (induction b on es rule: irq_on_from.induct) auto

text \<open>
  A transmitter that keeps serving: while its interrupt is enabled and nothing is stored to it, the
  interrupt comes after finitely many looks of the processor at its pending interrupts, with the ready
  bit set when its handler then reads the status. What else happens between two looks is arbitrary.
\<close>

inductive tx_soon :: "env \<Rightarrow> u32 \<Rightarrow> history \<Rightarrow> bool" for env b where
  now: "env h IPENDING \<noteq> 0 \<Longrightarrow>
     bits_set (env (h @ [Rd IPENDING (env h IPENDING)]) (IOADDR b UART_STATUS)) UART_STATUS_TRDY_MSK \<Longrightarrow>
     tx_soon env b h"
| later: "(\<And>es. tx_out b es = [] \<Longrightarrow> tx_irq_on b (h @ Rd IPENDING (env h IPENDING) # es) \<Longrightarrow>
       tx_soon env b (h @ Rd IPENDING (env h IPENDING) # es)) \<Longrightarrow> tx_soon env b h"

definition tx_serves :: "env \<Rightarrow> u32 \<Rightarrow> bool" where
  "tx_serves env b \<longleftrightarrow> (\<forall>h. tx_irq_on b h \<longrightarrow> tx_soon env b h)"

text \<open>
  For instance one that is busy for \<open>n\<close> accesses after every store, and interrupts when it is not.
\<close>

primrec since_store :: "u32 \<Rightarrow> nat \<Rightarrow> io list \<Rightarrow> nat" where
  "since_store b k [] = k"
| "since_store b k (e # es) = since_store b (if tx_out b [e] = [] then Suc k else 0) es"

definition slow_uart :: "nat \<Rightarrow> u32 \<Rightarrow> env" where
  "slow_uart n b h a =
     (if n \<le> since_store b 0 h then (if a = IPENDING then 1 else if a = IOADDR b UART_STATUS then 0x40 else 0) else 0)"

lemma since_store_append: "since_store b k (es @ fs) = since_store b (since_store b k es) fs"
  by (induction es arbitrary: k) auto

lemma since_store_silent: "tx_out b es = [] \<Longrightarrow> since_store b k es = k + length es"
proof (induction es arbitrary: k)
  case (Cons e es)
  then have "tx_out b [e] = []" "tx_out b es = []" using tx_out_append [of b "[e]" es] by simp_all
  with Cons.IH show ?case by simp
qed simp

lemma slow_uart_serves: "IOADDR b UART_STATUS \<noteq> IPENDING \<Longrightarrow> tx_serves (slow_uart n b) b"
proof -
  assume b: "IOADDR b UART_STATUS \<noteq> IPENDING"
  have "tx_soon (slow_uart n b) b h" if "n \<le> since_store b 0 h + k" for h k
    using that
  proof (induction k arbitrary: h)
    case 0
    then show ?case
      using b by (intro now) (auto simp: slow_uart_def since_store_append UART_STATUS_TRDY_MSK_def)
  next
    case (Suc k)
    show ?case
    proof (rule later, rule Suc.IH)
      fix es
      assume es: "tx_out b es = []"
      let ?e = "Rd IPENDING (slow_uart n b h IPENDING)"
      have "since_store b 0 (h @ ?e # es) = Suc (since_store b 0 h + length es)"
        using es by (simp add: since_store_append since_store_silent)
      with Suc.prems show "n \<le> since_store b 0 (h @ ?e # es) + k" by simp
    qed
  qed
  from this [of _ n] show ?thesis by (simp add: tx_serves_def)
qed

end
