(* ===== verification/Uart_Interrupts.thy ===== *)
theory Uart_Interrupts
  imports Uart_Line
begin

text \<open>
  The UART driver's two rings as queues, what an interrupt may change under the foreground code, and
  the functional behaviour of the foreground calls with interrupts coming at any point.
\<close>

section \<open>Invariant and queues\<close>

definition uart_ok :: "uart \<Rightarrow> bool" where
  "uart_ok s \<longleftrightarrow> unat (sp_rx_start s) < 64 \<and> unat (sp_rx_end s) < 64 \<and>
     unat (sp_tx_start s) < 64 \<and> unat (sp_tx_end s) < 64 \<and>
     length (sp_rx_buf s) = 64 \<and> length (sp_tx_buf s) = 64"

definition rx_queue :: "uart \<Rightarrow> u8 list" where
  "rx_queue s = ring_content (sp_rx_buf s) (sp_rx_start s) (sp_rx_end s)"

definition tx_queue :: "uart \<Rightarrow> u8 list" where
  "tx_queue s = ring_content (sp_tx_buf s) (sp_tx_start s) (sp_tx_end s)"

text \<open>Everything sent or queued so far, in order.\<close>

definition tx_stream :: "uart \<Rightarrow> u8 list" where
  "tx_stream s = tx_out (sp_base s) (uart_hist s) @ tx_queue s"

lemma wp_uart_io [wp_simps]:
  "wp (uart_rd r) env R F s =
     (let a = IOADDR (sp_base s) r; v = env (uart_hist s) a in R v (s\<lparr>uart_hist := uart_hist s @ [Rd a v]\<rparr>))"
  "wp (uart_wr r v) env Q F s = Q () (s\<lparr>uart_hist := uart_hist s @ [Wr (IOADDR (sp_base s) r) v]\<rparr>)"
  by (simp_all add: uart_rd_def uart_wr_def wp_simps Let_def)

lemma wp_ctrl [wp_simps]:
  "wp (set_ctrl m) env Q F s = Q () (s\<lparr>sp_ctrl := sp_ctrl s OR m\<rparr>)"
  "wp (clear_ctrl m) env Q F s = Q () (s\<lparr>sp_ctrl := sp_ctrl s AND NOT m\<rparr>)"
  "wp write_ctrl env Q F s =
     Q () (s\<lparr>uart_hist := uart_hist s @ [Wr (IOADDR (sp_base s) UART_CONTROL) (sp_ctrl s)]\<rparr>)"
  by (simp_all add: set_ctrl_def clear_ctrl_def write_ctrl_def wp_simps)

text \<open>
  The transmit interrupt is enabled, in the control shadow and in the register; bytes that wait in the
  ring of a device that ignores the CTS line are served.
\<close>

definition tx_on :: "uart \<Rightarrow> bool" where
  "tx_on s \<longleftrightarrow> bits_set (sp_ctrl s) UART_CONTROL_TRDY_MSK \<and> tx_irq_on (sp_base s) (uart_hist s)"

definition tx_served :: "uart \<Rightarrow> bool" where
  "tx_served s \<longleftrightarrow> bits_set (sp_flags s) ALT_AVALON_UART_FC \<or> sp_tx_start s = sp_tx_end s \<or> tx_on s"

text \<open>
  What the foreground may rely on across an interrupt: \<open>isr_core\<close> of the state, and that every byte the
  handler stored to the transmit register goes on the line.
\<close>

definition isr_core :: "uart \<Rightarrow> uart \<Rightarrow> bool" where
  "isr_core s s' \<longleftrightarrow> uart_ok s' \<and> sp_base s' = sp_base s \<and> sp_rx_start s' = sp_rx_start s \<and>
     sp_tx_end s' = sp_tx_end s \<and> sp_tx_buf s' = sp_tx_buf s \<and> uart_errno s' = uart_errno s \<and>
     sp_flags s' = sp_flags s \<and> sp_termios s' = sp_termios s \<and> sp_freq s' = sp_freq s \<and>
     tx_stream s' = tx_stream s \<and> ring_count (sp_tx_start s') (sp_tx_end s') \<le> ring_count (sp_tx_start s) (sp_tx_end s) \<and>
     (tx_served s \<longrightarrow> tx_served s')"

definition line_kept :: "bool \<Rightarrow> uart \<Rightarrow> uart \<Rightarrow> bool" where
  "line_kept waived s s' \<longleftrightarrow> sends waived (sp_base s) (uart_hist s) (uart_hist s')"

definition isr_rel :: "uart \<Rightarrow> uart \<Rightarrow> bool" where
  "isr_rel s s' \<longleftrightarrow> isr_core s s' \<and> line_kept False s s'"

definition rx_same :: "uart \<Rightarrow> uart \<Rightarrow> bool" where
  "rx_same s s' \<longleftrightarrow> sp_rx_end s' = sp_rx_end s \<and> sp_rx_buf s' = sp_rx_buf s"

lemmas isr_rels = isr_rel_def isr_core_def
lemmas uart_rels = isr_core_def rx_same_def uart_ok_def tx_stream_def tx_queue_def tx_served_def tx_on_def tx_irq_on_def

lemma isr_rel_refl: "uart_ok s \<Longrightarrow> isr_rel s s" and rx_same_refl [simp]: "rx_same s s"
  by (simp_all add: isr_rels rx_same_def line_kept_def)

lemma isr_ok: "isr_rel s t \<Longrightarrow> uart_ok t"
  by (simp add: isr_rels)

lemma isr_core_trans: "isr_core s t \<Longrightarrow> isr_core t u \<Longrightarrow> isr_core s u"
  by (auto simp: isr_core_def)

lemma isr_rel_trans: "isr_rel s t \<Longrightarrow> isr_rel t u \<Longrightarrow> isr_rel s u"
  unfolding isr_rel_def line_kept_def by (metis isr_core_def isr_core_trans sends_trans)

lemma rx_same_trans: "rx_same s t \<Longrightarrow> rx_same t u \<Longrightarrow> rx_same s u"
  by (auto simp: rx_same_def)

text \<open>Register accesses that neither transmit nor touch the control register are invisible.\<close>

lemma isr_rel_quiet:
  assumes "uart_ok s" "tx_out (sp_base s) es = []" "\<And>on. irq_on_from (sp_base s) on es = on"
  shows "isr_rel s (s\<lparr>uart_hist := uart_hist s @ es\<rparr>)"
  using assms by (simp add: isr_rel_def uart_rels line_kept_def sends_silent)

text \<open>The control shadow, always stored as a whole: bits other than the transmit interrupt's change nothing.\<close>

lemma rrdy_keeps_trdy [simp]:
  "bits_set (c AND NOT UART_CONTROL_RRDY_MSK) UART_CONTROL_TRDY_MSK = bits_set c UART_CONTROL_TRDY_MSK"
proof -
  have "(c AND NOT UART_CONTROL_RRDY_MSK) AND UART_CONTROL_TRDY_MSK = c AND (NOT UART_CONTROL_RRDY_MSK AND UART_CONTROL_TRDY_MSK)"
    by (simp only: and.assoc)
  also have "NOT UART_CONTROL_RRDY_MSK AND UART_CONTROL_TRDY_MSK = UART_CONTROL_TRDY_MSK"
    by (simp add: UART_CONTROL_RRDY_MSK_def UART_CONTROL_TRDY_MSK_def)
  finally show ?thesis by simp
qed

lemma trdy_bit: "bits_set v UART_CONTROL_TRDY_MSK \<longleftrightarrow> bit v 6"
  using and_exp_eq_0_iff_not_bit [of v 6] by (simp add: UART_CONTROL_TRDY_MSK_def)

lemma set_trdy [simp]: "bits_set (c OR UART_CONTROL_TRDY_MSK) UART_CONTROL_TRDY_MSK"
  "bits_set (c OR (UART_CONTROL_TRDY_MSK OR m)) UART_CONTROL_TRDY_MSK"
proof -
  have "bit UART_CONTROL_TRDY_MSK 6" using trdy_bit [of UART_CONTROL_TRDY_MSK] by (simp add: UART_CONTROL_TRDY_MSK_def)
  then show "bits_set (c OR UART_CONTROL_TRDY_MSK) UART_CONTROL_TRDY_MSK"
    "bits_set (c OR (UART_CONTROL_TRDY_MSK OR m)) UART_CONTROL_TRDY_MSK"
    unfolding trdy_bit by (simp_all add: bit_simps)
qed

lemma wp_rxirq:
  assumes "uart_ok s"
  shows "wp (altera_avalon_uart_rxirq status) env (\<lambda>_ s'. isr_rel s s' \<and> sp_tx_start s' = sp_tx_start s \<and>
    (\<exists>es. uart_hist s' = uart_hist s @ es \<and> tx_out (sp_base s) es = [])) (\<lambda>_. False) s"
  using assms unfolding altera_avalon_uart_rxirq_def
  by (auto simp: wp_simps Let_def uart_rels isr_rel_def line_kept_def intro!: sends_silent)

lemma wp_txirq:
  assumes "uart_ok s"
  shows "wp (altera_avalon_uart_txirq status) env (\<lambda>_ s'. isr_core s s' \<and> rx_same s s' \<and>
    line_kept (\<not> arm (sp_base s) False (uart_hist s)) s s') (\<lambda>_. False) s"
proof -
  note ok = assms [unfolded uart_ok_def]
  have get: "sp_tx_start s \<noteq> sp_tx_end s \<Longrightarrow> tx_queue s = sp_tx_buf s ! unat (sp_tx_start s) #
      ring_content (sp_tx_buf s) (ring_next (sp_tx_start s)) (sp_tx_end s)"
    using ok ring_get by (simp add: tx_queue_def)
  then have "sp_tx_start s \<noteq> sp_tx_end s \<Longrightarrow>
     ring_count (ring_next (sp_tx_start s)) (sp_tx_end s) \<le> ring_count (sp_tx_start s) (sp_tx_end s)"
    by (metis le_Suc_eq length_Cons length_ring_content order_refl tx_queue_def)
  moreover have "sends (\<not> arm b False h) b h (h @ Wr (IOADDR b UART_TXDATA) v # fs)" if "tx_out b fs = []" for b h v fs
    using sends_store [OF _ that] by (cases "arm b False h") (auto simp: sends_def)
  ultimately show ?thesis using get ok unfolding altera_avalon_uart_txirq_def
    by (auto simp: wp_simps Let_def uart_rels line_kept_def intro!: sends_silent)
qed

section \<open>Interrupts\<close>

text \<open>The receiver reports nothing new: what arrives during a call is then left in the device.\<close>

definition rx_quiet :: "env \<Rightarrow> u32 \<Rightarrow> bool" where
  "rx_quiet env b \<longleftrightarrow> (\<forall>h. \<not> bits_set (env h (IOADDR b UART_STATUS)) UART_STATUS_RRDY_MSK)"

definition across_irq :: "env \<Rightarrow> uart \<Rightarrow> uart \<Rightarrow> bool" where
  "across_irq env s s' \<longleftrightarrow> isr_rel s s' \<and> (rx_quiet env (sp_base s) \<longrightarrow> rx_same s s')"

lemma across_irq_refl: "uart_ok s \<Longrightarrow> across_irq env s s"
  by (simp add: across_irq_def isr_rel_refl)

lemma across_irq_trans: "across_irq env s t \<Longrightarrow> across_irq env t u \<Longrightarrow> across_irq env s u"
  unfolding across_irq_def by (metis isr_rels(1,2) isr_rel_trans rx_same_trans)

lemma across_irq_ok: "across_irq env s t \<Longrightarrow> uart_ok t"
  by (simp add: across_irq_def isr_rels)

text \<open>
  The handler between its first read of the status and its transmit half: nothing has been stored to
  the transmit register since the ready bit was seen.
\<close>

definition status_seen :: "env \<Rightarrow> u32 \<Rightarrow> uart \<Rightarrow> uart \<Rightarrow> bool" where
  "status_seen env st s u \<longleftrightarrow> across_irq env s u \<and> sp_tx_start u = sp_tx_start s \<and>
     (\<exists>es. uart_hist u = uart_hist s @ Rd (IOADDR (sp_base s) UART_STATUS) st # es \<and> tx_out (sp_base s) es = [])"

lemma status_seen_txirq:
  assumes "status_seen env st s u" "bits_set st (UART_STATUS_TRDY_MSK OR UART_STATUS_DCTS_MSK)"
    and core: "isr_core u v" "rx_same u v" "line_kept (\<not> arm (sp_base u) False (uart_hist u)) u v"
  shows "across_irq env s v"
proof -
  let ?b = "sp_base s"
  from assms(1) obtain es where u: "across_irq env s u" "sp_base u = ?b"
    and es: "uart_hist u = uart_hist s @ Rd (IOADDR ?b UART_STATUS) st # es" "tx_out ?b es = []"
    by (auto simp: status_seen_def across_irq_def isr_rels)
  have "sends False ?b (uart_hist s) (uart_hist v)"
  proof (cases "bits_set st UART_STATUS_TRDY_MSK")
    case True
    then have "arm ?b False (uart_hist u)" using es by (simp add: arm_append arm_silent)
    with core(3) u(2) have "sends False ?b (uart_hist u) (uart_hist v)" by (simp add: line_kept_def)
    moreover have "sends False ?b (uart_hist s) (uart_hist u)" unfolding es(1) using es(2) by (intro sends_silent) simp
    ultimately show ?thesis by (rule sends_trans [rotated])
  next
    case False
    with assms(2) have "bits_set st UART_STATUS_DCTS_MSK" by (auto simp: bit_eq_iff bit_simps)
    with False have "cts_seen ?b (Rd (IOADDR ?b UART_STATUS) st # es)" by (auto simp: cts_seen_def)
    from sends_waived [OF this] core(3) u(2) show ?thesis unfolding line_kept_def es(1) by metis
  qed
  moreover have "isr_core s v" using u(1) core(1) by (auto simp: across_irq_def isr_rel_def dest: isr_core_trans)
  ultimately show ?thesis
    using u core(2) by (auto simp: across_irq_def isr_rel_def line_kept_def dest: rx_same_trans)
qed

lemma wp_uart_irq_split:
  assumes "uart_ok s"
    and tx: "\<And>u. status_seen env st s u \<Longrightarrow> bits_set st (UART_STATUS_TRDY_MSK OR UART_STATUS_DCTS_MSK) \<Longrightarrow>
       wp (altera_avalon_uart_txirq st) env Q F u"
    and quiet: "\<And>u. status_seen env st s u \<Longrightarrow> \<not> bits_set st (UART_STATUS_TRDY_MSK OR UART_STATUS_DCTS_MSK) \<Longrightarrow> Q () u"
    and st: "st = env (uart_hist s) (IOADDR (sp_base s) UART_STATUS)"
  shows "wp altera_avalon_uart_irq env Q F s"
proof -
  let ?es = "[Rd (IOADDR (sp_base s) UART_STATUS) st, Wr (IOADDR (sp_base s) UART_STATUS) 0]"
  define t where "t = s\<lparr>uart_hist := (uart_hist s @ ?es) @
     [Rd (IOADDR (sp_base s) UART_STATUS) (env (uart_hist s @ ?es) (IOADDR (sp_base s) UART_STATUS))]\<rparr>"
  have "isr_rel s t" using assms(1) unfolding t_def append_assoc by (intro isr_rel_quiet) auto
  then have t: "status_seen env st s t" by (auto simp: status_seen_def across_irq_def t_def rx_same_def)
  have rx: "wp (altera_avalon_uart_rxirq st) env (\<lambda>_. status_seen env st s) F t" if "bits_set st UART_STATUS_RRDY_MSK"
  proof (rule wp_mono [OF wp_rxirq])
    show "uart_ok t" using t across_irq_ok by (auto simp: status_seen_def)
    fix a u
    assume u: "isr_rel t u \<and> sp_tx_start u = sp_tx_start t \<and>
      (\<exists>es. uart_hist u = uart_hist t @ es \<and> tx_out (sp_base t) es = [])"
    then obtain es where es: "uart_hist u = uart_hist t @ es" "tx_out (sp_base s) es = []" by (auto simp: t_def)
    moreover have "across_irq env s u"
      using t u that st by (auto simp: status_seen_def across_irq_def rx_quiet_def dest: isr_rel_trans)
    ultimately show "status_seen env st s u" using u by (auto simp: status_seen_def t_def)
  qed simp
  show ?thesis
    unfolding altera_avalon_uart_irq_def
    by (simp add: wp_simps Let_def st [symmetric] t_def [symmetric, simplified])
      (use t in \<open>auto intro!: wp_mono [OF rx] tx quiet simp: wp_simps\<close>)
qed

lemma wp_uart_irq:
  assumes "uart_ok s"
  shows "wp altera_avalon_uart_irq env (\<lambda>_. across_irq env s) (\<lambda>_. False) s"
proof (rule wp_uart_irq_split [OF assms _ _ refl], goal_cases)
  case (1 u)
  then show ?case
    by (intro wp_mono [OF wp_txirq]) (auto simp: status_seen_def across_irq_ok intro: status_seen_txirq [OF 1])
qed (simp add: status_seen_def)

lemma wp_uart_irqs:
  assumes "uart_ok s"
  shows "wp (each xs (\<lambda>_. altera_avalon_uart_irq)) env (\<lambda>_. across_irq env s) (\<lambda>_. False) s"
proof (rule wp_each [where I = "\<lambda>_. across_irq env s"])
  fix t
  assume t: "across_irq env s t"
  show "wp altera_avalon_uart_irq env (\<lambda>_. across_irq env s) (\<lambda>_. False) t"
    by (rule wp_mono [OF wp_uart_irq [OF across_irq_ok [OF t]]]) (auto intro: across_irq_trans [OF t])
qed (use assms in \<open>simp_all add: across_irq_refl\<close>)

text \<open>The look at the pending interrupts.\<close>

definition looked_pending :: "env \<Rightarrow> uart \<Rightarrow> uart" where
  "looked_pending env s = s\<lparr>uart_hist := uart_hist s @ [Rd IPENDING (env (uart_hist s) IPENDING)]\<rparr>"

lemma across_looked: "uart_ok s \<Longrightarrow> across_irq env s (looked_pending env s)"
  unfolding across_irq_def looked_pending_def by (auto simp: rx_same_def intro!: isr_rel_quiet)

lemma wp_interruptible_irqs:
  "wp interruptible env Q F s =
    wp (each [0..<unat (env (uart_hist s) IPENDING)] (\<lambda>_. altera_avalon_uart_irq)) env Q F (looked_pending env s)"
  unfolding interruptible_def looked_pending_def by (simp add: wp_simps)

lemma wp_interruptible:
  assumes "uart_ok s" "\<And>s'. across_irq env s s' \<Longrightarrow> Q () s'"
  shows "wp interruptible env Q F s"
  unfolding wp_interruptible_irqs
  by (rule wp_mono [OF wp_uart_irqs [OF across_irq_ok [OF across_looked [OF assms(1)]]]])
    (auto intro: assms(2) across_irq_trans [OF across_looked [OF assms(1)]])

section \<open>A transmitter that keeps serving\<close>

text \<open>
  The transmitter serves its interrupt sooner or later and the device ignores the CTS line: this is
  what a blocking call relies on to return.
\<close>

definition tx_live :: "env \<Rightarrow> uart \<Rightarrow> bool" where
  "tx_live env s \<longleftrightarrow> tx_serves env (sp_base s) \<and> \<not> bits_set (sp_flags s) ALT_AVALON_UART_FC"

definition tx_pending :: "uart \<Rightarrow> nat" where
  "tx_pending s = ring_count (sp_tx_start s) (sp_tx_end s)"

lemma isr_live: "isr_rel s t \<Longrightarrow> tx_live env t = tx_live env s"
  by (simp add: isr_rels tx_live_def)

lemma isr_pending: "isr_rel s t \<Longrightarrow> tx_pending t \<le> tx_pending s"
  unfolding isr_rels tx_pending_def by blast

lemma tx_pending_queue: "length (tx_queue s) = tx_pending s"
  by (simp add: tx_queue_def tx_pending_def)

lemma tx_pending_0: "uart_ok s \<Longrightarrow> tx_pending s = 0 \<longleftrightarrow> sp_tx_start s = sp_tx_end s"
  by (simp add: tx_pending_def uart_ok_def ring_count_0)

lemma wp_txirq_live:
  assumes "uart_ok s" "\<not> bits_set (sp_flags s) ALT_AVALON_UART_FC"
  shows "wp (altera_avalon_uart_txirq status) env (\<lambda>_ s'. tx_pending s' \<le> tx_pending s - 1) (\<lambda>_. False) s"
proof -
  note ok = assms(1) [unfolded uart_ok_def]
  have "sp_tx_start s \<noteq> sp_tx_end s \<Longrightarrow> ring_count (ring_next (sp_tx_start s)) (sp_tx_end s) = tx_pending s - 1"
    using ok ring_get [of "sp_tx_start s" "sp_tx_end s" "sp_tx_buf s"]
      length_ring_content [of "sp_tx_buf s" "sp_tx_start s" "sp_tx_end s"] by (simp add: tx_pending_def)
  moreover have "sp_tx_start s = sp_tx_end s \<Longrightarrow> tx_pending s = 0"
    using ok ring_count_0 [of "sp_tx_start s" "sp_tx_end s"] by (simp add: tx_pending_def)
  ultimately show ?thesis using assms(2) ok unfolding altera_avalon_uart_txirq_def
    by (auto simp: wp_simps Let_def tx_pending_def)
qed

lemma wp_uart_irq_live:
  assumes "uart_ok s" "\<not> bits_set (sp_flags s) ALT_AVALON_UART_FC"
    and "bits_set (env (uart_hist s) (IOADDR (sp_base s) UART_STATUS)) UART_STATUS_TRDY_MSK"
  shows "wp altera_avalon_uart_irq env (\<lambda>_ t. across_irq env s t \<and> tx_pending t \<le> tx_pending s - 1) (\<lambda>_. False) s"
proof (rule wp_conj [OF wp_uart_irq [OF assms(1)]], rule wp_uart_irq_split [OF assms(1) _ _ refl], goal_cases)
  case (1 u)
  then have "isr_core s u" "sp_tx_start u = sp_tx_start s" by (auto simp: status_seen_def across_irq_def isr_rel_def)
  then have "uart_ok u" "\<not> bits_set (sp_flags u) ALT_AVALON_UART_FC" "tx_pending u = tx_pending s"
    using assms(2) by (simp_all add: isr_core_def tx_pending_def)
  with wp_txirq_live [OF this(1,2)] show ?case by simp
next
  case (2 u)
  with assms(3) show ?case by (auto simp: bit_eq_iff bit_simps)
qed

text \<open>A look that finds the interrupt pending and the transmitter ready sends a byte.\<close>

lemma wp_interruptible_now:
  assumes "uart_ok s" "\<not> bits_set (sp_flags s) ALT_AVALON_UART_FC" "env (uart_hist s) IPENDING \<noteq> 0"
    and "bits_set (env (uart_hist (looked_pending env s)) (IOADDR (sp_base s) UART_STATUS)) UART_STATUS_TRDY_MSK"
  shows "wp interruptible env (\<lambda>_ t. isr_rel s t \<and> tx_pending t \<le> tx_pending s - 1) (\<lambda>_. False) s"
proof -
  let ?t = "looked_pending env s" let ?n = "unat (env (uart_hist s) IPENDING)"
  let ?Q = "\<lambda>_ u. isr_rel s u \<and> tx_pending u \<le> tx_pending s - 1"
  note t = across_looked [OF assms(1), of env]
  then have st: "isr_rel s ?t" by (simp add: across_irq_def)
  have same: "tx_pending ?t = tx_pending s" "sp_flags ?t = sp_flags s" "sp_base ?t = sp_base s"
    by (simp_all add: looked_pending_def tx_pending_def)
  have first: "wp altera_avalon_uart_irq env ?Q (\<lambda>_. False) ?t"
    by (rule wp_mono [OF wp_uart_irq_live [OF across_irq_ok [OF t]]])
      (use assms(2,4) same st in \<open>auto simp: across_irq_def intro: isr_rel_trans\<close>)
  have rest: "wp (each xs (\<lambda>_. altera_avalon_uart_irq)) env ?Q (\<lambda>_. False) u" if "?Q () u" for u and xs :: "nat list"
  proof (rule wp_mono [OF wp_uart_irqs])
    show "uart_ok u" using that by (simp add: isr_rels)
    fix v
    assume "across_irq env u v"
    then have "isr_rel u v" by (simp add: across_irq_def)
    with isr_pending [OF this] that show "?Q () v" by (auto intro: isr_rel_trans)
  qed simp
  have "?n \<noteq> 0" using assms(3) by (simp add: unat_eq_0)
  then have n: "[0..<?n] = 0 # [1..<?n]" by (simp add: upt_rec)
  show ?thesis
    unfolding wp_interruptible_irqs n each.simps wp_bnd by (rule wp_mono [OF first]) (rule rest, simp_all)
qed

text \<open>A look that sends nothing leaves the transmitter waiting.\<close>

lemma interruptible_idle:
  assumes "uart_ok s" "interruptible env s = Inr ((), t)"
  shows "isr_rel s t" and "tx_pending t = tx_pending s \<Longrightarrow>
     \<exists>es. uart_hist t = uart_hist s @ Rd IPENDING (env (uart_hist s) IPENDING) # es \<and> tx_out (sp_base s) es = []"
proof -
  note l = across_looked [OF assms(1), of env]
  have "wp interruptible env (\<lambda>_ u. across_irq env (looked_pending env s) u) (\<lambda>_. False) s"
    unfolding wp_interruptible_irqs by (rule wp_uart_irqs [OF across_irq_ok [OF l]])
  from wp_returnD [OF this assms(2)] have t: "across_irq env (looked_pending env s) t" .
  with l show st: "isr_rel s t" by (auto simp: across_irq_def dest: isr_rel_trans)
  from t obtain es where es: "uart_hist t = uart_hist s @ Rd IPENDING (env (uart_hist s) IPENDING) # es"
    by (auto simp: across_irq_def isr_rel_def line_kept_def sends_def looked_pending_def)
  assume "tx_pending t = tx_pending s"
  moreover have "sp_base t = sp_base s" "tx_stream t = tx_stream s" using st by (simp_all add: isr_rels)
  then have "tx_out (sp_base s) es @ tx_queue t = tx_queue s" by (simp add: tx_stream_def es)
  from arg_cong [OF this, of length] have "length (tx_out (sp_base s) es) + tx_pending t = tx_pending s"
    by (simp add: tx_pending_queue)
  ultimately have "tx_out (sp_base s) es = []" by simp
  with es show "\<exists>es. uart_hist t = uart_hist s @ Rd IPENDING (env (uart_hist s) IPENDING) # es \<and> tx_out (sp_base s) es = []"
    by blast
qed

text \<open>
  Induction for a loop that looks at the interrupts until enough has been sent: it is enough that a
  round is fine when it sent something or the loop is fine from there.
\<close>

lemma tx_soon_induct:
  assumes "tx_soon env b h" "uart_hist s = h" "sp_base s = b" "uart_ok s"
    and "\<not> bits_set (sp_flags s) ALT_AVALON_UART_FC" "tx_on s" "sp_tx_start s \<noteq> sp_tx_end s"
    and step: "\<And>u t. isr_rel s u \<Longrightarrow> tx_pending u = tx_pending s \<Longrightarrow> interruptible env u = Inr ((), t) \<Longrightarrow>
       isr_rel u t \<Longrightarrow> tx_pending t < tx_pending u \<or> P t \<Longrightarrow> P u"
  shows "P s"
  using assms
proof (induction arbitrary: s rule: tx_soon.induct)
  case (now h)
  then have "uart_hist (looked_pending env s) = h @ [Rd IPENDING (env h IPENDING)]" by (simp add: looked_pending_def)
  with now have "wp interruptible env (\<lambda>_ t. isr_rel s t \<and> tx_pending t \<le> tx_pending s - 1) (\<lambda>_. False) s"
    by (intro wp_interruptible_now) simp_all
  from wp_unitD [OF this] obtain t where t: "interruptible env s = Inr ((), t)" "isr_rel s t" "tx_pending t \<le> tx_pending s - 1"
    by blast
  with now.prems(3,6) tx_pending_0 have "tx_pending t < tx_pending s" by fastforce
  with t now.prems(3) show ?case by (intro now.prems(7)) (auto intro: isr_rel_refl)
next
  case (later h)
  have "wp interruptible env (\<lambda>_ _. True) (\<lambda>_. False) s" by (rule wp_interruptible [OF later.prems(3)]) simp
  then obtain t where t: "interruptible env s = Inr ((), t)" by (auto dest: wp_unitD)
  note idle = interruptible_idle [OF later.prems(3) t]
  show ?case
  proof (cases "tx_pending t = tx_pending s")
    case True
    from idle(2) [OF True] later.prems(1,2) obtain es where
      es: "uart_hist t = h @ Rd IPENDING (env h IPENDING) # es" "tx_out b es = []" by blast
    have c: "uart_ok t" "sp_base t = b" "sp_flags t = sp_flags s" "tx_served t"
      using idle(1) later.prems(2,5) by (auto simp: isr_rels tx_served_def)
    have ne: "sp_tx_start t \<noteq> sp_tx_end t"
      using True tx_pending_0 [OF c(1)] tx_pending_0 [OF later.prems(3)] later.prems(6) by simp
    with c later.prems(4) have on: "tx_on t" by (auto simp: tx_served_def)
    have "P t"
    proof (rule later.IH [OF es(2) _ es(1) c(2,1) _ on ne])
      show "tx_irq_on b (h @ Rd IPENDING (env h IPENDING) # es)" using on c(2) es(1) by (simp add: tx_on_def)
      show "\<not> bits_set (sp_flags t) ALT_AVALON_UART_FC" using c(3) later.prems(4) by simp
      fix u v
      assume "isr_rel t u" "tx_pending u = tx_pending t" "interruptible env u = Inr ((), v)" "isr_rel u v"
        "tx_pending v < tx_pending u \<or> P v"
      then show "P u" by (intro later.prems(7) [of u v]) (use idle(1) True in \<open>auto intro: isr_rel_trans\<close>)
    qed
    with t idle(1) later.prems(3) show ?thesis by (intro later.prems(7)) (auto intro: isr_rel_refl)
  next
    case False
    with isr_pending [OF idle(1)] t idle(1) later.prems(3) show ?thesis
      by (intro later.prems(7)) (auto intro: isr_rel_refl)
  qed
qed

end
