(* ===== verification/Uart_Read.thy ===== *)
theory Uart_Read
  imports Uart_Interrupts
begin

text \<open>
  The reading call, with interrupts at any point: what it took out of the receive ring, and that it
  leaves the transmit stream alone.
\<close>

section \<open>Taking bytes out\<close>

text \<open>What a reading call leaves alone: everything sent or queued for sending.\<close>

definition reader_rel :: "uart \<Rightarrow> uart \<Rightarrow> bool" where
  "reader_rel s s' \<longleftrightarrow> uart_ok s' \<and> sp_base s' = sp_base s \<and> tx_stream s' = tx_stream s"

lemma reader_rel_refl: "uart_ok s \<Longrightarrow> reader_rel s s"
  by (simp add: reader_rel_def)

lemma reader_rel_trans: "reader_rel s t \<Longrightarrow> reader_rel t u \<Longrightarrow> reader_rel s u"
  by (simp add: reader_rel_def)

lemma across_reader: "across_irq env s t \<Longrightarrow> reader_rel s t"
  by (simp add: across_irq_def isr_rels reader_rel_def)

lemma across_rx_queue: "across_irq env s t \<Longrightarrow> rx_quiet env (sp_base s) \<Longrightarrow> rx_queue t = rx_queue s"
  by (simp add: across_irq_def isr_rels rx_same_def rx_queue_def)

text \<open>\<open>bs\<close> was taken out of the receive ring.\<close>

definition took :: "env \<Rightarrow> uart \<Rightarrow> u8 list \<Rightarrow> uart \<Rightarrow> bool" where
  "took env s bs s' \<longleftrightarrow> reader_rel s s' \<and> (rx_quiet env (sp_base s) \<longrightarrow> rx_queue s = bs @ rx_queue s')"

lemma took_Nil: "across_irq env s t \<Longrightarrow> took env s [] t"
  by (simp add: took_def across_reader across_rx_queue)

lemma took_trans: "took env s bs t \<Longrightarrow> took env t cs u \<Longrightarrow> took env s (bs @ cs) u"
  by (auto simp: took_def reader_rel_def)

lemma took_one:
  assumes "uart_ok s" "sp_rx_start s \<noteq> sp_rx_end s" "across_irq env s t"
  shows "took env s [sp_rx_buf s ! unat (sp_rx_start s)] (t\<lparr>sp_rx_start := ring_next (sp_rx_start s)\<rparr>)"
proof -
  let ?t = "t\<lparr>sp_rx_start := ring_next (sp_rx_start s)\<rparr>"
  have "reader_rel s ?t"
    using across_reader [OF assms(3)] by (auto simp: reader_rel_def uart_ok_def tx_stream_def tx_queue_def)
  moreover have "rx_queue s = sp_rx_buf s ! unat (sp_rx_start s) # rx_queue ?t" if "rx_quiet env (sp_base s)"
    using that assms ring_get [of "sp_rx_start s" "sp_rx_end s"]
    by (simp add: rx_queue_def uart_ok_def across_irq_def rx_same_def)
  ultimately show ?thesis by (simp add: took_def)
qed

lemma wp_uart_drain:
  assumes "uart_ok s"
    and "\<And>bs s'. took env s bs s' \<Longrightarrow> length bs \<le> n \<Longrightarrow>
           (rx_quiet env (sp_base s) \<Longrightarrow> length bs < n \<Longrightarrow> rx_queue s' = []) \<Longrightarrow> Q (acc @ bs) s'"
  shows "wp (uart_drain n acc) env Q F s"
  using assms
proof (induction n arbitrary: acc s)
  case 0
  from 0(2) [OF took_Nil [OF across_irq_refl [OF 0(1)]]] show ?case by (simp add: wp_simps)
next
  case (Suc n)
  show ?case
    unfolding uart_drain.simps wp_bnd
  proof (rule wp_interruptible [OF Suc.prems(1)])
    fix t
    assume t: "across_irq env s t"
    note tn = took_Nil [OF t] and tok = across_irq_ok [OF t]
    have tb: "sp_base t = sp_base s" using across_reader [OF t] by (simp add: reader_rel_def)
    show "wp (gets (\<lambda>s. sp_rx_start s \<noteq> sp_rx_end s)) env
      (\<lambda>some. wp (if some then bnd (gets sp_rx_start) (\<lambda>i. bnd (rx_buf_load i) (\<lambda>b.
         bnd interruptible (\<lambda>_. bnd (modify (\<lambda>s. s\<lparr>sp_rx_start := ring_next i\<rparr>)) (\<lambda>_.
         uart_drain n (acc @ [b]))))) else ret acc) env Q F) F t"
    proof (cases "sp_rx_start t = sp_rx_end t")
      case True
      then have "rx_queue t = []" by (simp add: rx_queue_def)
      then show ?thesis using True Suc.prems(2) [OF tn] by (simp add: wp_simps)
    next
      case False
      let ?b = "sp_rx_buf t ! unat (sp_rx_start t)"
      have "wp interruptible env (\<lambda>_ s'. wp (uart_drain n (acc @ [?b])) env Q F
          (s'\<lparr>sp_rx_start := ring_next (sp_rx_start t)\<rparr>)) F t"
      proof (rule wp_interruptible [OF tok])
        fix u
        assume u: "across_irq env t u"
        let ?u = "u\<lparr>sp_rx_start := ring_next (sp_rx_start t)\<rparr>"
        note one = took_trans [OF tn took_one [OF tok False u], simplified]
        have ub: "uart_ok ?u" "sp_base ?u = sp_base s" using one by (auto simp: took_def reader_rel_def)
        show "wp (uart_drain n (acc @ [?b])) env Q F ?u"
        proof (rule Suc.IH [OF ub(1)])
          fix bs s'
          assume "took env ?u bs s'" "length bs \<le> n" and
            "rx_quiet env (sp_base ?u) \<Longrightarrow> length bs < n \<Longrightarrow> rx_queue s' = []"
          then show "Q ((acc @ [?b]) @ bs) s'"
            using Suc.prems(2) [of "?b # bs" s'] took_trans [OF one, of bs s'] ub(2) by simp
        qed
      qed
      with False tok show ?thesis by (simp add: wp_simps uart_ok_def)
    qed
  qed
qed

lemma took_update [simp]:
  "took env s bs (t\<lparr>uart_errno := e\<rparr>) = took env s bs t"
  "took env s bs (t\<lparr>sp_ctrl := c\<rparr>) = took env s bs t"
  by (simp_all add: took_def reader_rel_def uart_ok_def tx_stream_def tx_queue_def rx_queue_def)

lemma took_hist: "took env s bs t \<Longrightarrow> tx_out (sp_base t) es = [] \<Longrightarrow> took env s bs (t\<lparr>uart_hist := uart_hist t @ es\<rparr>)"
  by (auto simp: took_def reader_rel_def uart_ok_def tx_stream_def tx_queue_def rx_queue_def)

lemma took_ok: "took env s bs t \<Longrightarrow> uart_ok t"
  by (simp add: took_def reader_rel_def)

lemma took_base: "took env s bs t \<Longrightarrow> sp_base t = sp_base s"
  by (simp add: took_def reader_rel_def)

lemma wp_enable_rx:
  assumes "took env s bs t" "\<And>u. took env s bs u \<Longrightarrow> uart_errno u = uart_errno t \<Longrightarrow> rx_queue u = rx_queue t \<Longrightarrow> Q () u"
  shows "wp enable_rx env Q F t"
  unfolding enable_rx_def
  by (simp add: wp_simps) (rule assms(2), use assms(1) in \<open>auto intro!: took_hist simp: rx_queue_def took_def reader_rel_def uart_ok_def tx_stream_def tx_queue_def\<close>)

lemma wp_uart_read_round:
  assumes "uart_ok s"
    and Q: "\<And>bs w fin t. took env s bs t \<Longrightarrow> length bs \<le> nat len \<Longrightarrow>
       (w \<Longrightarrow> bs = [] \<and> \<not> block \<and> uart_errno t = EWOULDBLOCK) \<Longrightarrow> (fin \<longleftrightarrow> bs \<noteq> [] \<or> w \<or> len = 0) \<Longrightarrow>
       (rx_quiet env (sp_base s) \<Longrightarrow> bs = take (nat len) (rx_queue s) \<and> (w \<longleftrightarrow> rx_queue s = [] \<and> \<not> block)) \<Longrightarrow>
       Q (bs, w, fin) t"
  shows "wp (uart_read_round len block) env Q F s"
  unfolding uart_read_round_def wp_bnd
proof (intro wp_interruptible [OF assms(1)])
  fix s0
  assume s0: "across_irq env s s0"
  show "wp (uart_drain (nat len) []) env (\<lambda>bs. wp interruptible env (\<lambda>_. wp (gets (\<lambda>s. sp_rx_start s = sp_rx_end s)) env
     (\<lambda>empty. wp (if bs = [] \<and> empty
        then if \<not> block then bnd (modify (\<lambda>s. s\<lparr>uart_errno := EWOULDBLOCK\<rparr>)) (\<lambda>_. ret (bs, True, True))
             else bnd enable_rx (\<lambda>_. ret (bs, False, len = 0))
        else ret (bs, False, bs \<noteq> [] \<or> len = 0)) env Q F) F) F) F s0"
  proof (rule wp_uart_drain [OF across_irq_ok [OF s0]], rule wp_interruptible)
    fix bs s1 t
    assume 1: "took env s0 bs s1" "length bs \<le> nat len"
      and e: "rx_quiet env (sp_base s0) \<Longrightarrow> length bs < nat len \<Longrightarrow> rx_queue s1 = []" and t: "across_irq env s1 t"
    have 2: "took env s bs t" using took_trans [OF took_trans [OF took_Nil [OF s0] 1(1)] took_Nil [OF t]] by simp
    have ok: "uart_ok t" by (rule took_ok [OF 2])
    have b: "sp_base s0 = sp_base s" "sp_base s1 = sp_base s"
      using took_base [OF took_Nil [OF s0]] took_base [OF 1(1)] by simp_all
    have emp: "sp_rx_start t = sp_rx_end t \<longleftrightarrow> rx_queue t = []"
      using ok by (simp add: rx_queue_def uart_ok_def ring_content_empty)
    have q: "bs = take (nat len) (rx_queue s) \<and> rx_queue s = bs @ rx_queue t" if "rx_quiet env (sp_base s)"
    proof -
      have "rx_queue t = rx_queue s1" using across_rx_queue [OF t] that b by simp
      with 2 e 1(2) b that show ?thesis by (cases "length bs < nat len") (auto simp: took_def)
    qed
    show "wp (gets (\<lambda>s. sp_rx_start s = sp_rx_end s)) env
     (\<lambda>empty. wp (if [] @ bs = [] \<and> empty
        then if \<not> block then bnd (modify (\<lambda>s. s\<lparr>uart_errno := EWOULDBLOCK\<rparr>)) (\<lambda>_. ret ([] @ bs, True, True))
             else bnd enable_rx (\<lambda>_. ret ([] @ bs, False, len = 0))
        else ret ([] @ bs, False, [] @ bs \<noteq> [] \<or> len = 0)) env Q F) F t"
      using 2 1(2) q by (auto simp: wp_simps emp intro!: Q wp_enable_rx [OF 2])
  qed (rule took_ok)
qed

text \<open>What a call that returns has done.\<close>

definition read_done :: "env \<Rightarrow> int \<Rightarrow> bool \<Rightarrow> uart \<Rightarrow> (u8 list \<times> bool) \<times> uart \<Rightarrow> bool" where
  "read_done env len block s r \<longleftrightarrow>
     (case r of ((bs, w), t) \<Rightarrow> took env s bs t \<and> length bs \<le> nat len \<and>
        (if w then bs = [] \<and> \<not> block \<and> uart_errno t = EWOULDBLOCK else bs \<noteq> [] \<or> len = 0))"

lemma uart_read_loop_result:
  assumes "uart_read_loop len block env s = Some r" "uart_ok s"
  shows "\<exists>v. r = Inr v \<and> read_done env len block s v"
proof -
  let ?P = "\<lambda>len block env s r. uart_ok s \<longrightarrow> (\<exists>v. r = Inr v \<and> read_done env len block s v)"
  have "?P len block env s r"
  proof (rule uart_read_loop.raw_induct [where P = ?P, OF _ assms(1)], intro impI)
    fix loop len block env s r
    assume IH: "\<And>len block env s r. loop len block env s = Some r \<Longrightarrow> ?P len block env s r"
      and eq: "(case uart_read_round len block env s of
        Inl f \<Rightarrow> Some (Inl f)
      | Inr r \<Rightarrow>
          (if snd (snd (fst r)) then Some (Inr ((fst (fst r), fst (snd (fst r))), snd r))
           else loop len block env (snd r))) = Some r" and ok: "uart_ok s"
    have "wp (uart_read_round len block) env (\<lambda>a t. took env s (fst a) t \<and> length (fst a) \<le> nat len \<and>
        (fst (snd a) \<longrightarrow> fst a = [] \<and> \<not> block \<and> uart_errno t = EWOULDBLOCK) \<and>
        (snd (snd a) \<longleftrightarrow> fst a \<noteq> [] \<or> fst (snd a) \<or> len = 0)) (\<lambda>_. False) s"
      by (rule wp_uart_read_round [OF ok]) auto
    then obtain a t where a: "uart_read_round len block env s = Inr (a, t)"
      "took env s (fst a) t \<and> length (fst a) \<le> nat len \<and>
        (fst (snd a) \<longrightarrow> fst a = [] \<and> \<not> block \<and> uart_errno t = EWOULDBLOCK) \<and>
        (snd (snd a) \<longleftrightarrow> fst a \<noteq> [] \<or> fst (snd a) \<or> len = 0)" by (blast dest: wp_totalD)
    obtain bs w fin where "a = (bs, w, fin)" by (cases a)
    with a have rd: "uart_read_round len block env s = Inr ((bs, w, fin), t)"
      and p: "took env s bs t" "length bs \<le> nat len" "w \<longrightarrow> bs = [] \<and> \<not> block \<and> uart_errno t = EWOULDBLOCK"
        "fin \<longleftrightarrow> bs \<noteq> [] \<or> w \<or> len = 0"
      by simp_all
    show "\<exists>v. r = Inr v \<and> read_done env len block s v"
    proof (cases fin)
      case True
      with eq rd p show ?thesis by (auto simp: read_done_def)
    next
      case False
      with p(4) have "bs = []" by simp
      with p(1) have t: "took env s [] t" by simp
      from False eq rd have "loop len block env t = Some r" by simp
      from IH [OF this] took_ok [OF t] obtain v where "r = Inr v" "read_done env len block t v" by auto
      with took_trans [OF t] show ?thesis by (auto simp: read_done_def split: prod.splits)
    qed
  qed
  with assms(2) show ?thesis by blast
qed

text \<open>
  With nothing new arriving, a call for which there is data, that asks for nothing or that does not
  block ends in its first round.
\<close>

lemma uart_read_loop_returns:
  assumes "uart_ok s" "rx_quiet env (sp_base s)" "rx_queue s \<noteq> [] \<and> 0 < len \<or> len = 0 \<or> rx_queue s = [] \<and> \<not> block"
  shows "\<exists>bs w t. uart_read_loop len block env s = Some (Inr ((bs, w), t)) \<and>
     bs = take (nat len) (rx_queue s) \<and> (w \<longleftrightarrow> rx_queue s = [] \<and> \<not> block)"
proof -
  have "wp (uart_read_round len block) env (\<lambda>a t. snd (snd a) \<and>
      fst a = take (nat len) (rx_queue s) \<and> (fst (snd a) \<longleftrightarrow> rx_queue s = [] \<and> \<not> block)) (\<lambda>_. False) s"
    by (rule wp_uart_read_round [OF assms(1)]) (use assms(2,3) in auto)
  then obtain a t where a: "uart_read_round len block env s = Inr (a, t)" "snd (snd a)"
    "fst a = take (nat len) (rx_queue s)" "fst (snd a) \<longleftrightarrow> rx_queue s = [] \<and> \<not> block"
    by (blast dest: wp_totalD)
  then show ?thesis
    by (intro exI [of _ "fst a"] exI [of _ "fst (snd a)"] exI [of _ t]) (subst uart_read_loop.simps, simp)
qed

end
