(* ===== verification/Uart_Write.thy ===== *)
theory Uart_Write
  imports Uart_Read
begin

text \<open>
  The writing call, with interrupts at any point: the bytes it accepted are appended to the stream
  of everything sent or queued, whatever the transmitter takes out meanwhile.
\<close>

section \<open>Appending to the transmit stream\<close>

text \<open>\<open>bs\<close> was put into the transmit stream.\<close>

definition wrote :: "uart \<Rightarrow> u8 list \<Rightarrow> uart \<Rightarrow> bool" where
  "wrote s bs s' \<longleftrightarrow> uart_ok s' \<and> sp_base s' = sp_base s \<and> sp_flags s' = sp_flags s \<and> tx_stream s' = tx_stream s @ bs \<and>
     line_kept False s s'"

lemma wrote_trans: "wrote s bs t \<Longrightarrow> wrote t cs u \<Longrightarrow> wrote s (bs @ cs) u"
  by (auto simp: wrote_def line_kept_def intro: sends_trans)

lemma wrote_live: "wrote s bs t \<Longrightarrow> tx_live env t = tx_live env s"
  by (simp add: wrote_def tx_live_def)

lemma isr_wrote: "isr_rel s t \<Longrightarrow> wrote s [] t"
  by (simp add: wrote_def isr_rels)

lemma across_isr: "across_irq env s t \<Longrightarrow> isr_rel s t"
  by (simp add: across_irq_def)

lemma wrote_errno [simp]: "wrote s bs (t\<lparr>uart_errno := e\<rparr>) = wrote s bs t"
  by (simp add: wrote_def uart_ok_def tx_stream_def tx_queue_def line_kept_def)

lemma wp_enable_tx:
  assumes "uart_ok s" "\<And>t. isr_rel s t \<Longrightarrow> tx_on t \<Longrightarrow> Q () t"
  shows "wp enable_tx env Q F s"
  unfolding enable_tx_def
  by (simp add: wp_simps)
    (rule assms(2), use assms(1) in \<open>simp_all add: isr_rel_def uart_rels line_kept_def sends_silent\<close>)

lemma uart_wait_space_result:
  assumes "uart_wait_space nxt env s = Some r" "uart_ok s"
  shows "\<exists>t. r = Inr ((), t) \<and> isr_rel s t \<and> nxt \<noteq> sp_tx_start t"
proof -
  let ?P = "\<lambda>nxt env s r. uart_ok s \<longrightarrow> (\<exists>t. r = Inr ((), t) \<and> isr_rel s t \<and> nxt \<noteq> sp_tx_start t)"
  have "?P nxt env s r"
  proof (rule uart_wait_space.raw_induct [where P = ?P, OF _ assms(1)], intro impI)
    fix loop nxt env s r
    assume IH: "\<And>nxt env s r. loop nxt env s = Some r \<Longrightarrow> ?P nxt env s r"
      and eq: "(case interruptible env s of
        Inl f \<Rightarrow> Some (Inl f)
      | Inr r \<Rightarrow> (if nxt = sp_tx_start (snd r) then loop nxt env (snd r) else Some (Inr r))) = Some r"
      and ok: "uart_ok s"
    have "wp interruptible env (\<lambda>_. across_irq env s) (\<lambda>_. False) s"
      by (rule wp_interruptible [OF ok])
    then obtain u where i: "interruptible env s = Inr ((), u)" and u: "isr_rel s u"
      by (auto dest!: wp_totalD dest: across_isr)
    show "\<exists>t. r = Inr ((), t) \<and> isr_rel s t \<and> nxt \<noteq> sp_tx_start t"
    proof (cases "nxt = sp_tx_start u")
      case True
      with eq i have "loop nxt env u = Some r" by simp
      from IH [OF this] u show ?thesis by (blast intro: isr_rel_trans dest: isr_ok)
    next
      case False
      with eq i u show ?thesis by auto
    qed
  qed
  with assms(2) show ?thesis by blast
qed

text \<open>With the transmitter serving, one byte sent makes room.\<close>

lemma wait_space_room:
  assumes "interruptible env s = Inr ((), t)" "isr_rel s t" "tx_pending t < 63"
  shows "uart_wait_space (ring_next (sp_tx_end s)) env s \<noteq> None"
proof -
  have "ring_next (sp_tx_end t) \<noteq> sp_tx_start t"
    using assms(2,3) ring_full [of "sp_tx_start t" "sp_tx_end t"] by (auto simp: isr_rels uart_ok_def tx_pending_def)
  with assms(1,2) show ?thesis by (subst uart_wait_space.simps) (simp add: isr_rels)
qed

lemma uart_wait_space_live:
  assumes "uart_ok s" "tx_live env s" "tx_on s"
  shows "uart_wait_space (ring_next (sp_tx_end s)) env s \<noteq> None"
proof (cases "sp_tx_start s = sp_tx_end s")
  case True
  have "wp interruptible env (\<lambda>_. across_irq env s) (\<lambda>_. False) s" by (rule wp_interruptible [OF assms(1)])
  then obtain t where t: "interruptible env s = Inr ((), t)" "isr_rel s t" by (auto dest!: wp_unitD dest: across_isr)
  have "tx_pending t < 63" using isr_pending [OF t(2)] True tx_pending_0 [OF assms(1)] by simp
  with t show ?thesis by (rule wait_space_room)
next
  case False
  have soon: "tx_soon env (sp_base s) (uart_hist s)"
    using assms(2,3) by (simp add: tx_live_def tx_serves_def tx_on_def)
  show ?thesis
  proof (rule tx_soon_induct [where P = "\<lambda>u. uart_wait_space (ring_next (sp_tx_end s)) env u \<noteq> None", OF soon refl refl])
    fix u t
    assume u: "isr_rel s u" "interruptible env u = Inr ((), t)" "isr_rel u t"
      and t: "tx_pending t < tx_pending u \<or> uart_wait_space (ring_next (sp_tx_end s)) env t \<noteq> None"
    have same: "sp_tx_end u = sp_tx_end s" using u(1) by (simp add: isr_rels)
    have "tx_pending u \<le> 63" using ring_count_less [of "sp_tx_start u" "sp_tx_end u"] by (simp add: tx_pending_def)
    with t consider "tx_pending t < 63" | "uart_wait_space (ring_next (sp_tx_end s)) env t \<noteq> None" by linarith
    then show "uart_wait_space (ring_next (sp_tx_end s)) env u \<noteq> None"
    proof cases
      case 1
      from wait_space_room [OF u(2,3) this] same show ?thesis by simp
    next
      case 2
      with u(2) show ?thesis by (subst uart_wait_space.simps) auto
    qed
  qed (use assms False in \<open>simp_all add: tx_live_def\<close>)
qed

lemma wp_uart_wait_run:
  assumes "F Hang \<or> tx_live env s \<and> tx_on s \<and> nxt = ring_next (sp_tx_end s)" "uart_ok s"
    and "\<And>t. isr_rel s t \<Longrightarrow> nxt \<noteq> sp_tx_start t \<Longrightarrow> Q () t"
  shows "wp (uart_wait_run nxt) env Q F s"
proof (cases "uart_wait_space nxt env s")
  case None
  with uart_wait_space_live [OF assms(2), of env] assms(1) have "F Hang" by auto
  with None show ?thesis by (simp add: wp_def uart_wait_run_def)
next
  case (Some r)
  from uart_wait_space_result [OF Some assms(2)] obtain t where
    "r = Inr ((), t)" "isr_rel s t" "nxt \<noteq> sp_tx_start t" by blast
  with Some assms(3) show ?thesis by (simp add: wp_def uart_wait_run_def)
qed

lemma wp_uart_claim_slot:
  assumes "no_block \<or> F Hang \<or> tx_live env s" "uart_ok s"
    and "\<And>t. isr_rel s t \<Longrightarrow> ring_next (sp_tx_end t) \<noteq> sp_tx_start t \<Longrightarrow> Q (Some (ring_next (sp_tx_end t))) t"
    and "\<And>t. isr_rel s t \<Longrightarrow> no_block \<Longrightarrow> length (tx_queue t) = 63 \<Longrightarrow> Q None (t\<lparr>uart_errno := EWOULDBLOCK\<rparr>)"
  shows "wp (uart_claim_slot no_block) env Q F s"
  unfolding uart_claim_slot_def wp_bnd wp_gets
proof (rule wp_interruptible [OF assms(2)])
  fix t
  assume "across_irq env s t"
  then have t: "isr_rel s t" "uart_ok t" "sp_tx_end t = sp_tx_end s" by (auto simp: across_irq_def isr_rels)
  have full: "ring_next (sp_tx_end t) = sp_tx_start t \<Longrightarrow> length (tx_queue t) = 63"
    using t(2) by (simp add: uart_ok_def tx_queue_def ring_full)
  have wait: "wp enable_tx env (\<lambda>_. wp (uart_wait_run (ring_next (sp_tx_end s))) env
      (\<lambda>_. Q (Some (ring_next (sp_tx_end s)))) F) F t" if "F Hang \<or> tx_live env s"
  proof (rule wp_enable_tx [OF t(2)], rule wp_uart_wait_run [where F = F])
    fix u
    assume "isr_rel t u" "tx_on u"
    with that t(3) isr_live [OF this(1)] isr_live [OF t(1)]
    show "F Hang \<or> tx_live env u \<and> tx_on u \<and> ring_next (sp_tx_end s) = ring_next (sp_tx_end u)" by (auto simp: isr_rels)
  next
    fix u v
    assume u: "isr_rel t u" "tx_on u" and v: "isr_rel u v" "ring_next (sp_tx_end s) \<noteq> sp_tx_start v"
    then have "sp_tx_end v = sp_tx_end s" using t(3) by (simp add: isr_rels)
    with assms(3) [OF isr_rel_trans [OF isr_rel_trans [OF t(1) u(1)] v(1)]] v(2)
    show "Q (Some (ring_next (sp_tx_end s))) v" by simp
  qed (simp add: isr_rels)
  have some: "ring_next (sp_tx_end s) \<noteq> sp_tx_start t \<Longrightarrow> Q (Some (ring_next (sp_tx_end s))) t"
    using assms(3) [OF t(1)] t(3) by simp
  have none: "ring_next (sp_tx_end s) = sp_tx_start t \<Longrightarrow> no_block \<Longrightarrow> Q None (t\<lparr>uart_errno := EWOULDBLOCK\<rparr>)"
    using assms(4) [OF t(1)] full t(3) by simp
  show "(\<lambda>sa. wp (if \<not> (ring_next (sp_tx_end s) = sp_tx_start sa) then ret (Some (ring_next (sp_tx_end s)))
       else if no_block then bnd (modify (\<lambda>s. s\<lparr>uart_errno := EWOULDBLOCK\<rparr>)) (\<lambda>_. ret None)
       else bnd enable_tx (\<lambda>_. bnd (uart_wait_run (ring_next (sp_tx_end s))) (\<lambda>_. ret (Some (ring_next (sp_tx_end s))))))
      env Q F sa) t"
    using wait some none assms(1) by (auto simp: wp_simps)
qed

text \<open>Storing a byte in a claimed slot and publishing it, with an interrupt in between.\<close>

lemma wrote_store:
  assumes "uart_ok t" "ring_next (sp_tx_end t) \<noteq> sp_tx_start t"
    and "isr_rel (t\<lparr>sp_tx_buf := (sp_tx_buf t)[unat (sp_tx_end t) := b]\<rparr>) u"
  shows "wrote t [b] (u\<lparr>sp_tx_end := ring_next (sp_tx_end t)\<rparr>)"
proof -
  let ?t = "t\<lparr>sp_tx_buf := (sp_tx_buf t)[unat (sp_tx_end t) := b]\<rparr>"
  note ok = assms(1) [unfolded uart_ok_def]
  have u: "uart_ok u" "sp_base u = sp_base t" "sp_flags u = sp_flags t" "sp_tx_end u = sp_tx_end t"
    "sp_tx_buf u = (sp_tx_buf t)[unat (sp_tx_end t) := b]" "tx_stream u = tx_stream ?t"
    "ring_count (sp_tx_start u) (sp_tx_end t) \<le> ring_count (sp_tx_start t) (sp_tx_end t)"
    using assms(3) by (auto simp: isr_rels)
  have "tx_stream ?t = tx_stream t" using ok ring_store_end by (simp add: tx_stream_def tx_queue_def)
  moreover have "ring_count (sp_tx_start t) (sp_tx_end t) \<noteq> 63" using ok assms(2) ring_full by blast
  then have "ring_count (sp_tx_start u) (sp_tx_end t) \<noteq> 63"
    using u(7) ring_count_less [of "sp_tx_start t" "sp_tx_end t"] by linarith
  then have nf: "ring_next (sp_tx_end t) \<noteq> sp_tx_start u"
    using ok u(1) ring_full [of "sp_tx_start u" "sp_tx_end t"] by (simp add: uart_ok_def)
  have "ring_content (sp_tx_buf u) (sp_tx_start u) (ring_next (sp_tx_end t)) =
      ring_content (sp_tx_buf u) (sp_tx_start u) (sp_tx_end t) @ [b]"
    using ring_advance [OF _ _ nf, of "sp_tx_buf u"] ok u(1,5) by (simp add: uart_ok_def)
  moreover have "line_kept False t (u\<lparr>sp_tx_end := ring_next (sp_tx_end t)\<rparr>)"
    using assms(3) by (simp add: isr_rel_def line_kept_def)
  ultimately show ?thesis using u ok by (auto simp: wrote_def tx_stream_def tx_queue_def uart_ok_def)
qed

lemma wp_uart_write_loop:
  assumes "no_block \<or> F Hang \<or> tx_live env s" "uart_ok s" "0 \<le> count" "nat count \<le> length ptr"
    and "\<And>k t. wrote s (take k ptr) t \<Longrightarrow> k \<le> nat count \<Longrightarrow>
           (k < nat count \<Longrightarrow> no_block \<and> uart_errno t = EWOULDBLOCK \<and> length (tx_queue t) = 63) \<Longrightarrow> Q (count - int k) t"
  shows "wp (uart_write_loop no_block ptr count) env Q F s"
  using assms
proof (induction ptr arbitrary: s count)
  case Nil
  then have "wrote s (take 0 []) s" "count = 0" by (simp_all add: wrote_def line_kept_def)
  with Nil.prems(5) [of 0 s] show ?case by (simp add: wp_simps)
next
  case (Cons b ptr)
  show ?case
  proof (cases "count = 0")
    case True
    have "wrote s (take 0 (b # ptr)) s" using Cons.prems(2) by (simp add: wrote_def line_kept_def)
    with True Cons.prems(5) [of 0 s] show ?thesis by (simp add: wp_simps)
  next
    case False
    show ?thesis
      unfolding uart_write_loop.simps [of no_block "b # ptr"] wp_bnd if_not_P [OF False]
    proof (rule wp_uart_claim_slot [where F = F, OF Cons.prems(1,2)], goal_cases)
      case (1 t)
      note w0 = isr_wrote [OF 1(1)]
      have ok: "uart_ok t" using w0 by (simp add: wrote_def)
      let ?t = "t\<lparr>sp_tx_buf := (sp_tx_buf t)[unat (sp_tx_end t) := b]\<rparr>"
      have "wp interruptible env (\<lambda>_ u. wp (uart_write_loop no_block ptr (count - 1)) env Q F
          (u\<lparr>sp_tx_end := ring_next (sp_tx_end t)\<rparr>)) F ?t"
      proof (rule wp_interruptible)
        show "uart_ok ?t" using ok by (simp add: uart_ok_def)
        fix u
        assume "across_irq env ?t u"
        from wrote_store [OF ok 1(2) across_isr [OF this]]
        have w: "wrote t [b] (u\<lparr>sp_tx_end := ring_next (sp_tx_end t)\<rparr>)" (is "wrote t [b] ?u") .
        show "wp (uart_write_loop no_block ptr (count - 1)) env Q F ?u"
        proof (rule Cons.IH)
          fix k v
          assume k: "wrote ?u (take k ptr) v" "k \<le> nat (count - 1)"
            "k < nat (count - 1) \<Longrightarrow> no_block \<and> uart_errno v = EWOULDBLOCK \<and> length (tx_queue v) = 63"
          from wrote_trans [OF wrote_trans [OF w0 w] k(1)]
          have "wrote s (take (Suc k) (b # ptr)) v" by simp
          from Cons.prems(5) [OF this] k(2,3) False Cons.prems(3) show "Q (count - 1 - int k) v"
            by (simp add: algebra_simps)
        qed (use wrote_live [OF w0] wrote_live [OF w] w False Cons.prems in \<open>auto simp: wrote_def\<close>)
      qed
      then show ?case using ok by (simp add: wp_simps uart_ok_def)
    next
      case (2 t)
      have "wrote s (take 0 (b # ptr)) (t\<lparr>uart_errno := EWOULDBLOCK\<rparr>)" using isr_wrote [OF 2(1)] by simp
      from Cons.prems(5) [OF this] 2(2,3) show ?case by (simp add: wp_simps tx_queue_def)
    qed
  qed
qed

lemma wp_uart_write:
  assumes "uart_ok s" "0 \<le> len" "nat len \<le> length data"
  shows "wp (altera_avalon_uart_write data len fl) env
    (\<lambda>r s'. 0 \<le> r \<and> r \<le> len \<and> uart_ok s' \<and> sp_base s' = sp_base s \<and> sp_flags s' = sp_flags s \<and> tx_stream s' = tx_stream s @ take (nat r) data \<and> line_kept False s s' \<and> tx_on s' \<and>
       (r < len \<longrightarrow> fl AND O_NONBLOCK \<noteq> 0 \<and> uart_errno s' = EWOULDBLOCK))
    (\<lambda>f. f = Hang \<and> fl AND O_NONBLOCK = 0 \<and> \<not> tx_live env s) s"
proof -
  let ?nb = "fl AND O_NONBLOCK \<noteq> 0"
  let ?Q = "\<lambda>r s'. 0 \<le> r \<and> r \<le> len \<and> uart_ok s' \<and> sp_base s' = sp_base s \<and> sp_flags s' = sp_flags s \<and> tx_stream s' = tx_stream s @ take (nat r) data \<and> line_kept False s s' \<and> tx_on s' \<and>
      (r < len \<longrightarrow> ?nb \<and> uart_errno s' = EWOULDBLOCK)"
  have "wp (altera_avalon_uart_write data len fl) env ?Q (\<lambda>f. f = Hang \<and> \<not> ?nb \<and> \<not> tx_live env s) s"
    unfolding altera_avalon_uart_write_def wp_bnd
  proof (rule wp_uart_write_loop [OF _ assms])
    fix k t
    assume k: "wrote s (take k data) t" "k \<le> nat len"
      "k < nat len \<Longrightarrow> ?nb \<and> uart_errno t = EWOULDBLOCK \<and> length (tx_queue t) = 63"
    have "?Q (int k) u" if "isr_rel t u" "tx_on u" for u
    proof -
      from that(1) have "uart_errno u = uart_errno t" by (simp add: isr_rels)
      moreover from wrote_trans [OF k(1) isr_wrote [OF that(1)]] have "wrote s (take k data) u" by simp
      ultimately show ?thesis using k(2,3) assms(2) that(2) by (auto simp: wrote_def)
    qed
    then show "wp enable_tx env (\<lambda>_. wp (ret (len - (len - int k))) env ?Q (\<lambda>f. f = Hang \<and> \<not> ?nb \<and> \<not> tx_live env s))
        (\<lambda>f. f = Hang \<and> \<not> ?nb \<and> \<not> tx_live env s) t"
      by (intro wp_enable_tx) (use k(1) in \<open>simp_all add: wrote_def wp_simps\<close>)
  qed auto
  then show ?thesis by simp
qed

end
