(* ===== verification/Uart_Calls.thy ===== *)
theory Uart_Calls
  imports Uart_Write
begin

text \<open>
  The properties of the UART driver: both rings are interpretations of the queue contract, the
  receive and transmit interrupts, and the calls read, write, close and ioctl.
\<close>

section \<open>The two rings\<close>

definition rx_put :: "u8 \<Rightarrow> uart \<Rightarrow> uart" where
  "rx_put b s = s\<lparr>sp_rx_buf := (sp_rx_buf s)[unat (sp_rx_end s) := b], sp_rx_end := ring_next (sp_rx_end s)\<rparr>"

definition rx_get :: "uart \<Rightarrow> uart" where
  "rx_get s = s\<lparr>sp_rx_start := ring_next (sp_rx_start s)\<rparr>"

definition tx_put :: "u8 \<Rightarrow> uart \<Rightarrow> uart" where
  "tx_put b s = s\<lparr>sp_tx_buf := (sp_tx_buf s)[unat (sp_tx_end s) := b], sp_tx_end := ring_next (sp_tx_end s)\<rparr>"

definition tx_get :: "uart \<Rightarrow> uart" where
  "tx_get s = s\<lparr>sp_tx_start := ring_next (sp_tx_start s)\<rparr>"

lemma ring_tl:
  "unat s < 64 \<Longrightarrow> unat e < 64 \<Longrightarrow> ring_content buf s e \<noteq> [] \<Longrightarrow>
   ring_content buf (ring_next s) e = tl (ring_content buf s e)"
  using ring_get [of s e buf] by (cases "s = e") auto

interpretation rxq: byte_queue uart_ok rx_queue rx_put rx_get "\<lambda>s. ring_next (sp_rx_end s) = sp_rx_start s" 63
proof unfold_locales
  fix s
  assume "uart_ok s"
  then show "length (rx_queue s) \<le> 63"
    using ring_count_less [of "sp_rx_start s" "sp_rx_end s"] by (simp add: rx_queue_def)
qed (auto simp: uart_ok_def rx_queue_def rx_put_def rx_get_def ring_full ring_put ring_tl)

interpretation txq: byte_queue uart_ok tx_queue tx_put tx_get "\<lambda>s. ring_next (sp_tx_end s) = sp_tx_start s" 63
proof unfold_locales
  fix s
  assume "uart_ok s"
  then show "length (tx_queue s) \<le> 63"
    using ring_count_less [of "sp_tx_start s" "sp_tx_end s"] by (simp add: tx_queue_def)
qed (auto simp: uart_ok_def tx_queue_def tx_put_def tx_get_def ring_full ring_put ring_tl)

section \<open>The receive interrupt\<close>

text \<open>The bytes read from the receiver.\<close>

definition rx_in :: "u32 \<Rightarrow> history \<Rightarrow> u8 list" where
  "rx_in b h = concat (map (\<lambda>e. case e of Rd a v \<Rightarrow> (if a = IOADDR b UART_RXDATA then [ucast v] else []) | _ \<Rightarrow> []) h)"

lemma rx_in_append [simp]: "rx_in b (h @ h') = rx_in b h @ rx_in b h'"
  by (simp add: rx_in_def)

lemma uart_reorder:
  "s\<lparr>uart_hist := h, sp_rx_buf := b, sp_rx_end := e\<rparr> = s\<lparr>sp_rx_buf := b, sp_rx_end := e, uart_hist := h\<rparr>"
  by (cases s) simp

lemma wp_rxirq_put:
  assumes "uart_ok s" "\<not> bits_set status (UART_STATUS_PE_MSK OR UART_STATUS_FE_MSK)"
    and "\<And>d c h. rx_in (sp_base s) h = rx_in (sp_base s) (uart_hist s) @ [d] \<Longrightarrow>
           Q () ((rx_put d s)\<lparr>sp_ctrl := c, uart_hist := h\<rparr>)"
  shows "wp (altera_avalon_uart_rxirq status) env Q F s"
proof -
  let ?d = "env (uart_hist s) (IOADDR (sp_base s) UART_RXDATA)"
  let ?h = "uart_hist s @ [Rd (IOADDR (sp_base s) UART_RXDATA) ?d]"
  let ?c = "sp_ctrl s AND NOT UART_CONTROL_RRDY_MSK"
  have "Q () ((rx_put (ucast ?d) s)\<lparr>sp_ctrl := sp_ctrl s, uart_hist := ?h\<rparr>)"
    by (rule assms(3)) (simp add: rx_in_def)
  moreover have "Q () ((rx_put (ucast ?d) s)\<lparr>sp_ctrl := ?c,
      uart_hist := ?h @ [Wr (IOADDR (sp_base s) UART_CONTROL) ?c]\<rparr>)"
    by (rule assms(3)) (simp add: rx_in_def)
  ultimately show ?thesis
    using assms(1,2) unfolding altera_avalon_uart_rxirq_def
    by (auto simp: wp_simps Let_def uart_ok_def rx_put_def uart_reorder)
qed

text \<open>
  A burst of receive interrupts that fits the ring queues exactly the bytes read from the
  receiver, in the order of their arrival, behind those pending.
\<close>

lemma uart_rx_burst:
  assumes "uart_ok s" "\<not> bits_set status (UART_STATUS_PE_MSK OR UART_STATUS_FE_MSK)"
    and "length (rx_queue s) + n \<le> 63"
  shows "\<exists>s' bs. each [0..<n] (\<lambda>_. altera_avalon_uart_rxirq status) env s = Inr ((), s') \<and>
     uart_ok s' \<and> length bs = n \<and> rx_in (sp_base s) (uart_hist s') = rx_in (sp_base s) (uart_hist s) @ bs \<and>
     rx_queue s' = rx_queue s @ bs"
proof -
  let ?I = "\<lambda>ys t. \<exists>ds c h. t = (fold rx_put ds s)\<lparr>sp_ctrl := c, uart_hist := h\<rparr> \<and> length ds = length ys \<and>
     rx_in (sp_base s) h = rx_in (sp_base s) (uart_hist s) @ ds"
  have base: "sp_base (fold rx_put ds s) = sp_base s" for ds
    by (induction ds rule: rev_induct) (simp_all add: rx_put_def)
  have put: "rx_put d (u\<lparr>sp_ctrl := c, uart_hist := h\<rparr>) = (rx_put d u)\<lparr>sp_ctrl := c, uart_hist := h\<rparr>" for d u c h
    by (simp add: rx_put_def)
  have "wp (each [0..<n] (\<lambda>_. altera_avalon_uart_rxirq status)) env (\<lambda>_. ?I [0..<n]) (\<lambda>_. False) s"
  proof (rule wp_each [where I = ?I])
    show "?I [] s" by (intro exI [of _ "[]"] exI [of _ "sp_ctrl s"] exI [of _ "uart_hist s"]) simp
    fix ys x zs t
    assume xs: "[0..<n] = ys @ x # zs" and "?I ys t"
    then obtain ds c h where t: "t = (fold rx_put ds s)\<lparr>sp_ctrl := c, uart_hist := h\<rparr>" "length ds = length ys"
      "rx_in (sp_base s) h = rx_in (sp_base s) (uart_hist s) @ ds" by blast
    have "length ys < n" using arg_cong [OF xs, of length] by simp
    with t(2) assms(3) rxq.puts_content [OF assms(1), of ds] have "uart_ok t" by (simp add: t(1) uart_ok_def)
    then show "wp (altera_avalon_uart_rxirq status) env (\<lambda>_. ?I (ys @ [x])) (\<lambda>_. False) t"
    proof (rule wp_rxirq_put [OF _ assms(2)])
      fix d c' h'
      assume "rx_in (sp_base t) h' = rx_in (sp_base t) (uart_hist t) @ [d]"
      then show "?I (ys @ [x]) ((rx_put d t)\<lparr>sp_ctrl := c', uart_hist := h'\<rparr>)"
        using t base by (intro exI [of _ "ds @ [d]"] exI [of _ c'] exI [of _ h']) (simp add: put)
    qed
  qed auto
  from wp_unitD [OF this] obtain s' ds c h where
    run: "each [0..<n] (\<lambda>_. altera_avalon_uart_rxirq status) env s = Inr ((), s')"
    and s': "s' = (fold rx_put ds s)\<lparr>sp_ctrl := c, uart_hist := h\<rparr>" "length ds = n"
      "rx_in (sp_base s) h = rx_in (sp_base s) (uart_hist s) @ ds" by auto
  from rxq.puts_content [OF assms(1), of ds] assms(3) s'(2)
  have "uart_ok s' \<and> rx_queue s' = rx_queue s @ ds" by (simp add: s'(1) uart_ok_def rx_queue_def)
  with run s' show ?thesis by (intro exI [of _ s'] exI [of _ ds]) simp
qed

lemma uart_ok_instance [simp]: "uart_ok ALTERA_AVALON_UART_DEV_INSTANCE"
  by (simp add: uart_ok_def ALTERA_AVALON_UART_DEV_INSTANCE_def ALT_AVALON_UART_BUF_LEN_def)

lemma queues_instance [simp]:
  "rx_queue ALTERA_AVALON_UART_DEV_INSTANCE = []" "tx_queue ALTERA_AVALON_UART_DEV_INSTANCE = []"
  by (simp_all add: rx_queue_def tx_queue_def ALTERA_AVALON_UART_DEV_INSTANCE_def)

lemma uart_rx_burst_witness:
  "\<exists>s'. each [0..<3] (\<lambda>_. altera_avalon_uart_rxirq 0x80) (\<lambda>_ _. 7) ALTERA_AVALON_UART_DEV_INSTANCE = Inr ((), s') \<and>
     length (rx_queue s') = 3"
  using uart_rx_burst [of ALTERA_AVALON_UART_DEV_INSTANCE "0x80" 3 "\<lambda>_ _. 7"]
  by (auto simp: UART_STATUS_PE_MSK_def UART_STATUS_FE_MSK_def)

text \<open>
  C27: a receive interrupt that comes while the ring is full loses everything: the end index moves
  onto the start index, so the 63 pending bytes and the new one are gone. (The handler looks at the
  receive flag even when it was entered for the transmitter, with the receive interrupt off.)
\<close>

lemma uart_rx_overflow:
  assumes "uart_ok s" "\<not> bits_set status (UART_STATUS_PE_MSK OR UART_STATUS_FE_MSK)" "length (rx_queue s) = 63"
  shows "\<exists>s'. altera_avalon_uart_rxirq status env s = Inr ((), s') \<and> rx_queue s' = []"
proof -
  have full: "ring_next (sp_rx_end s) = sp_rx_start s" using rxq.full_iff [OF assms(1)] assms(3) by simp
  have "wp (altera_avalon_uart_rxirq status) env (\<lambda>_ t. rx_queue t = []) (\<lambda>_. False) s"
    by (rule wp_rxirq_put [OF assms(1,2)]) (simp add: rx_put_def rx_queue_def full)
  from wp_unitD [OF this] show ?thesis by auto
qed

text \<open>The instance with \<open>n\<close> bytes pending in each ring.\<close>

definition uart_pending :: "nat \<Rightarrow> uart" where
  "uart_pending n = ALTERA_AVALON_UART_DEV_INSTANCE\<lparr>sp_rx_end := of_nat n, sp_tx_end := of_nat n\<rparr>"

lemma uart_pending_simps:
  assumes "n < 64"
  shows "uart_ok (uart_pending n)" "length (rx_queue (uart_pending n)) = n" "length (tx_queue (uart_pending n)) = n"
proof -
  have "unat (of_nat n :: u32) = n" using assms by (simp add: unat_of_nat)
  with assms show "uart_ok (uart_pending n)" "length (rx_queue (uart_pending n)) = n" "length (tx_queue (uart_pending n)) = n"
    by (simp_all add: uart_pending_def uart_ok_def rx_queue_def tx_queue_def ring_count_def
        ALTERA_AVALON_UART_DEV_INSTANCE_def ALT_AVALON_UART_BUF_LEN_def)
qed

lemma uart_rx_overflow_witness:
  "\<exists>s'. altera_avalon_uart_rxirq 0x80 (\<lambda>_ _. 7) (uart_pending 63) = Inr ((), s') \<and> rx_queue s' = []"
  by (rule uart_rx_overflow) (simp_all add: uart_pending_simps UART_STATUS_PE_MSK_def UART_STATUS_FE_MSK_def)

section \<open>The interrupt handler\<close>

text \<open>
  C24: whatever the registers answer, the interrupt handler returns, stays within the buffers, keeps
  the indices in range and the stream of all bytes sent or queued unchanged: it moves bytes from the
  transmit ring to the transmitter in order, and changes neither the reader's nor the writer's index.
\<close>

lemma uart_irq_invariant:
  assumes "uart_ok s"
  shows "\<exists>s'. altera_avalon_uart_irq env s = Inr ((), s') \<and> uart_ok s' \<and> tx_stream s' = tx_stream s \<and>
     sp_rx_start s' = sp_rx_start s \<and> sp_tx_end s' = sp_tx_end s \<and>
     length (tx_queue s') \<le> length (tx_queue s)"
  using wp_unitD [OF wp_uart_irq [OF assms, of env]] by (auto simp: across_irq_def isr_rels tx_queue_def)

lemma uart_irq_invariant_witness:
  "\<exists>s'. altera_avalon_uart_irq (\<lambda>_ _. 0xFFFFFFFF) (uart_pending 5) = Inr ((), s') \<and> uart_ok s'"
  using uart_irq_invariant [of "uart_pending 5" "\<lambda>_ _. 0xFFFFFFFF"] by (auto simp: uart_pending_simps)

section \<open>Reading\<close>

lemma uart_read_unfold:
  "altera_avalon_uart_read len fl env s =
     (case uart_read_loop len (fl AND O_NONBLOCK = 0) env s of
        None \<Rightarrow> Inl Hang
      | Some (Inl f) \<Rightarrow> Inl f
      | Some (Inr (r, t)) \<Rightarrow>
          bnd enable_rx (\<lambda>_. ret (if snd r then - EWOULDBLOCK else int (length (fst r)), fst r)) env t)"
  by (simp add: altera_avalon_uart_read_def bnd_def uart_read_run_def split: option.split sum.split prod.split)

lemma enable_rx_run:
  assumes "took env s bs t"
  shows "\<exists>u. bnd enable_rx (\<lambda>_. ret v) env t = Inr (v, u) \<and> took env s bs u \<and>
     uart_errno u = uart_errno t \<and> rx_queue u = rx_queue t"
proof -
  have "wp (bnd enable_rx (\<lambda>_. ret v)) env
      (\<lambda>r u. r = v \<and> took env s bs u \<and> uart_errno u = uart_errno t \<and> rx_queue u = rx_queue t) (\<lambda>_. False) t"
    by (simp add: wp_simps) (rule wp_enable_rx [OF assms], auto)
  from wp_totalD [OF this] show ?thesis by blast
qed

lemma uart_read_returns:
  assumes "uart_read_loop len (fl AND O_NONBLOCK = 0) env s = Some (Inr ((bs, w), t))" "took env s bs t"
  shows "\<exists>u. altera_avalon_uart_read len fl env s = Inr ((if w then - EWOULDBLOCK else int (length bs), bs), u) \<and>
     took env s bs u \<and> uart_errno u = uart_errno t"
  using enable_rx_run [OF assms(2), of "(if w then - EWOULDBLOCK else int (length bs), bs)"]
  unfolding uart_read_unfold assms(1) option.case sum.case prod.case fst_conv snd_conv by blast

text \<open>
  Whatever the hardware does and whenever it interrupts, a read either waits for ever or
  returns at most the bytes asked for and their number, or \<open>-EWOULDBLOCK\<close> and no byte when it must
  not block; it never leaves the buffers and does not disturb what is being sent.
\<close>

lemma uart_read_safe:
  assumes "uart_ok s"
  shows "altera_avalon_uart_read len fl env s = Inl Hang \<or>
     (\<exists>r bs s'. altera_avalon_uart_read len fl env s = Inr ((r, bs), s') \<and> uart_ok s' \<and> tx_stream s' = tx_stream s \<and>
        length bs \<le> nat len \<and>
        (r = int (length bs) \<and> (bs \<noteq> [] \<or> len = 0) \<or>
         r = - EWOULDBLOCK \<and> bs = [] \<and> fl AND O_NONBLOCK \<noteq> 0 \<and> uart_errno s' = EWOULDBLOCK))"
proof (cases "uart_read_loop len (fl AND O_NONBLOCK = 0) env s")
  case (Some r)
  from uart_read_loop_result [OF Some assms] obtain bs w t where
    r: "r = Inr ((bs, w), t)" "read_done env len (fl AND O_NONBLOCK = 0) s ((bs, w), t)" by auto
  from r(2) have d: "took env s bs t" "length bs \<le> nat len"
    "if w then bs = [] \<and> fl AND O_NONBLOCK \<noteq> 0 \<and> uart_errno t = EWOULDBLOCK else bs \<noteq> [] \<or> len = 0"
    unfolding read_done_def prod.case by blast+
  from Some r(1) have "uart_read_loop len (fl AND O_NONBLOCK = 0) env s = Some (Inr ((bs, w), t))" by simp
  from uart_read_returns [OF this d(1)] obtain u where
    u: "altera_avalon_uart_read len fl env s = Inr ((if w then - EWOULDBLOCK else int (length bs), bs), u)"
      "took env s bs u" "uart_errno u = uart_errno t" by blast
  from u(2) have "uart_ok u" "tx_stream u = tx_stream s" by (simp_all add: took_def reader_rel_def)
  with u d show ?thesis
    by (intro disjI2 exI [of _ "if w then - EWOULDBLOCK else int (length bs)"] exI [of _ bs] exI [of _ u])
      (cases w, simp_all)
qed (simp add: uart_read_unfold)

lemma uart_read_safe_witness:
  "altera_avalon_uart_read 4 0 (\<lambda>_ _. 0xFFFFFFFF) (uart_pending 5) \<noteq> Inl OutOfBounds"
  using uart_read_safe [of "uart_pending 5" 4 0 "\<lambda>_ _. 0xFFFFFFFF"] by (auto simp: uart_pending_simps)

text \<open>
  C25: while nothing new arrives, a read for which bytes are pending, or which must not block, returns
  at once with the oldest pending bytes, at most as many as asked for, and leaves the others queued;
  with none pending it reports \<open>-EWOULDBLOCK\<close>. Transmit interrupts may come at any point.
\<close>

lemma uart_read_fifo:
  assumes "uart_ok s" "rx_quiet env (sp_base s)" "0 < len" "rx_queue s \<noteq> [] \<or> fl AND O_NONBLOCK \<noteq> 0"
  shows "\<exists>s'. altera_avalon_uart_read len fl env s =
       Inr ((if rx_queue s = [] then - EWOULDBLOCK else min len (int (length (rx_queue s))), take (nat len) (rx_queue s)), s') \<and>
     rx_queue s' = drop (nat len) (rx_queue s) \<and> tx_stream s' = tx_stream s"
proof -
  let ?block = "fl AND O_NONBLOCK = 0"
  have "rx_queue s \<noteq> [] \<and> 0 < len \<or> len = 0 \<or> rx_queue s = [] \<and> \<not> ?block" using assms(3,4) by auto
  from uart_read_loop_returns [OF assms(1,2) this] obtain bs w t where
    run: "uart_read_loop len ?block env s = Some (Inr ((bs, w), t))"
    and bs: "bs = take (nat len) (rx_queue s)" "w \<longleftrightarrow> rx_queue s = [] \<and> \<not> ?block" by blast
  from uart_read_loop_result [OF run assms(1)] have tk: "took env s bs t" by (simp add: read_done_def)
  from uart_read_returns [OF run tk] obtain u where
    u: "altera_avalon_uart_read len fl env s = Inr ((if w then - EWOULDBLOCK else int (length bs), bs), u)"
      "took env s bs u" by blast
  have "rx_queue s = bs @ rx_queue u" using u(2) assms(2) by (simp add: took_def)
  then have "rx_queue u = drop (nat len) (rx_queue s)" using bs(1) by (metis append_take_drop_id same_append_eq)
  moreover have "(if w then - EWOULDBLOCK else int (length bs)) =
      (if rx_queue s = [] then - EWOULDBLOCK else min len (int (length (rx_queue s))))"
    using bs assms(3,4) by (cases "rx_queue s = []") auto
  moreover have "tx_stream u = tx_stream s" using u(2) by (simp add: took_def reader_rel_def)
  ultimately show ?thesis using u(1) bs(1) by (intro exI [of _ u]) simp
qed

lemma uart_read_fifo_witness:
  "\<exists>s'. altera_avalon_uart_read 4 0 (\<lambda>_ _. 0x40) (uart_pending 5) = Inr ((4, take 4 (rx_queue (uart_pending 5))), s')"
proof -
  have "rx_queue (uart_pending 5) \<noteq> []" using uart_pending_simps(2) [of 5] by auto
  then show ?thesis
    using uart_read_fifo [of "uart_pending 5" "\<lambda>_ _. 0x40" 4 0]
    by (auto simp: uart_pending_simps rx_quiet_def UART_STATUS_RRDY_MSK_def)
qed

section \<open>Writing\<close>

text \<open>
  C15: no byte is lost, doubled or reordered on the way out. With interrupts taking bytes from the
  ring at any point, a write that returns \<open>r\<close> has appended exactly the first \<open>r\<close> bytes of the data to
  the stream of all bytes sent or queued. It returns fewer than asked for only when it must not
  block and the ring is full; only a blocking call can wait for ever,
  and only on a transmitter that does not serve its interrupt (\<open>tx_serves\<close>) or on a device that heeds
  the CTS line.
\<close>

lemma uart_write_stream:
  assumes "uart_ok s" "0 \<le> len" "nat len \<le> length data"
  shows "(altera_avalon_uart_write data len fl env s = Inl Hang \<and> fl AND O_NONBLOCK = 0 \<and> \<not> tx_live env s) \<or>
     (\<exists>r s'. altera_avalon_uart_write data len fl env s = Inr (r, s') \<and> 0 \<le> r \<and> r \<le> len \<and>
        uart_ok s' \<and> tx_stream s' = tx_stream s @ take (nat r) data \<and>
        (r < len \<longrightarrow> fl AND O_NONBLOCK \<noteq> 0 \<and> uart_errno s' = EWOULDBLOCK))"
  using wp_uart_write [OF assms, of fl env] by (auto simp: wp_def split: sum.splits)

lemma uart_write_stream_witness:
  "\<exists>r s'. altera_avalon_uart_write [1, 2, 3] 3 0x4000 (\<lambda>_ _. 0xFFFFFFFF) (uart_pending 62) = Inr (r, s') \<and> r \<le> 3"
  using uart_write_stream [of "uart_pending 62" 3 "[1, 2, 3]" "0x4000" "\<lambda>_ _. 0xFFFFFFFF"]
  by (auto simp: uart_pending_simps O_NONBLOCK_def)

section \<open>Closing\<close>

lemma uart_close_loop_result:
  assumes "uart_close_loop no_block env s = Some r" "uart_ok s"
  shows "\<exists>v t. r = Inr (v, t) \<and> isr_rel s t \<and>
     (if v = 0 then tx_queue t = [] else v = - EWOULDBLOCK \<and> no_block \<and> tx_queue t \<noteq> [])"
proof -
  let ?P = "\<lambda>no_block env s r. uart_ok s \<longrightarrow> (\<exists>v t. r = Inr (v, t) \<and> isr_rel s t \<and>
     (if v = 0 then tx_queue t = [] else v = - EWOULDBLOCK \<and> no_block \<and> tx_queue t \<noteq> []))"
  have "?P no_block env s r"
  proof (rule uart_close_loop.raw_induct [where P = ?P, OF _ assms(1)], intro impI)
    fix loop no_block env s r
    assume IH: "\<And>no_block env s r. loop no_block env s = Some r \<Longrightarrow> ?P no_block env s r"
      and eq: "(case interruptible env s of
        Inl f \<Rightarrow> Some (Inl f)
      | Inr r \<Rightarrow>
          (if sp_tx_start (snd r) = sp_tx_end (snd r) then Some (Inr (0, snd r))
           else if no_block then Some (Inr (- EWOULDBLOCK, snd r))
           else loop no_block env (snd r))) = Some r"
      and ok: "uart_ok s"
    have "wp interruptible env (\<lambda>_. across_irq env s) (\<lambda>_. False) s"
      by (rule wp_interruptible [OF ok])
    then obtain u where i: "interruptible env s = Inr ((), u)" and u: "isr_rel s u"
      by (auto dest!: wp_totalD dest: across_isr)
    have "uart_ok u" using u by (rule isr_ok)
    then have emp: "tx_queue u = [] \<longleftrightarrow> sp_tx_start u = sp_tx_end u"
      by (simp add: uart_ok_def tx_queue_def ring_content_empty)
    show "\<exists>v t. r = Inr (v, t) \<and> isr_rel s t \<and>
       (if v = 0 then tx_queue t = [] else v = - EWOULDBLOCK \<and> no_block \<and> tx_queue t \<noteq> [])"
    proof (cases "sp_tx_start u = sp_tx_end u \<or> no_block")
      case True
      with eq i have "r = Inr (if sp_tx_start u = sp_tx_end u then 0 else - EWOULDBLOCK, u)"
        by (simp split: if_splits)
      with True u emp show ?thesis
        by (intro exI [of _ "if sp_tx_start u = sp_tx_end u then 0 else - EWOULDBLOCK"] exI [of _ u])
          (auto simp: EWOULDBLOCK_def)
    next
      case False
      with eq i have "loop no_block env u = Some r" by simp
      from IH [OF this] \<open>uart_ok u\<close> u show ?thesis by (blast dest: isr_rel_trans)
    qed
  qed
  with assms(2) show ?thesis by blast
qed

lemma uart_close_loop_live:
  assumes "uart_ok s" "tx_live env s" "tx_served s"
  shows "uart_close_loop no_block env s \<noteq> None"
  using assms
proof (induction "tx_pending s" arbitrary: s rule: less_induct)
  case less
  note fc = less.prems(2) [unfolded tx_live_def]
  show ?case
  proof (cases "sp_tx_start s = sp_tx_end s")
    case True
    have "wp interruptible env (\<lambda>_. across_irq env s) (\<lambda>_. False) s" by (rule wp_interruptible [OF less.prems(1)])
    then obtain t where t: "interruptible env s = Inr ((), t)" "isr_rel s t" by (auto dest!: wp_unitD dest: across_isr)
    with isr_pending [OF t(2)] True tx_pending_0 [OF less.prems(1)] tx_pending_0 [OF isr_ok [OF t(2)]]
    have "sp_tx_start t = sp_tx_end t" by simp
    with t(1) show ?thesis by (subst uart_close_loop.simps) simp
  next
    case False
    then have on: "tx_on s" using less.prems(3) fc by (simp add: tx_served_def)
    then have soon: "tx_soon env (sp_base s) (uart_hist s)" using fc by (simp add: tx_serves_def tx_on_def)
    show ?thesis
    proof (rule tx_soon_induct [where P = "\<lambda>u. uart_close_loop no_block env u \<noteq> None", OF soon refl refl less.prems(1) _ on False])
      fix u t
      assume u: "isr_rel s u" "tx_pending u = tx_pending s" "interruptible env u = Inr ((), t)" "isr_rel u t"
        and t: "tx_pending t < tx_pending u \<or> uart_close_loop no_block env t \<noteq> None"
      have st: "isr_rel s t" by (rule isr_rel_trans [OF u(1,4)])
      then have "tx_served t" using less.prems(3) by (simp add: isr_rels)
      with t u(2) isr_live [OF st] less.prems(2) less.hyps [of t] isr_ok [OF st]
      have "uart_close_loop no_block env t \<noteq> None" by auto
      with u(3) show "uart_close_loop no_block env u \<noteq> None" by (subst uart_close_loop.simps) auto
    qed (use fc in simp)
  qed
qed

lemma wp_uart_close:
  assumes "uart_ok s"
  shows "wp (altera_avalon_uart_close fl) env
    (\<lambda>v s'. uart_ok s' \<and>
        line_kept False s s' \<and>
        (v = 0 \<and> tx_out (sp_base s) (uart_hist s') = tx_stream s \<or>
         v = - EWOULDBLOCK \<and> fl AND O_NONBLOCK \<noteq> 0 \<and> tx_queue s' \<noteq> [] \<and> tx_stream s' = tx_stream s))
    (\<lambda>f. f = Hang \<and> fl AND O_NONBLOCK = 0 \<and> \<not> (tx_live env s \<and> tx_served s)) s"
proof (cases "uart_close_loop (fl AND O_NONBLOCK \<noteq> 0) env s")
  case None
  have "fl AND O_NONBLOCK = 0"
  proof (rule ccontr)
    assume nb: "fl AND O_NONBLOCK \<noteq> 0"
    have "wp interruptible env (\<lambda>_. across_irq env s) (\<lambda>_. False) s" by (rule wp_interruptible [OF assms])
    then obtain u where "interruptible env s = Inr ((), u)" by (auto dest!: wp_totalD)
    with None nb show False by (subst (asm) uart_close_loop.simps) (auto split: if_splits)
  qed
  moreover have "\<not> (tx_live env s \<and> tx_served s)" using uart_close_loop_live [OF assms] None by blast
  ultimately show ?thesis using None by (simp add: altera_avalon_uart_close_def wp_def)
next
  case (Some r)
  from uart_close_loop_result [OF Some assms] obtain v t where
    r: "r = Inr (v, t)" "isr_rel s t"
    "if v = 0 then tx_queue t = [] else v = - EWOULDBLOCK \<and> fl AND O_NONBLOCK \<noteq> 0 \<and> tx_queue t \<noteq> []" by blast
  from r(2) have "uart_ok t" "sp_base t = sp_base s" "tx_stream t = tx_stream s" "line_kept False s t"
    by (simp_all add: isr_rels)
  moreover from this r(3) have "v = 0 \<Longrightarrow> tx_out (sp_base s) (uart_hist t) = tx_stream s" by (simp add: tx_stream_def)
  ultimately show ?thesis using Some r
    by (cases "v = 0") (simp_all add: altera_avalon_uart_close_def wp_def)
qed

text \<open>
  Closing returns 0 only when every byte ever queued has been handed to the transmitter; a
  non-blocking close of a ring that is not empty returns \<open>-EWOULDBLOCK\<close>, and a blocking one waits,
  for ever only if the transmitter does not serve its interrupt or the interrupt is off.
\<close>

lemma uart_close_drained:
  assumes "uart_ok s"
  shows "(altera_avalon_uart_close fl env s = Inl Hang \<and> fl AND O_NONBLOCK = 0 \<and> \<not> (tx_live env s \<and> tx_served s)) \<or>
     (\<exists>v s'. altera_avalon_uart_close fl env s = Inr (v, s') \<and> uart_ok s' \<and>
        (v = 0 \<and> tx_out (sp_base s) (uart_hist s') = tx_stream s \<or>
         v = - EWOULDBLOCK \<and> fl AND O_NONBLOCK \<noteq> 0 \<and> tx_queue s' \<noteq> [] \<and> tx_stream s' = tx_stream s))"
  using wp_uart_close [OF assms, of fl env] by (auto simp: wp_def split: sum.splits)

lemma uart_close_drained_witness:
  "\<exists>v s'. altera_avalon_uart_close 0x4000 (\<lambda>_ _. 0) (uart_pending 5) = Inr (v, s') \<and> uart_ok s'"
  using uart_close_drained [of "uart_pending 5" "0x4000" "\<lambda>_ _. 0"]
  by (auto simp: uart_pending_simps O_NONBLOCK_def)

section \<open>Configuration\<close>

text \<open>
  Setting the configuration accepts exactly the current structure with another baud rate, and
  that only on a device whose rate is not fixed; then the divisor register is programmed for the
  rate. Anything else is refused with \<open>-EIO\<close>, touches no register and leaves the input rate.
\<close>

lemma uart_tiocmset:
  assumes "c_ispeed term \<noteq> 0"
  shows "\<exists>rc s'. altera_avalon_uart_tiocmset term env s = Inr (rc, s') \<and>
     (if term = (if bits_set (sp_flags s) ALT_AVALON_UART_FB then sp_termios s
         else (sp_termios s)\<lparr>c_ispeed := c_ispeed term, c_ospeed := c_ispeed term\<rparr>)
      then rc = 0 \<and> sp_termios s' = term \<and>
        uart_hist s' = uart_hist s @ [Wr (IOADDR (sp_base s) UART_DIVISOR) (sp_freq s div c_ispeed term - 1)]
      else rc = - EIO \<and> uart_hist s' = uart_hist s \<and> c_ispeed (sp_termios s') = c_ispeed (sp_termios s))"
proof -
  have "wp (altera_avalon_uart_tiocmset term) env (\<lambda>rc s'.
      if term = (if bits_set (sp_flags s) ALT_AVALON_UART_FB then sp_termios s
         else (sp_termios s)\<lparr>c_ispeed := c_ispeed term, c_ospeed := c_ispeed term\<rparr>)
      then rc = 0 \<and> sp_termios s' = term \<and>
        uart_hist s' = uart_hist s @ [Wr (IOADDR (sp_base s) UART_DIVISOR) (sp_freq s div c_ispeed term - 1)]
      else rc = - EIO \<and> uart_hist s' = uart_hist s \<and> c_ispeed (sp_termios s') = c_ispeed (sp_termios s)) (\<lambda>_. False) s"
    using assms unfolding altera_avalon_uart_tiocmset_def by (auto simp: wp_simps)
  from wp_totalD [OF this] show ?thesis by blast
qed

lemma uart_tiocmset_witness:
  "\<exists>rc s'. altera_avalon_uart_tiocmset (sp_termios ALTERA_AVALON_UART_DEV_INSTANCE) (\<lambda>_ _. 0)
     ALTERA_AVALON_UART_DEV_INSTANCE = Inr (rc, s') \<and> rc = 0"
proof -
  have "c_ispeed (sp_termios ALTERA_AVALON_UART_DEV_INSTANCE) \<noteq> 0"
    "bits_set (sp_flags ALTERA_AVALON_UART_DEV_INSTANCE) ALT_AVALON_UART_FB"
    by (simp_all add: ALTERA_AVALON_UART_DEV_INSTANCE_def ALTERA_AVALON_UART_TERMIOS_def UART_BAUD_def
        UART_FIXED_BAUD_def UART_USE_CTS_RTS_def ALT_AVALON_UART_FB_def)
  with uart_tiocmset [of "sp_termios ALTERA_AVALON_UART_DEV_INSTANCE" "\<lambda>_ _. 0" ALTERA_AVALON_UART_DEV_INSTANCE]
  show ?thesis by auto
qed

end
