(* ===== verification/Uart_Polled.thy ===== *)
theory Uart_Polled
  imports Uart_Calls
begin

text \<open>
  The polled (small footprint) variant of the UART driver, \<^verbatim>\<open>drivers/src/altera_avalon_uart_read.c\<close>
  and \<^verbatim>\<open>altera_avalon_uart_write.c\<close> under \<^verbatim>\<open>ALTERA_AVALON_UART_SMALL\<close>: no interrupts and no buffers.
  Its state is the base address; the second component of a result is the byte stored at \<open>ptr[0]\<close>
  (read) or whether \<open>errno\<close> was set (write).
\<close>

section \<open>Reading\<close>

partial_function (option) uart_small_read_loop ::
    "u32 \<Rightarrow> bool \<Rightarrow> u8 option \<Rightarrow> env \<Rightarrow> history \<Rightarrow> (fault + (int \<times> u8 option) \<times> history) option" where
  "uart_small_read_loop b block stored env h =
     (case bnd (IORD b UART_STATUS) (\<lambda>status. bnd (IOWR b UART_STATUS 0) (\<lambda>_.
             if bits_set status UART_STATUS_RRDY_MSK then
               bnd (IORD b UART_RXDATA) (\<lambda>d.
               ret (\<not> bits_set status (UART_STATUS_PE_MSK OR UART_STATUS_FE_MSK), Some (ucast d)))
             else ret (False, stored))) env h of
        Inl f \<Rightarrow> Some (Inl f)
      | Inr r \<Rightarrow>
          (if fst (fst r) then Some (Inr ((1, snd (fst r)), snd r))
           else if block then uart_small_read_loop b block (snd (fst r)) env (snd r)
           else Some (Inr ((0, snd (fst r)), snd r))))"

definition uart_small_read :: "u32 \<Rightarrow> u32 \<Rightarrow> (history, int \<times> u8 option) prog" where
  "uart_small_read b fl =
     (\<lambda>env h. case uart_small_read_loop b (fl AND O_NONBLOCK = 0) None env h of None \<Rightarrow> Inl Hang | Some r \<Rightarrow> r)"

section \<open>Writing\<close>

text \<open>One round of the loop: what is left of the data and of the count.\<close>

definition uart_small_write_round :: "u32 \<Rightarrow> u8 list \<Rightarrow> int \<Rightarrow> (history, u8 list \<times> int) prog" where
  "uart_small_write_round b ptr count =
     bnd (IORD b UART_STATUS) (\<lambda>status.
     if bits_set status UART_STATUS_TRDY_MSK then
       (case ptr of
          [] \<Rightarrow> fail OutOfBounds
        | c # ptr' \<Rightarrow> bnd (IOWR b UART_TXDATA (ucast c)) (\<lambda>_. ret (ptr', count - 1)))
     else ret (ptr, count))"

partial_function (option) uart_small_write_loop ::
    "u32 \<Rightarrow> bool \<Rightarrow> u8 list \<Rightarrow> int \<Rightarrow> env \<Rightarrow> history \<Rightarrow> (fault + int \<times> history) option" where
  "uart_small_write_loop b block ptr count env h =
     (case uart_small_write_round b ptr count env h of
        Inl f \<Rightarrow> Some (Inl f)
      | Inr r \<Rightarrow>
          (if block \<and> snd (fst r) \<noteq> 0 then uart_small_write_loop b block (fst (fst r)) (snd (fst r)) env (snd r)
           else Some (Inr (snd (fst r), snd r))))"

definition uart_small_write :: "u32 \<Rightarrow> u8 list \<Rightarrow> int \<Rightarrow> u32 \<Rightarrow> (history, int \<times> bool) prog" where
  "uart_small_write b ptr len fl =
     bnd (\<lambda>env h. case uart_small_write_loop b (fl AND O_NONBLOCK = 0) ptr len env h of None \<Rightarrow> Inl Hang | Some r \<Rightarrow> r)
       (\<lambda>count. ret (len - count, count \<noteq> 0))"

text \<open>A round looks at the status, and stores a byte only when it has seen the transmitter ready.\<close>

lemma wp_small_write_round:
  assumes "count = int (length ptr)" "0 < count"
    and "\<And>v. v = env h (IOADDR b UART_STATUS) \<Longrightarrow> \<not> bits_set v UART_STATUS_TRDY_MSK \<Longrightarrow>
       Q (ptr, count) (h @ [Rd (IOADDR b UART_STATUS) v])"
    and "\<And>c ptr' es. ptr = c # ptr' \<Longrightarrow> tx_out b es = [c] \<Longrightarrow> (\<And>r. line_from b r es = [c]) \<Longrightarrow> Q (ptr', count - 1) (h @ es)"
  shows "wp (uart_small_write_round b ptr count) env Q F h"
proof (cases ptr)
  case Nil
  with assms(1,2) show ?thesis by simp
next
  case (Cons c ptr')
  let ?v = "env h (IOADDR b UART_STATUS)"
  have "Q (ptr', count - 1) (h @ [Rd (IOADDR b UART_STATUS) ?v, Wr (IOADDR b UART_TXDATA) (ucast c)])"
    if "bits_set ?v UART_STATUS_TRDY_MSK"
    by (rule assms(4) [OF Cons]) (use that in simp_all)
  with assms(3) Cons show ?thesis by (simp add: uart_small_write_round_def wp_simps)
qed

lemma small_write_loop_result:
  assumes "uart_small_write_loop b True ptr count env h = Some r" "count = int (length ptr)" "0 < count"
  shows "\<exists>h'. r = Inr (0, h') \<and> tx_out b h' = tx_out b h @ ptr \<and> line_out b h' = line_out b h @ ptr"
proof -
  let ?R = "\<lambda>b h ptr h'. tx_out b h' = tx_out b h @ ptr \<and> line_out b h' = line_out b h @ ptr"
  let ?P = "\<lambda>b block ptr count env h r. block \<longrightarrow> count = int (length ptr) \<longrightarrow> 0 < count \<longrightarrow>
     (\<exists>h'. r = Inr (0, h') \<and> ?R b h ptr h')"
  have "?P b True ptr count env h r"
  proof (rule uart_small_write_loop.raw_induct [where P = ?P, OF _ assms(1)], intro impI)
    fix loop b block ptr count env h r
    assume IH: "\<And>b block ptr count env h r. loop b block ptr count env h = Some r \<Longrightarrow> ?P b block ptr count env h r"
      and eq: "(case uart_small_write_round b ptr count env h of
        Inl f \<Rightarrow> Some (Inl f)
      | Inr r \<Rightarrow>
          (if block \<and> snd (fst r) \<noteq> 0 then loop b block (fst (fst r)) (snd (fst r)) env (snd r)
           else Some (Inr (snd (fst r), snd r)))) = Some r"
      and p: "block" "count = int (length ptr)" "0 < count"
    let ?Q = "\<lambda>v t. snd v = int (length (fst v)) \<and> tx_out b t @ fst v = tx_out b h @ ptr \<and>
      line_out b t @ fst v = line_out b h @ ptr"
    have "wp (uart_small_write_round b ptr count) env ?Q (\<lambda>_. False) h"
      by (rule wp_small_write_round [OF p(2,3)]) (use p(2) in \<open>auto simp: line_out_append\<close>)
    then obtain v t where rd: "uart_small_write_round b ptr count env h = Inr (v, t)" and q: "?Q v t"
      by (blast dest: wp_totalD)
    show "\<exists>h'. r = Inr (0, h') \<and> ?R b h ptr h'"
    proof (cases "fst v = []")
      case True
      with eq rd q show ?thesis by auto
    next
      case False
      with q have "0 < snd v" by simp
      moreover from this eq rd p(1) have "loop b block (fst v) (snd v) env t = Some r" by simp
      ultimately obtain h' where "r = Inr (0, h')" "?R b t (fst v) h'"
        using IH [of b block "fst v" "snd v" env t r] p(1) q by auto
      with q show ?thesis by auto
    qed
  qed
  with assms(2,3) show ?thesis by blast
qed

text \<open>The polled loop ends when the status register, read often enough, always shows a ready transmitter.\<close>

definition tx_polls_ready :: "env \<Rightarrow> u32 \<Rightarrow> bool" where
  "tx_polls_ready env b \<longleftrightarrow>
     (\<forall>h. eventually_reads env (IOADDR b UART_STATUS) (\<lambda>v. bits_set v UART_STATUS_TRDY_MSK) h)"

lemma small_write_round_eq:
  "uart_small_write_round b ptr count env h =
    (let v = env h (IOADDR b UART_STATUS); h' = h @ [Rd (IOADDR b UART_STATUS) v] in
     if bits_set v UART_STATUS_TRDY_MSK then
       (case ptr of [] \<Rightarrow> Inl OutOfBounds
        | c # ptr' \<Rightarrow> Inr ((ptr', count - 1), h' @ [Wr (IOADDR b UART_TXDATA) (ucast c)]))
     else Inr ((ptr, count), h'))"
  by (simp add: uart_small_write_round_def bnd_def IORD_def rd_at_def IOWR_def wr_at_def ret_def fail_def Let_def
      split: list.split)

lemma small_write_loop_live:
  assumes "tx_polls_ready env b"
  shows "uart_small_write_loop b block ptr count env h \<noteq> None"
proof (induction ptr arbitrary: count h)
  case Nil
  obtain n where "bits_set (env (polls env (IOADDR b UART_STATUS) n h) (IOADDR b UART_STATUS)) UART_STATUS_TRDY_MSK"
    using assms unfolding tx_polls_ready_def eventually_reads_def by blast
  then show ?case
    by (induction n arbitrary: h; subst uart_small_write_loop.simps) (auto simp: small_write_round_eq Let_def)
next
  case (Cons c ptr)
  obtain n where "bits_set (env (polls env (IOADDR b UART_STATUS) n h) (IOADDR b UART_STATUS)) UART_STATUS_TRDY_MSK"
    using assms unfolding tx_polls_ready_def eventually_reads_def by blast
  then show ?case
    by (induction n arbitrary: h; subst uart_small_write_loop.simps)
      (use Cons.IH in \<open>auto simp: small_write_round_eq Let_def\<close>)
qed

section \<open>Both variants\<close>

lemma uart_write_close_blocking:
  assumes "uart_ok s" "tx_queue s = []" "fl AND O_NONBLOCK = 0"
  shows "wp (bnd (altera_avalon_uart_write data (int (length data)) fl) (\<lambda>_. altera_avalon_uart_close fl)) env
      (\<lambda>v s'. v = 0 \<and> tx_out (sp_base s) (uart_hist s') = tx_out (sp_base s) (uart_hist s) @ data \<and>
         line_kept False s s') (\<lambda>f. f = Hang \<and> \<not> tx_live env s) s"
  unfolding wp_bnd
proof (rule wp_mono [OF wp_uart_write [OF assms(1)]])
  fix r t
  assume t: "0 \<le> r \<and> r \<le> int (length data) \<and> uart_ok t \<and> sp_base t = sp_base s \<and> sp_flags t = sp_flags s \<and>
      tx_stream t = tx_stream s @ take (nat r) data \<and> line_kept False s t \<and> tx_on t \<and>
      (r < int (length data) \<longrightarrow> fl AND O_NONBLOCK \<noteq> 0 \<and> uart_errno t = EWOULDBLOCK)"
  then have r: "r = int (length data)" using assms(3) by auto
  have live: "tx_live env t = tx_live env s" "tx_served t" using t by (simp_all add: tx_live_def tx_served_def)
  show "wp (altera_avalon_uart_close fl) env (\<lambda>v s'. v = 0 \<and>
       tx_out (sp_base s) (uart_hist s') = tx_out (sp_base s) (uart_hist s) @ data \<and> line_kept False s s')
       (\<lambda>f. f = Hang \<and> \<not> tx_live env s) t"
  proof (rule wp_mono [OF wp_uart_close])
    fix v s'
    assume v: "uart_ok s' \<and> line_kept False t s' \<and>
        (v = 0 \<and> tx_out (sp_base t) (uart_hist s') = tx_stream t \<or>
         v = - EWOULDBLOCK \<and> fl AND O_NONBLOCK \<noteq> 0 \<and> tx_queue s' \<noteq> [] \<and> tx_stream s' = tx_stream t)"
    then show "v = 0 \<and> tx_out (sp_base s) (uart_hist s') = tx_out (sp_base s) (uart_hist s) @ data \<and> line_kept False s s'"
      using t r assms(2,3) by (auto simp: tx_stream_def line_kept_def intro: sends_trans)
  qed (use t live in auto)
qed (use assms(3) in auto)

text \<open>
  C26: the two variants of the driver are interchangeable for a writer that blocks and has something to
  write. On a transmitter that serves its interrupt (and a device that ignores CTS), the buffered write
  followed by a close returns, and every byte of the data, in order and once, goes on the line: stored
  while the transmitter was ready, unless the status reported a change of a CTS line without a ready
  transmitter. On a transmitter whose status shows ready sooner or later, the polled write returns and
  puts exactly the data on the line.
\<close>

lemma uart_drivers_agree:
  assumes "uart_ok s" "tx_queue s = []" "data \<noteq> []" "fl AND O_NONBLOCK = 0"
  shows "(bnd (altera_avalon_uart_write data (int (length data)) fl) (\<lambda>_. altera_avalon_uart_close fl) env s = Inl Hang \<and>
        \<not> tx_live env s \<or>
      (\<exists>s'. bnd (altera_avalon_uart_write data (int (length data)) fl) (\<lambda>_. altera_avalon_uart_close fl) env s = Inr (0, s') \<and>
        (line_out (sp_base s) (uart_hist s') = line_out (sp_base s) (uart_hist s) @ data \<or>
         cts_seen (sp_base s) (drop (length (uart_hist s)) (uart_hist s'))))) \<and>
    (uart_small_write b data (int (length data)) fl env' h = Inl Hang \<and> \<not> tx_polls_ready env' b \<or>
      (\<exists>h'. uart_small_write b data (int (length data)) fl env' h = Inr ((int (length data), False), h') \<and>
        line_out b h' = line_out b h @ data))"
proof
  from uart_write_close_blocking [OF assms(1,2,4), of data env]
  show "bnd (altera_avalon_uart_write data (int (length data)) fl) (\<lambda>_. altera_avalon_uart_close fl) env s = Inl Hang \<and>
        \<not> tx_live env s \<or>
      (\<exists>s'. bnd (altera_avalon_uart_write data (int (length data)) fl) (\<lambda>_. altera_avalon_uart_close fl) env s = Inr (0, s') \<and>
        (line_out (sp_base s) (uart_hist s') = line_out (sp_base s) (uart_hist s) @ data \<or>
         cts_seen (sp_base s) (drop (length (uart_hist s)) (uart_hist s'))))"
    by (auto simp: wp_def line_kept_def split: sum.splits dest: sends_line)
  show "uart_small_write b data (int (length data)) fl env' h = Inl Hang \<and> \<not> tx_polls_ready env' b \<or>
      (\<exists>h'. uart_small_write b data (int (length data)) fl env' h = Inr ((int (length data), False), h') \<and>
        line_out b h' = line_out b h @ data)"
  proof (cases "uart_small_write_loop b True data (int (length data)) env' h")
    case None
    with small_write_loop_live [of env' b] have "\<not> tx_polls_ready env' b" by blast
    with None show ?thesis using assms(4) by (simp add: uart_small_write_def bnd_def)
  next
    case (Some r)
    from small_write_loop_result [OF Some] assms(3) obtain h' where "r = Inr (0, h')" "line_out b h' = line_out b h @ data" by auto
    with Some assms(4) show ?thesis by (simp add: uart_small_write_def bnd_def ret_def)
  qed
qed

text \<open>Two bytes over a transmitter that is busy for five accesses after each of them.\<close>

lemma uart_drivers_agree_witness:
  "(\<exists>s'. bnd (altera_avalon_uart_write [1, 2] 2 0) (\<lambda>_. altera_avalon_uart_close 0) (slow_uart 5 UART_BASE)
       ALTERA_AVALON_UART_DEV_INSTANCE = Inr (0, s')) \<and>
   (\<exists>h'. uart_small_write UART_BASE [1, 2] 2 0 (\<lambda>_ _. 0x40) [] = Inr ((2, False), h') \<and> line_out UART_BASE h' = [1, 2])"
proof -
  have "tx_live (slow_uart 5 UART_BASE) ALTERA_AVALON_UART_DEV_INSTANCE"
    using slow_uart_serves [of UART_BASE 5]
    by (simp add: tx_live_def ALTERA_AVALON_UART_DEV_INSTANCE_def UART_USE_CTS_RTS_def UART_FIXED_BAUD_def
        ALT_AVALON_UART_FB_def ALT_AVALON_UART_FC_def IPENDING_def IOADDR_def address_map)
  moreover have "tx_polls_ready (\<lambda>_ _. 0x40) UART_BASE"
    by (auto simp: tx_polls_ready_def UART_STATUS_TRDY_MSK_def intro!: eventually_reads_now)
  ultimately show ?thesis
    using uart_drivers_agree [of ALTERA_AVALON_UART_DEV_INSTANCE "[1, 2]" 0 "slow_uart 5 UART_BASE" UART_BASE "\<lambda>_ _. 0x40" "[]"]
    by (auto simp: line_out_def)
qed

end
