(* ===== verification/Llist.thy ===== *)
theory Llist
  imports Prelude
begin

text \<open>
  The circular doubly linked lists of the HAL, \<^verbatim>\<open>HAL/inc/sys/alt_llist.h\<close>: the pointers of every
  element, the two operations, and the list of elements a head represents.
\<close>

section \<open>Pointers and operations\<close>

type_synonym addr = u32

definition NULL :: addr where "NULL = 0"

text \<open>The fields of every \<open>alt_llist\<close> in memory, by address.\<close>

record llist =
  l_next :: "addr \<Rightarrow> addr"
  l_previous :: "addr \<Rightarrow> addr"

definition set_next :: "addr \<Rightarrow> addr \<Rightarrow> llist \<Rightarrow> llist" where
  "set_next p q m = m\<lparr>l_next := (l_next m)(p := q)\<rparr>"

definition set_previous :: "addr \<Rightarrow> addr \<Rightarrow> llist \<Rightarrow> llist" where
  "set_previous p q m = m\<lparr>l_previous := (l_previous m)(p := q)\<rparr>"

lemma links_simps [simp]:
  "l_next (set_next p q m) = (l_next m)(p := q)" "l_previous (set_next p q m) = l_previous m"
  "l_next (set_previous p q m) = l_next m" "l_previous (set_previous p q m) = (l_previous m)(p := q)"
  by (simp_all add: set_next_def set_previous_def)

text \<open>\<open>ALT_LLIST_HEAD\<close>: an empty list is a head that points to itself.\<close>

definition ALT_LLIST_HEAD :: "addr \<Rightarrow> llist \<Rightarrow> llist" where
  "ALT_LLIST_HEAD head m = set_previous head head (set_next head head m)"

definition alt_llist_insert :: "addr \<Rightarrow> addr \<Rightarrow> llist \<Rightarrow> llist" where
  "alt_llist_insert lst entry m0 =
     (let m1 = set_previous entry lst m0;
          m2 = set_next entry (l_next m1 lst) m1;
          m3 = set_previous (l_next m2 lst) entry m2
      in set_next lst entry m3)"

definition alt_llist_remove :: "addr \<Rightarrow> llist \<Rightarrow> llist" where
  "alt_llist_remove entry m0 =
     (let m1 = set_previous (l_next m0 entry) (l_previous m0 entry) m0;
          m2 = set_next (l_previous m1 entry) (l_next m1 entry) m1;
          m3 = set_previous entry entry m2
      in set_next entry entry m3)"

section \<open>The list a head represents\<close>

fun linked :: "llist \<Rightarrow> addr \<Rightarrow> addr list \<Rightarrow> addr \<Rightarrow> bool" where
  "linked m p [] q \<longleftrightarrow> l_next m p = q \<and> l_previous m q = p"
| "linked m p (x # xs) q \<longleftrightarrow> l_next m p = x \<and> l_previous m x = p \<and> linked m x xs q"

definition llist_of :: "llist \<Rightarrow> addr \<Rightarrow> addr list \<Rightarrow> bool" where
  "llist_of m head xs \<longleftrightarrow> distinct (head # xs) \<and> linked m head xs head"

text \<open>The pointers along the way determine a chain.\<close>

lemma linked_cong:
  "(\<And>a. a \<in> set (p # xs) \<Longrightarrow> l_next m' a = l_next m a) \<Longrightarrow>
   (\<And>a. a \<in> set (xs @ [q]) \<Longrightarrow> l_previous m' a = l_previous m a) \<Longrightarrow> linked m' p xs q = linked m p xs q"
  by (induction xs arbitrary: p) auto

lemma linked_append: "linked m p (xs @ y # ys) q \<longleftrightarrow> linked m p xs y \<and> linked m y ys q"
  by (induction xs arbitrary: p) auto

lemma llist_of_cong:
  assumes "llist_of m head xs"
    and "\<And>a. a \<in> set (head # xs) \<Longrightarrow> l_next m' a = l_next m a" "\<And>a. a \<in> set (head # xs) \<Longrightarrow> l_previous m' a = l_previous m a"
  shows "llist_of m' head xs"
  using assms linked_cong [of head xs m' m head] by (auto simp: llist_of_def)

lemma llist_of_head: "llist_of (ALT_LLIST_HEAD head m) head []"
  by (simp add: llist_of_def ALT_LLIST_HEAD_def)

lemma insert_links:
  "entry \<noteq> lst \<Longrightarrow> l_next (alt_llist_insert lst entry m) = (l_next m)(entry := l_next m lst, lst := entry)"
  "entry \<noteq> lst \<Longrightarrow> l_previous (alt_llist_insert lst entry m) = (l_previous m)(entry := lst, l_next m lst := entry)"
  by (simp_all add: alt_llist_insert_def Let_def)

lemma llist_of_insert:
  assumes "llist_of m head xs" "entry \<notin> set (head # xs)"
  shows "llist_of (alt_llist_insert head entry m) head (entry # xs)"
proof (cases xs)
  case Nil
  with assms show ?thesis by (simp add: llist_of_def insert_links)
next
  case (Cons x ys)
  let ?m = "alt_llist_insert head entry m"
  from assms Cons have m: "l_next m head = x" "linked m x ys head" "distinct (head # x # ys)" "entry \<notin> set (head # x # ys)"
    by (simp_all add: llist_of_def)
  then have "linked ?m x ys head = linked m x ys head"
    by (intro linked_cong) (auto simp: insert_links)
  with m Cons show ?thesis by (auto simp: llist_of_def insert_links)
qed

text \<open>Lists that share no element with the changed one stay what they are.\<close>

lemma llist_of_insert_other:
  assumes "llist_of m head' ys" "llist_of m head xs" "set (head' # ys) \<inter> set (head # xs) = {}" "entry \<notin> set (head' # ys)" "entry \<noteq> head"
  shows "llist_of (alt_llist_insert head entry m) head' ys"
proof -
  have "l_next m head \<in> set (head # xs)" using assms(2) by (cases xs) (auto simp: llist_of_def)
  with assms show ?thesis by (intro llist_of_cong [OF assms(1)]) (auto simp: insert_links)
qed

lemma linked_next_mem: "linked m p xs q \<Longrightarrow> l_next m p \<in> set (xs @ [q])"
  by (cases xs) auto

lemma linked_prev_mem: "linked m p xs q \<Longrightarrow> l_previous m q \<in> set (p # xs)"
  by (induction xs arbitrary: p) auto

text \<open>Removing an element leaves the others in order, and the element linked to itself.\<close>

lemma linked_change_last:
  "linked m p xs q \<Longrightarrow> distinct (p # xs) \<Longrightarrow> q \<notin> set xs \<Longrightarrow> q' \<notin> set xs \<Longrightarrow>
   (\<And>a. a \<in> set (p # xs) \<Longrightarrow> l_next m' a = (if a = l_previous m q then q' else l_next m a)) \<Longrightarrow>
   (\<And>a. a \<in> set xs \<Longrightarrow> l_previous m' a = l_previous m a) \<Longrightarrow> l_previous m' q' = l_previous m q \<Longrightarrow>
   linked m' p xs q'"
proof (induction xs arbitrary: p)
  case (Cons x xs)
  have "l_previous m q \<in> set (x # xs)" using linked_prev_mem [of m x xs q] Cons.prems(1) by simp
  then have "l_previous m q \<noteq> p" using Cons.prems(2) by auto
  with Cons show ?case by auto
qed auto

lemma linked_change_first:
  assumes "linked m p xs q" "p \<notin> set xs" "distinct xs" "p' \<notin> set xs" "q \<notin> set xs"
    and "l_next m' p' = l_next m p" "\<And>a. a \<in> set xs \<Longrightarrow> l_next m' a = l_next m a"
    and "\<And>a. a \<in> set (xs @ [q]) \<Longrightarrow> l_previous m' a = (if a = l_next m p then p' else l_previous m a)"
  shows "linked m' p' xs q"
proof (cases xs)
  case Nil
  with assms show ?thesis by auto
next
  case (Cons x ys)
  from assms Cons have "linked m' x ys q = linked m x ys q" by (intro linked_cong) auto
  with assms Cons show ?thesis by auto
qed

lemma llist_of_remove:
  assumes "llist_of m head (xs @ entry # ys)"
  shows "llist_of (alt_llist_remove entry m) head (xs @ ys)"
    "l_next (alt_llist_remove entry m) entry = entry" "l_previous (alt_llist_remove entry m) entry = entry"
proof -
  let ?m = "alt_llist_remove entry m"
  show "l_next ?m entry = entry" "l_previous ?m entry = entry"
    by (simp_all add: alt_llist_remove_def Let_def)
  have d: "distinct (head # xs @ entry # ys)" and a: "linked m head xs entry" and b: "linked m entry ys head"
    using assms by (auto simp: llist_of_def linked_append)
  let ?n = "l_next m entry" and ?p = "l_previous m entry"
  have n: "?n \<in> set (ys @ [head])" "?p \<in> set (head # xs)"
    using linked_next_mem [OF b] linked_prev_mem [OF a] by auto
  have ne: "?n \<noteq> entry" "?p \<noteq> entry" using n d by auto
  have nx: "l_next ?m = (l_next m)(?p := ?n, entry := entry)"
    and pv: "l_previous ?m = (l_previous m)(?n := ?p, entry := entry)"
    using ne by (auto simp: alt_llist_remove_def Let_def fun_eq_iff)
  have "linked ?m head (xs @ ys) head"
  proof (cases ys)
    case Nil
    with b have "?n = head" by simp
    then have "linked ?m head xs head"
      by (intro linked_change_last [OF a]) (use d n ne in \<open>auto simp: nx pv\<close>)
    with Nil show ?thesis by simp
  next
    case (Cons y zs)
    with b have y: "?n = y" "l_previous m y = entry" "linked m y zs head" by simp_all
    have "linked ?m head xs y"
      by (intro linked_change_last [OF a]) (use d n ne y Cons in \<open>auto simp: nx pv\<close>)
    moreover have "linked ?m y zs head = linked m y zs head"
      by (intro linked_cong) (use d n ne y Cons in \<open>auto simp: nx pv\<close>)
    ultimately show ?thesis using y(3) Cons by (simp add: linked_append)
  qed
  with d show "llist_of ?m head (xs @ ys)" by (auto simp: llist_of_def)
qed

section \<open>Searching\<close>

text \<open>
  The traversal of the search functions: from \<open>ptr\<close> until the head comes round again. \<open>None\<close> is a
  search that never ends.
\<close>

partial_function (option) llist_search :: "(addr \<Rightarrow> bool) \<Rightarrow> addr \<Rightarrow> addr \<Rightarrow> llist \<Rightarrow> addr option" where
  "llist_search p head ptr m =
     (if ptr = head then Some NULL
      else if p ptr then Some ptr
      else llist_search p head (l_next m ptr) m)"

text \<open>On a well-formed list it ends, with the first element that satisfies the test.\<close>

lemma llist_search_from:
  assumes "linked m q xs head" "head \<notin> set xs"
  shows "llist_search p head (l_next m q) m = Some (case find p xs of None \<Rightarrow> NULL | Some a \<Rightarrow> a)"
  using assms
proof (induction xs arbitrary: q)
  case Nil
  then show ?case by (subst llist_search.simps) simp
next
  case (Cons x xs)
  then show ?case by (subst llist_search.simps) auto
qed

lemma llist_search_find:
  "llist_of m head xs \<Longrightarrow>
   llist_search p head (l_next m head) m = Some (case find p xs of None \<Rightarrow> NULL | Some a \<Rightarrow> a)"
  by (rule llist_search_from) (auto simp: llist_of_def)

end
