(* ===== verification/Fd_Table.thy ===== *)
theory Fd_Table
  imports Llist
begin

text \<open>
  The HAL's file descriptors: the pool of descriptors, the lists of registered devices and
  filesystems, and the system calls that vector to the callbacks of a device, \<^verbatim>\<open>HAL/src/alt_open.c\<close>,
  \<^verbatim>\<open>alt_close.c\<close>, \<^verbatim>\<open>alt_read.c\<close>, \<^verbatim>\<open>alt_write.c\<close>, \<^verbatim>\<open>alt_ioctl.c\<close>, \<^verbatim>\<open>alt_fcntl.c\<close>, \<^verbatim>\<open>alt_lseek.c\<close>,
  \<^verbatim>\<open>alt_fstat.c\<close>, \<^verbatim>\<open>alt_isatty.c\<close>, \<^verbatim>\<open>alt_stat.c\<close>, \<^verbatim>\<open>alt_get_fd.c\<close>, \<^verbatim>\<open>alt_release_fd.c\<close>, \<^verbatim>\<open>alt_find_dev.c\<close>,
  \<^verbatim>\<open>alt_find_file.c\<close>, \<^verbatim>\<open>alt_fd_lock.c\<close>, \<^verbatim>\<open>alt_fd_unlock.c\<close>, \<^verbatim>\<open>alt_dev.c\<close>, \<^verbatim>\<open>alt_fs_reg.c\<close>,
  \<^verbatim>\<open>alt_dev_llist_insert.c\<close> and \<^verbatim>\<open>alt_io_redirect.c\<close>. A pointer to a device is the address of its
  structure, which is also the address of its list element. Using an entry past the end of the pool,
  or the device of a free descriptor, is out of bounds. The semaphore around the pool is empty in
  the single-threaded environment.
\<close>

section \<open>Data\<close>

definition ALT_MAX_FD :: nat where "ALT_MAX_FD = 32"

definition ALT_FD_EXCL :: u32 where "ALT_FD_EXCL = 0x80000000"
definition ALT_FD_DEV :: u32 where "ALT_FD_DEV = 0x40000000"
definition ALT_FD_FLAGS_MASK :: u32 where "ALT_FD_FLAGS_MASK = ALT_FD_EXCL OR ALT_FD_DEV"
definition TIOCEXCL :: u32 where "TIOCEXCL = 0x740d"
definition TIOCNXCL :: u32 where "TIOCNXCL = 0x740e"

text \<open>Flags, commands and error numbers of the C library.\<close>

definition O_RDONLY :: u32 where "O_RDONLY = 0"
definition O_WRONLY :: u32 where "O_WRONLY = 1"
definition O_ACCMODE :: u32 where "O_ACCMODE = 3"
definition ALT_FCNTL_FLAGS_MASK :: u32 where "ALT_FCNTL_FLAGS_MASK = 0x8 OR 0x4000"
definition F_GETFL :: int where "F_GETFL = 3"
definition F_SETFL :: int where "F_SETFL = 4"
definition IFCHR :: u32 where "IFCHR = 0x2000"
definition EACCES :: int where "EACCES = 13"
definition ENODEV :: int where "ENODEV = 19"
definition EINVAL :: int where "EINVAL = 22"
definition EMFILE :: int where "EMFILE = 24"
definition DEV_ENOTTY :: int where "DEV_ENOTTY = 25"
definition EBADFD :: int where "EBADFD = 81"
definition ENOTSUP :: int where "ENOTSUP = 134"

lemmas fd_errors = EACCES_def ENODEV_def EINVAL_def EMFILE_def DEV_ENOTTY_def EBADFD_def ENOTSUP_def
lemmas fd_masks = ALT_FD_EXCL_def ALT_FD_DEV_def ALT_FD_FLAGS_MASK_def O_RDONLY_def O_WRONLY_def O_ACCMODE_def
  ALT_FCNTL_FLAGS_MASK_def TIOCEXCL_def TIOCNXCL_def

record alt_fd =
  fd_dev :: addr
  fd_priv :: u32
  fd_flags :: u32

text \<open>
  The callbacks of a device run on the drivers' state \<open>'w\<close>; beside its result each returns what it
  leaves in the descriptor's \<open>priv\<close>. \<open>None\<close> is a null pointer.
\<close>

record 'w alt_dev =
  dev_name :: "string option"
  dev_open :: "(alt_fd \<Rightarrow> string \<Rightarrow> u32 \<Rightarrow> u32 \<Rightarrow> ('w, int \<times> u32) prog) option"
  dev_close :: "(alt_fd \<Rightarrow> ('w, int \<times> u32) prog) option"
  dev_read :: "(alt_fd \<Rightarrow> int \<Rightarrow> ('w, (int \<times> u8 list) \<times> u32) prog) option"
  dev_write :: "(alt_fd \<Rightarrow> u8 list \<Rightarrow> int \<Rightarrow> ('w, int \<times> u32) prog) option"
  dev_lseek :: "(alt_fd \<Rightarrow> int \<Rightarrow> int \<Rightarrow> ('w, int \<times> u32) prog) option"
  dev_fstat :: "(alt_fd \<Rightarrow> ('w, (int \<times> u32) \<times> u32) prog) option"
  dev_ioctl :: "(alt_fd \<Rightarrow> u32 \<Rightarrow> u32 \<Rightarrow> ('w, int \<times> u32) prog) option"

record 'w hal =
  alt_fd_list :: "alt_fd list"
  alt_max_fd :: int
  hal_links :: llist
  alt_devs :: "addr \<Rightarrow> 'w alt_dev"
  hal_errno :: int
  drivers :: 'w

text \<open>The addresses of the list heads and of the null device; any different ones would do.\<close>

definition ALT_DEV_LIST :: addr where "ALT_DEV_LIST = 0x8000"
definition ALT_FS_LIST :: addr where "ALT_FS_LIST = 0x8008"
definition ALT_DEV_NULL :: addr where "ALT_DEV_NULL = 0x8010"

lemmas fd_addresses = ALT_DEV_LIST_def ALT_FS_LIST_def ALT_DEV_NULL_def NULL_def

text \<open>\<open>alt_dev_null\<close> discards everything written to it.\<close>

definition alt_dev_null_write :: "alt_fd \<Rightarrow> u8 list \<Rightarrow> int \<Rightarrow> ('w, int \<times> u32) prog" where
  "alt_dev_null_write fd ptr len = ret (len, fd_priv fd)"

definition alt_dev_null :: "'w alt_dev" where
  "alt_dev_null = \<lparr>dev_name = Some ''/dev/null'', dev_open = None, dev_close = None, dev_read = None,
     dev_write = Some alt_dev_null_write, dev_lseek = None, dev_fstat = None, dev_ioctl = None\<rparr>"

text \<open>The initial values of \<^verbatim>\<open>alt_dev.c\<close>.\<close>

definition free_fd :: alt_fd where "free_fd = \<lparr>fd_dev = NULL, fd_priv = 0, fd_flags = 0\<rparr>"

definition alt_fd_list_init :: "alt_fd list" where
  "alt_fd_list_init = replicate 3 \<lparr>fd_dev = ALT_DEV_NULL, fd_priv = 0, fd_flags = 0\<rparr> @ replicate (ALT_MAX_FD - 3) free_fd"

definition alt_dev_links :: llist where
  "alt_dev_links = alt_llist_insert ALT_DEV_LIST ALT_DEV_NULL
     (ALT_LLIST_HEAD ALT_DEV_LIST (ALT_LLIST_HEAD ALT_FS_LIST \<lparr>l_next = \<lambda>_. NULL, l_previous = \<lambda>_. NULL\<rparr>))"

definition hal_boot :: "(addr \<Rightarrow> 'w alt_dev) \<Rightarrow> 'w \<Rightarrow> 'w hal" where
  "hal_boot devs w =
     \<lparr>alt_fd_list = alt_fd_list_init, alt_max_fd = -1, hal_links = alt_dev_links,
      alt_devs = devs(ALT_DEV_NULL := alt_dev_null), hal_errno = 0, drivers = w\<rparr>"

section \<open>Access to the pool\<close>

definition set_errno :: "int \<Rightarrow> ('w hal, unit) prog" where
  "set_errno e = modify (\<lambda>s. s\<lparr>hal_errno := e\<rparr>)"

definition update_fd :: "nat \<Rightarrow> (alt_fd \<Rightarrow> alt_fd) \<Rightarrow> ('w hal, unit) prog" where
  "update_fd i f = modify (\<lambda>s. s\<lparr>alt_fd_list := (alt_fd_list s)[i := f (alt_fd_list s ! i)]\<rparr>)"

text \<open>\<open>&alt_fd_list[file]\<close>, for use: the index, when it is one of the pool.\<close>

definition fd_index :: "int \<Rightarrow> ('w hal, nat) prog" where
  "fd_index file = bnd (gets (\<lambda>s. length (alt_fd_list s))) (\<lambda>n.
     if nat file < n then ret (nat file) else fail OutOfBounds)"

definition fd_device :: "nat \<Rightarrow> ('w hal, 'w alt_dev) prog" where
  "fd_device i =
     bnd (gets (\<lambda>s. fd_dev (alt_fd_list s ! i))) (\<lambda>d.
     if d = NULL then fail OutOfBounds else gets (\<lambda>s. alt_devs s d))"

definition callback :: "nat \<Rightarrow> (alt_fd \<Rightarrow> ('w, 'a \<times> u32) prog) \<Rightarrow> ('w hal, 'a) prog" where
  "callback i f = (\<lambda>env s. case f (alt_fd_list s ! i) env (drivers s) of
     Inl x \<Rightarrow> Inl x
   | Inr ((a, p), w) \<Rightarrow>
       Inr (a, s\<lparr>drivers := w, alt_fd_list := (alt_fd_list s)[i := (alt_fd_list s ! i)\<lparr>fd_priv := p\<rparr>]\<rparr>))"

text \<open>A call that failed: the error number is recorded and -1 returned.\<close>

definition errno_return :: "int \<Rightarrow> ('w hal, int) prog" where
  "errno_return e = bnd (set_errno e) (\<lambda>_. ret (-1))"

definition errno_check :: "int \<Rightarrow> ('w hal, int) prog" where
  "errno_check rval = (if rval < 0 then errno_return (- rval) else ret rval)"

section \<open>Registration and lookup\<close>

definition alt_dev_llist_insert :: "addr \<Rightarrow> addr \<Rightarrow> ('w hal, int) prog" where
  "alt_dev_llist_insert dev lst =
     bnd (gets (\<lambda>s. dev = NULL \<or> dev_name (alt_devs s dev) = None)) (\<lambda>bad.
     if bad then bnd (set_errno EINVAL) (\<lambda>_. ret (- EINVAL))
     else bnd (modify (\<lambda>s. s\<lparr>hal_links := alt_llist_insert lst dev (hal_links s)\<rparr>)) (\<lambda>_. ret 0))"

definition alt_dev_reg :: "addr \<Rightarrow> ('w hal, int) prog" where
  "alt_dev_reg dev = alt_dev_llist_insert dev ALT_DEV_LIST"

definition alt_fs_reg :: "addr \<Rightarrow> ('w hal, int) prog" where
  "alt_fs_reg dev =
     bnd (gets (\<lambda>s. dev_name (alt_devs s dev) = None)) (\<lambda>bad.
     if bad then ret (- ENODEV)
     else bnd (modify (\<lambda>s. s\<lparr>hal_links := alt_llist_insert ALT_FS_LIST dev (hal_links s)\<rparr>)) (\<lambda>_. ret 0))"

definition alt_find_dev :: "string \<Rightarrow> addr \<Rightarrow> ('w hal, addr) prog" where
  "alt_find_dev name lst = (\<lambda>env s.
     case llist_search (\<lambda>p. dev_name (alt_devs s p) = Some name) lst (l_next (hal_links s) lst) (hal_links s) of
       None \<Rightarrow> Inl Hang | Some p \<Rightarrow> Inr (p, s))"

text \<open>
  The test of \<open>alt_find_file\<close>: the filesystem's name, without a final slash, is a prefix of the file
  name that ends there or before a slash. The byte \<open>name[len]\<close> is looked at first: \<open>None\<close> when it
  lies behind the end of the file name.
\<close>

definition fs_matches :: "string \<Rightarrow> string \<Rightarrow> bool option" where
  "fs_matches fs name =
     (if fs = [] then None
      else let len = length fs - (if last fs = CHR 0x2F then 1 else 0) in
        if length name < len then None
        else Some ((len = length name \<or> name ! len = CHR 0x2F) \<and> take len name = take len fs))"

partial_function (option) alt_find_file_loop ::
    "string \<Rightarrow> (addr \<Rightarrow> string) \<Rightarrow> addr \<Rightarrow> llist \<Rightarrow> addr option option" where
  "alt_find_file_loop name names ptr m =
     (if ptr = ALT_FS_LIST then Some (Some NULL)
      else case fs_matches (names ptr) name of
        None \<Rightarrow> Some None
      | Some found \<Rightarrow>
          if found then Some (Some ptr) else alt_find_file_loop name names (l_next m ptr) m)"

definition alt_find_file :: "string \<Rightarrow> ('w hal, addr) prog" where
  "alt_find_file name = (\<lambda>env s.
     case alt_find_file_loop name (\<lambda>p. case dev_name (alt_devs s p) of None \<Rightarrow> [] | Some n \<Rightarrow> n)
            (l_next (hal_links s) ALT_FS_LIST) (hal_links s) of
       None \<Rightarrow> Inl Hang | Some None \<Rightarrow> Inl OutOfBounds | Some (Some p) \<Rightarrow> Inr (p, s))"

section \<open>Allocation and locking\<close>

definition alt_get_fd :: "addr \<Rightarrow> ('w hal, int) prog" where
  "alt_get_fd dev =
     bnd (gets (\<lambda>s. find (\<lambda>i. fd_dev (alt_fd_list s ! i) = NULL) [0..<ALT_MAX_FD])) (\<lambda>free.
     case free of
       None \<Rightarrow> ret (- EMFILE)
     | Some i \<Rightarrow>
         bnd (update_fd i (\<lambda>fd. fd\<lparr>fd_dev := dev\<rparr>)) (\<lambda>_.
         bnd (modify (\<lambda>s. s\<lparr>alt_max_fd := max (int i) (alt_max_fd s)\<rparr>)) (\<lambda>_.
         ret (int i))))"

text \<open>Standard in, out and error are never released.\<close>

definition alt_release_fd :: "int \<Rightarrow> ('w hal, unit) prog" where
  "alt_release_fd file =
     (if file > 2 then
        bnd (fd_index file) (\<lambda>i. update_fd i (\<lambda>fd. fd\<lparr>fd_flags := 0, fd_dev := NULL\<rparr>))
      else ret ())"

text \<open>
  The unsigned comparison of the loop makes a negative \<open>alt_max_fd\<close> run off the pool.
\<close>

definition alt_file_locked :: "nat \<Rightarrow> ('w hal, int) prog" where
  "alt_file_locked i =
     bnd (update_fd i (\<lambda>fd. fd\<lparr>fd_flags := fd_flags fd OR ALT_FD_DEV\<rparr>)) (\<lambda>_.
     bnd (gets (\<lambda>s. 0 \<le> alt_max_fd s \<and> nat (alt_max_fd s) < length (alt_fd_list s))) (\<lambda>inside.
     if \<not> inside then fail OutOfBounds
     else
       bnd (gets (\<lambda>s. \<exists>j \<in> set [0..<nat (alt_max_fd s) + 1].
              fd_dev (alt_fd_list s ! j) = fd_dev (alt_fd_list s ! i) \<and>
              fd_flags (alt_fd_list s ! j) AND ALT_FD_EXCL \<noteq> 0 \<and> j \<noteq> i)) (\<lambda>locked.
       ret (if locked then - EACCES else 0))))"

definition alt_fd_lock :: "nat \<Rightarrow> ('w hal, int) prog" where
  "alt_fd_lock i =
     bnd (gets (\<lambda>s. nat (alt_max_fd s) \<le> length (alt_fd_list s))) (\<lambda>inside.
     if \<not> inside then fail OutOfBounds
     else
       bnd (gets (\<lambda>s. \<exists>j \<in> set [0..<nat (alt_max_fd s)].
              j \<noteq> i \<and> fd_dev (alt_fd_list s ! j) = fd_dev (alt_fd_list s ! i))) (\<lambda>shared.
       if shared then ret (- EACCES)
       else bnd (update_fd i (\<lambda>fd. fd\<lparr>fd_flags := fd_flags fd OR ALT_FD_EXCL\<rparr>)) (\<lambda>_. ret 0)))"

definition alt_fd_unlock :: "nat \<Rightarrow> ('w hal, int) prog" where
  "alt_fd_unlock i = bnd (update_fd i (\<lambda>fd. fd\<lparr>fd_flags := fd_flags fd AND NOT ALT_FD_EXCL\<rparr>)) (\<lambda>_. ret 0)"

section \<open>The system calls\<close>

text \<open>The descriptor's index and the status of the device's \<open>open\<close>.\<close>

definition alt_open_dev :: "addr \<Rightarrow> bool \<Rightarrow> string \<Rightarrow> u32 \<Rightarrow> u32 \<Rightarrow> ('w hal, int \<times> int) prog" where
  "alt_open_dev dev isafs file fl mode =
     bnd (alt_get_fd dev) (\<lambda>index.
     if index < 0 then ret (index, index)
     else
       let i = nat index in
       bnd (update_fd i (\<lambda>fd. fd\<lparr>fd_flags := fl AND NOT ALT_FD_FLAGS_MASK\<rparr>)) (\<lambda>_.
       bnd (if isafs then ret 0 else alt_file_locked i) (\<lambda>status.
       if status \<ge> 0 then
         bnd (gets (\<lambda>s. dev_open (alt_devs s dev))) (\<lambda>op.
         case op of
           None \<Rightarrow> ret (index, 0)
         | Some f \<Rightarrow> bnd (callback i (\<lambda>fd. f fd file fl mode)) (\<lambda>st. ret (index, st)))
       else ret (index, status))))"

definition ALT_OPEN :: "string \<Rightarrow> u32 \<Rightarrow> u32 \<Rightarrow> ('w hal, int) prog" where
  "ALT_OPEN file fl mode =
     bnd (alt_find_dev file ALT_DEV_LIST) (\<lambda>d.
     bnd (if d = NULL then bnd (alt_find_file file) (\<lambda>f. ret (f, True)) else ret (d, False)) (\<lambda>r.
     bnd (if fst r = NULL then ret (-1, - ENODEV) else alt_open_dev (fst r) (snd r) file fl mode) (\<lambda>r'.
     if snd r' < 0 then bnd (alt_release_fd (fst r')) (\<lambda>_. errno_return (- snd r'))
     else ret (fst r'))))"

definition ALT_CLOSE :: "int \<Rightarrow> ('w hal, int) prog" where
  "ALT_CLOSE fildes =
     (if fildes < 0 then errno_return EBADFD
      else
        bnd (fd_index fildes) (\<lambda>i.
        bnd (fd_device i) (\<lambda>d.
        bnd (case dev_close d of None \<Rightarrow> ret 0 | Some f \<Rightarrow> callback i f) (\<lambda>rval.
        bnd (alt_release_fd fildes) (\<lambda>_.
        if rval < 0 then errno_return (- rval) else ret 0)))))"

definition ALT_READ :: "int \<Rightarrow> int \<Rightarrow> ('w hal, int \<times> u8 list) prog" where
  "ALT_READ file len =
     (if file < 0 then bnd (errno_return EBADFD) (\<lambda>r. ret (r, []))
      else
        bnd (fd_index file) (\<lambda>i.
        bnd (gets (\<lambda>s. fd_flags (alt_fd_list s ! i))) (\<lambda>fl.
        if fl AND O_ACCMODE \<noteq> O_WRONLY then
          bnd (fd_device i) (\<lambda>d.
          case dev_read d of
            None \<Rightarrow> bnd (errno_return EACCES) (\<lambda>r. ret (r, []))
          | Some f \<Rightarrow>
              bnd (callback i (\<lambda>fd. f fd len)) (\<lambda>v.
              bnd (errno_check (fst v)) (\<lambda>r. ret (r, snd v))))
        else bnd (errno_return EACCES) (\<lambda>r. ret (r, [])))))"

definition ALT_WRITE :: "int \<Rightarrow> u8 list \<Rightarrow> int \<Rightarrow> ('w hal, int) prog" where
  "ALT_WRITE file ptr len =
     (if file < 0 then errno_return EBADFD
      else
        bnd (fd_index file) (\<lambda>i.
        bnd (gets (\<lambda>s. fd_flags (alt_fd_list s ! i))) (\<lambda>fl.
        if fl AND O_ACCMODE \<noteq> O_RDONLY then
          bnd (fd_device i) (\<lambda>d.
          case dev_write d of
            None \<Rightarrow> errno_return EACCES
          | Some f \<Rightarrow> bnd (callback i (\<lambda>fd. f fd ptr len)) errno_check)
        else errno_return EACCES)))"

definition ALT_LSEEK :: "int \<Rightarrow> int \<Rightarrow> int \<Rightarrow> ('w hal, int) prog" where
  "ALT_LSEEK file ptr dir =
     bnd (if file < 0 then ret (- EBADFD)
          else
            bnd (fd_index file) (\<lambda>i.
            bnd (fd_device i) (\<lambda>d.
            case dev_lseek d of None \<Rightarrow> ret (- ENOTSUP) | Some f \<Rightarrow> callback i (\<lambda>fd. f fd ptr dir)))) errno_check"

text \<open>\<open>fstat\<close> returns its result and the mode it stored, if it stored one.\<close>

definition ALT_FSTAT :: "int \<Rightarrow> ('w hal, int \<times> u32 option) prog" where
  "ALT_FSTAT file =
     (if file < 0 then bnd (errno_return EBADFD) (\<lambda>r. ret (r, None))
      else
        bnd (fd_index file) (\<lambda>i.
        bnd (fd_device i) (\<lambda>d.
        case dev_fstat d of
          None \<Rightarrow> ret (0, Some IFCHR)
        | Some f \<Rightarrow> bnd (callback i f) (\<lambda>v. ret (fst v, Some (snd v))))))"

definition ALT_ISATTY :: "int \<Rightarrow> ('w hal, int) prog" where
  "ALT_ISATTY file =
     (if file < 0 then bnd (set_errno EBADFD) (\<lambda>_. ret 0)
      else
        bnd (fd_index file) (\<lambda>i.
        bnd (fd_device i) (\<lambda>d.
        case dev_fstat d of
          None \<Rightarrow> ret 1
        | Some _ \<Rightarrow> bnd (ALT_FSTAT file) (\<lambda>v. ret (if snd v = Some IFCHR then 1 else 0)))))"

definition ALT_STAT :: "string \<Rightarrow> ('w hal, int \<times> u32 option) prog" where
  "ALT_STAT file =
     bnd (ALT_OPEN file 0 0) (\<lambda>fd.
     bnd (ALT_FSTAT fd) (\<lambda>rc.
     bnd (ALT_CLOSE fd) (\<lambda>_. ret rc)))"

definition ALT_IOCTL :: "int \<Rightarrow> u32 \<Rightarrow> u32 \<Rightarrow> ('w hal, int) prog" where
  "ALT_IOCTL file req arg =
     bnd (if file < 0 then ret (- EBADFD)
          else
            bnd (fd_index file) (\<lambda>i.
            bnd (gets (\<lambda>s. fd_flags (alt_fd_list s ! i) AND ALT_FD_DEV \<noteq> 0)) (\<lambda>isdev.
            if isdev \<and> req = TIOCEXCL then alt_fd_lock i
            else if isdev \<and> req = TIOCNXCL then alt_fd_unlock i
            else
              bnd (fd_device i) (\<lambda>d.
              case dev_ioctl d of None \<Rightarrow> ret (- DEV_ENOTTY) | Some f \<Rightarrow> callback i (\<lambda>fd. f fd req arg))))) (\<lambda>rc.
     if rc < 0 then bnd (set_errno (- rc)) (\<lambda>_. ret rc) else ret rc)"

definition ALT_FCNTL :: "int \<Rightarrow> int \<Rightarrow> u32 \<Rightarrow> ('w hal, int) prog" where
  "ALT_FCNTL file cmd arg =
     (if file < 0 then errno_return EBADFD
      else
        bnd (fd_index file) (\<lambda>i.
        if cmd = F_GETFL then gets (\<lambda>s. int (unat (fd_flags (alt_fd_list s ! i) AND NOT ALT_FD_FLAGS_MASK)))
        else if cmd = F_SETFL then
          bnd (update_fd i (\<lambda>fd. fd\<lparr>fd_flags :=
                 (fd_flags fd AND NOT ALT_FCNTL_FLAGS_MASK) OR (arg AND ALT_FCNTL_FLAGS_MASK)\<rparr>)) (\<lambda>_. ret 0)
        else errno_return EINVAL))"

section \<open>Redirection of the standard streams\<close>

definition alt_open_fd :: "nat \<Rightarrow> string \<Rightarrow> u32 \<Rightarrow> u32 \<Rightarrow> ('w hal, unit) prog" where
  "alt_open_fd i name fl mode =
     bnd (ALT_OPEN name fl mode) (\<lambda>old.
     if old \<ge> 0 then
       bnd (gets (\<lambda>s. alt_fd_list s ! nat old)) (\<lambda>fd. seqs
         [update_fd i (\<lambda>_. fd), alt_release_fd old])
     else ret ())"

definition alt_io_redirect :: "string \<Rightarrow> string \<Rightarrow> string \<Rightarrow> ('w hal, unit) prog" where
  "alt_io_redirect stdout_dev stdin_dev stderr_dev = seqs
     [alt_open_fd 1 stdout_dev O_WRONLY 0x1FF,
      alt_open_fd 0 stdin_dev O_RDONLY 0x1FF,
      alt_open_fd 2 stderr_dev O_WRONLY 0x1FF]"

end
