(* ===== verification/Fd_Pool.thy ===== *)
theory Fd_Pool
  imports Fd_Table
begin

text \<open>
  The pool of descriptors under the system calls: which descriptors are taken and the high-water
  mark, the invariant the calls keep whatever the devices' callbacks do, and the states a program can
  reach by them.
\<close>

named_theorems keeps_intros \<open>programs that leave the pool's allocation alone\<close>

section \<open>The allocation\<close>

definition taken :: "'w hal \<Rightarrow> addr list" where
  "taken s = map fd_dev (alt_fd_list s)"

definition pool_ok :: "'w hal \<Rightarrow> bool" where
  "pool_ok s \<longleftrightarrow> length (taken s) = ALT_MAX_FD \<and> (\<forall>i < 3. taken s ! i \<noteq> NULL) \<and>
     -1 \<le> alt_max_fd s \<and> alt_max_fd s < int ALT_MAX_FD \<and>
     (\<forall>i < ALT_MAX_FD. 3 \<le> i \<longrightarrow> taken s ! i \<noteq> NULL \<longrightarrow> int i \<le> alt_max_fd s)"

definition same_pool :: "'w hal \<Rightarrow> 'w hal \<Rightarrow> bool" where
  "same_pool s s' \<longleftrightarrow> taken s' = taken s \<and> alt_max_fd s' = alt_max_fd s"

lemma same_pool_refl [simp]: "same_pool s s"
  by (simp add: same_pool_def)

lemma same_pool_trans: "same_pool s t \<Longrightarrow> same_pool t u \<Longrightarrow> same_pool s u"
  by (simp add: same_pool_def)

lemma same_pool_ok: "same_pool s t \<Longrightarrow> pool_ok t \<longleftrightarrow> pool_ok s"
  by (simp add: same_pool_def pool_ok_def)

lemma length_taken: "length (alt_fd_list s) = length (taken s)"
  by (simp add: taken_def)

lemma taken_nth: "i < length (alt_fd_list s) \<Longrightarrow> fd_dev (alt_fd_list s ! i) = taken s ! i"
  by (simp add: taken_def)

lemma same_pool_update:
  "(\<And>fd. fd_dev (f fd) = fd_dev fd) \<Longrightarrow>
   same_pool s (s\<lparr>alt_fd_list := (alt_fd_list s)[i := f (alt_fd_list s ! i)]\<rparr>)"
  by (cases "i < length (alt_fd_list s)")
    (auto simp: same_pool_def taken_def map_update list_update_same_conv list_update_beyond)

text \<open>A program keeps the allocation, whenever it returns.\<close>

definition keeps_pool :: "('w hal, 'a) prog \<Rightarrow> bool" where
  "keeps_pool m \<longleftrightarrow> (\<forall>env s. wp m env (\<lambda>_. same_pool s) (\<lambda>_. True) s)"

lemma keeps_poolI: "(\<And>env s. wp m env (\<lambda>_. same_pool s) (\<lambda>_. True) s) \<Longrightarrow> keeps_pool m"
  by (simp add: keeps_pool_def)

lemma wp_keeps_pool:
  "keeps_pool m \<Longrightarrow> (\<And>a s'. same_pool s s' \<Longrightarrow> Q a s') \<Longrightarrow> (\<And>f. F f) \<Longrightarrow> wp m env Q F s"
  unfolding keeps_pool_def by (blast intro: wp_mono)

lemma keeps_ret [keeps_intros]: "keeps_pool (ret a)"
  and keeps_fail [keeps_intros]: "keeps_pool (fail f)"
  and keeps_gets [keeps_intros]: "keeps_pool (gets g)"
  and keeps_errno [keeps_intros]: "keeps_pool (set_errno e)"
  by (auto intro!: keeps_poolI simp: wp_simps set_errno_def same_pool_def taken_def)

lemma keeps_bnd [keeps_intros]:
  assumes "keeps_pool m" "\<And>a. keeps_pool (k a)"
  shows "keeps_pool (bnd m k)"
proof (rule keeps_poolI, goal_cases)
  case (1 env s)
  show ?case
    unfolding wp_bnd
    by (rule wp_keeps_pool [OF assms(1)], rule wp_keeps_pool [OF assms(2)]) (auto intro: same_pool_trans)
qed

lemma keeps_if [keeps_intros]: "keeps_pool m \<Longrightarrow> keeps_pool m' \<Longrightarrow> keeps_pool (if c then m else m')"
  by simp

lemma keeps_option [keeps_intros]:
  "keeps_pool m \<Longrightarrow> (\<And>a. keeps_pool (k a)) \<Longrightarrow> keeps_pool (case v of None \<Rightarrow> m | Some a \<Rightarrow> k a)"
  by (cases v) auto

lemma keeps_update [keeps_intros]: "(\<And>fd. fd_dev (f fd) = fd_dev fd) \<Longrightarrow> keeps_pool (update_fd i f)"
  by (rule keeps_poolI) (simp add: update_fd_def wp_simps same_pool_update)

lemma keeps_callback [keeps_intros]: "keeps_pool (callback i f)"
proof (rule keeps_poolI)
  fix env and s :: "'a hal"
  have "same_pool s (s\<lparr>drivers := w, alt_fd_list := (alt_fd_list s)[i := (alt_fd_list s ! i)\<lparr>fd_priv := p\<rparr>]\<rparr>)" for w p
    using same_pool_update [of "\<lambda>fd. fd\<lparr>fd_priv := p\<rparr>" s i] by (simp add: same_pool_def taken_def)
  then show "wp (callback i f) env (\<lambda>_. same_pool s) (\<lambda>_. True) s"
    by (auto simp: wp_def callback_def split: sum.splits)
qed

lemma keeps_helpers [keeps_intros]:
  "keeps_pool (fd_index file)" "keeps_pool (fd_device i)" "keeps_pool (errno_return e)" "keeps_pool (errno_check v)"
  "keeps_pool (alt_find_dev n l)" "keeps_pool (alt_find_file n)" "keeps_pool (alt_file_locked i)"
  "keeps_pool (alt_fd_lock i)" "keeps_pool (alt_fd_unlock i)"
proof -
  show "keeps_pool (alt_find_dev n l)"
    by (rule keeps_poolI) (simp add: wp_def alt_find_dev_def split: option.split)
  show "keeps_pool (alt_find_file n)"
    by (rule keeps_poolI) (simp add: wp_def alt_find_file_def split: option.split)
qed (auto simp: fd_index_def fd_device_def errno_return_def errno_check_def alt_file_locked_def alt_fd_lock_def
    alt_fd_unlock_def intro!: keeps_intros)

text \<open>All system calls but open and close.\<close>

lemma keeps_calls [keeps_intros]:
  "keeps_pool (ALT_READ file len)" "keeps_pool (ALT_WRITE file bs len)" "keeps_pool (ALT_LSEEK file p d)"
  "keeps_pool (ALT_FSTAT file)" "keeps_pool (ALT_ISATTY file)" "keeps_pool (ALT_IOCTL file req arg)"
  "keeps_pool (ALT_FCNTL file cmd arg')"
  unfolding ALT_READ_def ALT_WRITE_def ALT_LSEEK_def ALT_FSTAT_def ALT_ISATTY_def ALT_IOCTL_def ALT_FCNTL_def
  by (intro keeps_intros; simp)+

section \<open>Allocating and releasing\<close>

lemma wp_errno [wp_simps]:
  "wp (set_errno e) env U F s = U () (s\<lparr>hal_errno := e\<rparr>)"
  "wp (errno_return e) env Q F s = Q (-1) (s\<lparr>hal_errno := e\<rparr>)"
  by (simp_all add: errno_return_def set_errno_def wp_simps)

lemma pool_errno [simp]:
  "taken (s\<lparr>hal_errno := e\<rparr>) = taken s" "pool_ok (s\<lparr>hal_errno := e\<rparr>) = pool_ok s"
  by (simp_all add: taken_def pool_ok_def)

lemma find_free:
  "find (\<lambda>i. fd_dev (alt_fd_list s ! i) = NULL) [0..<ALT_MAX_FD] = Some i \<Longrightarrow> pool_ok s \<Longrightarrow>
   3 \<le> i \<and> i < ALT_MAX_FD \<and> taken s ! i = NULL \<and> (\<forall>j < i. taken s ! j \<noteq> NULL)"
  by (auto simp: find_Some_iff pool_ok_def taken_nth length_taken) (meson not_less)

lemma find_full:
  "find (\<lambda>i. fd_dev (alt_fd_list s ! i) = NULL) [0..<ALT_MAX_FD] = None \<Longrightarrow> pool_ok s \<Longrightarrow> NULL \<notin> set (taken s)"
  by (auto simp: find_None_iff pool_ok_def taken_nth length_taken in_set_conv_nth)

lemma pool_ok_take:
  assumes "pool_ok s" "3 \<le> i" "i < ALT_MAX_FD" "taken t = (taken s)[i := d]" "d \<noteq> NULL"
    "alt_max_fd t = max (int i) (alt_max_fd s)"
  shows "pool_ok t"
  using assms by (auto simp: pool_ok_def nth_list_update)

lemma wp_alt_get_fd:
  assumes "pool_ok s" "dev \<noteq> NULL"
    and "\<And>i s'. 3 \<le> i \<Longrightarrow> i < ALT_MAX_FD \<Longrightarrow> taken s ! i = NULL \<Longrightarrow> \<forall>j < i. taken s ! j \<noteq> NULL \<Longrightarrow>
       s' = s\<lparr>alt_fd_list := (alt_fd_list s)[i := (alt_fd_list s ! i)\<lparr>fd_dev := dev\<rparr>],
              alt_max_fd := max (int i) (alt_max_fd s)\<rparr> \<Longrightarrow> pool_ok s' \<Longrightarrow> taken s' = (taken s)[i := dev] \<Longrightarrow> Q (int i) s'"
    and "NULL \<notin> set (taken s) \<Longrightarrow> Q (- EMFILE) s"
  shows "wp (alt_get_fd dev) env Q F s"
proof (cases "find (\<lambda>i. fd_dev (alt_fd_list s ! i) = NULL) [0..<ALT_MAX_FD]")
  case None
  with find_full [OF None assms(1)] assms(4) show ?thesis by (simp add: alt_get_fd_def wp_simps)
next
  case (Some i)
  note f = find_free [OF Some assms(1)]
  let ?t = "s\<lparr>alt_fd_list := (alt_fd_list s)[i := (alt_fd_list s ! i)\<lparr>fd_dev := dev\<rparr>],
              alt_max_fd := max (int i) (alt_max_fd s)\<rparr>"
  have t: "taken ?t = (taken s)[i := dev]" by (simp add: taken_def map_update)
  then have "pool_ok ?t" using pool_ok_take [OF assms(1) _ _ t assms(2)] f by simp
  with f Some t assms(3) show ?thesis by (simp add: alt_get_fd_def update_fd_def wp_simps)
qed

lemma wp_alt_release_fd:
  assumes "pool_ok s" "\<And>f. F f"
    and "\<And>s'. pool_ok s' \<Longrightarrow> taken s' = (if file > 2 then (taken s)[nat file := NULL] else taken s) \<Longrightarrow>
       s' = (if file > 2 then s\<lparr>alt_fd_list := (alt_fd_list s)[nat file := (alt_fd_list s ! nat file)\<lparr>fd_flags := 0, fd_dev := NULL\<rparr>]\<rparr> else s) \<Longrightarrow> Q () s'"
  shows "wp (alt_release_fd file) env Q F s"
proof (cases "file > 2")
  case True
  let ?t = "s\<lparr>alt_fd_list := (alt_fd_list s)[nat file := (alt_fd_list s ! nat file)\<lparr>fd_flags := 0, fd_dev := NULL\<rparr>]\<rparr>"
  have t: "taken ?t = (taken s)[nat file := NULL]" by (simp add: taken_def map_update)
  have "(taken s)[nat file := NULL] ! i \<noteq> NULL \<Longrightarrow> i < ALT_MAX_FD \<Longrightarrow> taken s ! i \<noteq> NULL" for i
    using assms(1) by (cases "i = nat file") (auto simp: pool_ok_def)
  with t have "pool_ok ?t" using assms(1) True by (simp add: pool_ok_def)
  with True t assms(2,3) show ?thesis by (simp add: alt_release_fd_def fd_index_def update_fd_def wp_simps)
qed (use assms(1,3) in \<open>simp add: alt_release_fd_def wp_simps\<close>)

lemma wp_alt_open_dev_pool:
  assumes "pool_ok s" "\<And>f. F f" "dev \<noteq> NULL"
    and "\<And>v s'. pool_ok s' \<Longrightarrow> (0 \<le> snd v \<Longrightarrow> 3 \<le> fst v \<and> nat (fst v) < ALT_MAX_FD \<and> taken s' ! nat (fst v) \<noteq> NULL) \<Longrightarrow> Q v s'"
  shows "wp (alt_open_dev dev isafs file fl mode) env Q F s"
  unfolding alt_open_dev_def wp_bnd
proof (rule wp_alt_get_fd [OF assms(1,3)], goal_cases)
  case (1 i t)
  have q: "Q (int i, st) u" if "same_pool t u" for st u
  proof (rule assms(4))
    show "pool_ok u" using same_pool_ok [OF that] 1(6) by simp
    have "length (taken s) = ALT_MAX_FD" using assms(1) by (simp add: pool_ok_def)
    then show "3 \<le> fst (int i, st) \<and> nat (fst (int i, st)) < ALT_MAX_FD \<and> taken u ! nat (fst (int i, st)) \<noteq> NULL"
      using that 1 assms(3) by (simp add: same_pool_def)
  qed
  have "keeps_pool (update_fd i (\<lambda>fd. fd\<lparr>fd_flags := fl AND NOT ALT_FD_FLAGS_MASK\<rparr>))"
    by (intro keeps_intros) simp
  moreover have "keeps_pool (if isafs then ret 0 else alt_file_locked i)" by (intro keeps_intros)
  ultimately show ?case
    by (auto simp: wp_simps Let_def split: option.split intro!: wp_keeps_pool assms(2) keeps_callback q
        simp: same_pool_def)
next
  case 2
  have "Q (- EMFILE, - EMFILE) s" by (rule assms(4)) (use assms(1) in \<open>simp_all add: EMFILE_def\<close>)
  then show ?case by (simp add: wp_simps EMFILE_def)
qed

lemma wp_ALT_OPEN_pool:
  assumes "pool_ok s" "\<And>f. F f"
    and "\<And>r s'. pool_ok s' \<Longrightarrow> (0 \<le> r \<Longrightarrow> 3 \<le> nat r \<and> nat r < ALT_MAX_FD \<and> taken s' ! nat r \<noteq> NULL) \<Longrightarrow> Q r s'"
  shows "wp (ALT_OPEN file fl mode) env Q F s"
proof -
  have fin: "wp (if snd v < 0 then bnd (alt_release_fd (fst v)) (\<lambda>_. errno_return (- snd v)) else ret (fst v)) env Q F t"
    if "pool_ok t" "0 \<le> snd v \<Longrightarrow> 3 \<le> fst v \<and> nat (fst v) < ALT_MAX_FD \<and> taken t ! nat (fst v) \<noteq> NULL" for v t
    using that assms(2,3) by (cases "snd v < 0") (auto simp: wp_simps intro!: wp_alt_release_fd)
  show ?thesis
    unfolding ALT_OPEN_def wp_bnd
  proof (rule wp_keeps_pool [OF keeps_helpers(5) _ assms(2)])
    fix d t
    assume "same_pool s t"
    then have t: "pool_ok t" using assms(1) same_pool_ok by blast
    have "keeps_pool (if d = NULL then bnd (alt_find_file file) (\<lambda>f. ret (f, True)) else ret (d, False))"
      by (intro keeps_intros)
    then show "wp (if d = NULL then bnd (alt_find_file file) (\<lambda>f. ret (f, True)) else ret (d, False)) env
       (\<lambda>r. wp (if fst r = NULL then ret (-1, - ENODEV) else alt_open_dev (fst r) (snd r) file fl mode) env
         (\<lambda>r'. wp (if snd r' < 0 then bnd (alt_release_fd (fst r')) (\<lambda>_. errno_return (- snd r')) else ret (fst r')) env Q F) F) F t"
    proof (rule wp_keeps_pool [OF _ _ assms(2)])
      fix r u
      assume "same_pool t u"
      then have u: "pool_ok u" using t same_pool_ok by blast
      show "wp (if fst r = NULL then ret (-1, - ENODEV) else alt_open_dev (fst r) (snd r) file fl mode) env
         (\<lambda>r'. wp (if snd r' < 0 then bnd (alt_release_fd (fst r')) (\<lambda>_. errno_return (- snd r')) else ret (fst r')) env Q F) F u"
      proof (cases "fst r = NULL")
        case True
        then show ?thesis using fin [OF u, of "(-1, - ENODEV)"] by (simp add: wp_ret ENODEV_def)
      next
        case False
        then show ?thesis by (simp, intro wp_alt_open_dev_pool [OF u assms(2)]) (simp, rule fin, auto)
      qed
    qed
  qed
qed

lemma wp_ALT_CLOSE_pool:
  assumes "pool_ok s" "\<And>f. F f" "\<And>r s'. pool_ok s' \<Longrightarrow> Q r s'"
  shows "wp (ALT_CLOSE file) env Q F s"
proof (cases "file < 0")
  case True
  with assms(1,3) show ?thesis by (simp add: ALT_CLOSE_def wp_simps)
next
  case False
  have last: "wp (if rval < 0 then errno_return (- rval) else ret 0) env Q F t" if "pool_ok t" for rval t
    using that assms(3) by (simp add: wp_simps)
  have cl: "keeps_pool (case dev_close d of None \<Rightarrow> ret 0 | Some f \<Rightarrow> callback i f)" for d :: "'a alt_dev" and i
    by (intro keeps_intros)
  show ?thesis
    unfolding ALT_CLOSE_def wp_bnd if_not_P [OF False]
  proof (rule wp_keeps_pool [OF keeps_helpers(1) _ assms(2)], rule wp_keeps_pool [OF keeps_helpers(2) _ assms(2)],
      rule wp_keeps_pool [OF cl _ assms(2)], goal_cases)
    case (1 i t d u rval v)
    then have "pool_ok v" using assms(1) same_pool_ok by blast
    then show ?case by (rule wp_alt_release_fd) (use assms(2) last in auto)
  qed
qed

lemma wp_alt_open_fd_pool:
  assumes "pool_ok s" "i < 3" "\<And>f. F f" "\<And>s'. pool_ok s' \<Longrightarrow> Q () s'"
  shows "wp (alt_open_fd i name fl mode) env Q F s"
  unfolding alt_open_fd_def wp_bnd
proof (rule wp_ALT_OPEN_pool [OF assms(1,3)])
  fix old and t :: "'a hal"
  assume t: "pool_ok t" and r: "0 \<le> old \<Longrightarrow> 3 \<le> nat old \<and> nat old < ALT_MAX_FD \<and> taken t ! nat old \<noteq> NULL"
  show "wp (if old \<ge> 0 then bnd (gets (\<lambda>s. alt_fd_list s ! nat old)) (\<lambda>fd. seqs
         [update_fd i (\<lambda>_. fd), alt_release_fd old]) else ret ()) env Q F t"
  proof (cases "0 \<le> old")
    case True
    let ?u = "t\<lparr>alt_fd_list := (alt_fd_list t)[i := alt_fd_list t ! nat old]\<rparr>"
    have "taken ?u = (taken t)[i := taken t ! nat old]"
      using t r True by (simp add: taken_def map_update pool_ok_def)
    then have "pool_ok ?u" using t r True assms(2) by (auto simp: pool_ok_def nth_list_update)
    then have "wp (alt_release_fd old) env Q F ?u" by (rule wp_alt_release_fd) (auto intro: assms(3,4))
    with True show ?thesis by (simp add: wp_simps update_fd_def)
  qed (use t assms(4) in \<open>simp add: wp_simps\<close>)
qed

section \<open>Reachable states\<close>

text \<open>A running program: any sequence of system calls with any arguments.\<close>

inductive hal_call :: "env \<Rightarrow> 'w hal \<Rightarrow> 'w hal \<Rightarrow> bool" for env where
  call_open: "ALT_OPEN file fl mode env s = Inr (r, s') \<Longrightarrow> hal_call env s s'"
| call_close: "ALT_CLOSE fd env s = Inr (r, s') \<Longrightarrow> hal_call env s s'"
| call_read: "ALT_READ fd len env s = Inr (v, s') \<Longrightarrow> hal_call env s s'"
| call_write: "ALT_WRITE fd bs len env s = Inr (r, s') \<Longrightarrow> hal_call env s s'"
| call_lseek: "ALT_LSEEK fd pos dir env s = Inr (r, s') \<Longrightarrow> hal_call env s s'"
| call_fstat: "ALT_FSTAT fd env s = Inr (st, s') \<Longrightarrow> hal_call env s s'"
| call_isatty: "ALT_ISATTY fd env s = Inr (r, s') \<Longrightarrow> hal_call env s s'"
| call_ioctl: "ALT_IOCTL fd req arg env s = Inr (r, s') \<Longrightarrow> hal_call env s s'"
| call_fcntl: "ALT_FCNTL fd cmd arg env s = Inr (r, s') \<Longrightarrow> hal_call env s s'"
| call_redirect: "alt_io_redirect out inp err env s = Inr ((), s') \<Longrightarrow> hal_call env s s'"

inductive hal_reaches :: "env \<Rightarrow> (addr \<Rightarrow> 'w alt_dev) \<Rightarrow> 'w \<Rightarrow> 'w hal \<Rightarrow> bool" for env devs w where
  reaches_boot: "hal_reaches env devs w (hal_boot devs w)"
| reaches_call: "hal_reaches env devs w s \<Longrightarrow> hal_call env s s' \<Longrightarrow> hal_reaches env devs w s'"

inductive_cases hal_callE: "hal_call env s s'"

lemma keeps_poolD: "keeps_pool m \<Longrightarrow> m env s = Inr (r, s') \<Longrightarrow> pool_ok s \<Longrightarrow> pool_ok s'"
  unfolding keeps_pool_def using same_pool_ok by (metis wp_returnD)

lemma pool_ok_call: "hal_call env s s' \<Longrightarrow> pool_ok s \<Longrightarrow> pool_ok s'"
proof (erule hal_callE, goal_cases)
  case (1 name fl mode r)
  have "wp (ALT_OPEN name fl mode) env (\<lambda>_. pool_ok) (\<lambda>_. True) s"
    by (rule wp_ALT_OPEN_pool [OF 1(1)]) simp_all
  from wp_returnD [OF this] show ?case using 1(2) .
next
  case (2 fd r)
  have "wp (ALT_CLOSE fd) env (\<lambda>_. pool_ok) (\<lambda>_. True) s"
    by (rule wp_ALT_CLOSE_pool [OF 2(1)]) simp_all
  from wp_returnD [OF this] show ?case using 2(2) .
next
  case (10 out inp err)
  have "wp (alt_io_redirect out inp err) env (\<lambda>_. pool_ok) (\<lambda>_. True) s"
    unfolding alt_io_redirect_def wp_seqs
    by (intro wp_alt_open_fd_pool 10(1)) (auto simp: wp_simps)
  from wp_returnD [OF this] show ?case using 10(2) .
qed (erule (1) keeps_poolD [OF keeps_calls(1)] keeps_poolD [OF keeps_calls(2)] keeps_poolD [OF keeps_calls(3)]
    keeps_poolD [OF keeps_calls(4)] keeps_poolD [OF keeps_calls(5)] keeps_poolD [OF keeps_calls(6)]
    keeps_poolD [OF keeps_calls(7)])+

lemma pool_ok_boot: "pool_ok (hal_boot devs w)"
  by (auto simp: pool_ok_def taken_def hal_boot_def alt_fd_list_init_def ALT_MAX_FD_def free_fd_def fd_addresses nth_append)

end
