(* ===== verification/Hal_Calls.thy ===== *)
theory Hal_Calls
  imports Fd_Pool Uart
begin

text \<open>
  The properties of the HAL's system calls: the pool under any sequence of calls, the registry of
  devices, opening, closing and exclusive access. The locale \<open>stream_device\<close> is what the write call
  relies on in a device.
\<close>

section \<open>The pool\<close>

text \<open>
  C17: whatever the devices' callbacks do, after any sequence of system calls the pool has its 32
  entries, the three standard streams have a device, and every other open descriptor lies within
  the high-water mark, so that the loops over the pool stay inside it.
\<close>

lemma fd_pool_invariant:
  assumes "hal_reaches env devs w s"
  shows "length (alt_fd_list s) = 32 \<and> alt_max_fd s < 32 \<and>
     (\<forall>i. i < 3 \<longrightarrow> fd_dev (alt_fd_list s ! i) \<noteq> NULL) \<and>
     (\<forall>i. 3 \<le> i \<longrightarrow> i < 32 \<longrightarrow> fd_dev (alt_fd_list s ! i) \<noteq> NULL \<longrightarrow> int i \<le> alt_max_fd s)"
proof -
  from assms have "pool_ok s"
    by (induction rule: hal_reaches.induct) (auto intro: pool_ok_boot pool_ok_call)
  then show ?thesis by (auto simp: pool_ok_def length_taken taken_nth ALT_MAX_FD_def)
qed

lemma fd_pool_invariant_witness:
  "\<exists>s :: unit hal. hal_reaches (\<lambda>_ _. 0) (\<lambda>_. alt_dev_null) () s \<and> length (alt_fd_list s) = 32"
  using fd_pool_invariant [OF reaches_boot [where env = "\<lambda>_ _. 0" and devs = "\<lambda>_. alt_dev_null" and w = "()"]]
    reaches_boot [where env = "\<lambda>_ _. 0" and devs = "\<lambda>_. alt_dev_null" and w = "()"] by blast

section \<open>Registration and lookup\<close>

lemma alt_find_dev_list:
  "llist_of (hal_links s) lst ds \<Longrightarrow>
   alt_find_dev name lst env s =
     Inr (case find (\<lambda>p. dev_name (alt_devs s p) = Some name) ds of None \<Rightarrow> NULL | Some p \<Rightarrow> p, s)"
  by (simp add: alt_find_dev_def llist_search_find)

text \<open>
  C28: registering a named device puts it in front of the list of devices, and a lookup follows the
  list: the new device is found under its name, hiding older ones of the same name, and every other
  name is found as before. The doubly linked pointers stay one circular list.
\<close>

lemma device_registry:
  assumes "llist_of (hal_links s) ALT_DEV_LIST ds" "dev \<notin> set (ALT_DEV_LIST # NULL # ds)"
    and "dev_name (alt_devs s dev) = Some name"
  shows "\<exists>s'. alt_dev_reg dev env s = Inr (0, s') \<and> llist_of (hal_links s') ALT_DEV_LIST (dev # ds) \<and>
     alt_find_dev name ALT_DEV_LIST env s' = Inr (dev, s') \<and>
     (name' \<noteq> name \<longrightarrow> map_sum id fst (alt_find_dev name' ALT_DEV_LIST env s') =
        map_sum id fst (alt_find_dev name' ALT_DEV_LIST env s))"
proof -
  let ?s = "s\<lparr>hal_links := alt_llist_insert ALT_DEV_LIST dev (hal_links s)\<rparr>"
  have l: "llist_of (hal_links ?s) ALT_DEV_LIST (dev # ds)"
    using llist_of_insert [OF assms(1)] assms(2) by simp
  have "alt_dev_reg dev env s = Inr (0, ?s)"
    using assms(2,3) by (simp add: alt_dev_reg_def alt_dev_llist_insert_def bnd_def gets_def modify_def ret_def)
  moreover have "alt_find_dev name ALT_DEV_LIST env ?s = Inr (dev, ?s)"
    using alt_find_dev_list [OF l, of name env] assms(3) by simp
  moreover have "map_sum id fst (alt_find_dev name' ALT_DEV_LIST env ?s) = map_sum id fst (alt_find_dev name' ALT_DEV_LIST env s)"
    if "name' \<noteq> name"
    using alt_find_dev_list [OF l, of name' env] alt_find_dev_list [OF assms(1), of name' env] assms(3) that
    by simp
  ultimately show ?thesis using l by blast
qed

lemma llist_of_boot:
  "llist_of (hal_links (hal_boot devs w)) ALT_DEV_LIST [ALT_DEV_NULL]"
  unfolding hal_boot_def alt_dev_links_def
  by (simp, intro llist_of_insert llist_of_head) (simp add: fd_addresses)

definition UART_DEV :: addr where "UART_DEV = 0x9000"

lemma device_registry_witness:
  "\<exists>s'. alt_dev_reg UART_DEV (\<lambda>_ _. 0) (hal_boot (\<lambda>_. alt_dev_null) ()) = Inr (0, s') \<and>
     alt_find_dev ''/dev/null'' ALT_DEV_LIST (\<lambda>_ _. 0) s' = Inr (UART_DEV, s')"
proof -
  have "dev_name (alt_devs (hal_boot (\<lambda>_. alt_dev_null) ()) UART_DEV) = Some ''/dev/null''"
    by (simp add: hal_boot_def alt_dev_null_def)
  from device_registry [OF llist_of_boot _ this] show ?thesis
    by (auto simp: fd_addresses UART_DEV_def)
qed

section \<open>Opening and closing\<close>

lemma find_free_ex:
  assumes "pool_ok s" "NULL \<in> set (taken s)"
  obtains i where "find (\<lambda>i. fd_dev (alt_fd_list s ! i) = NULL) [0..<ALT_MAX_FD] = Some i"
  using find_full [OF _ assms(1)] assms(2) by (cases "find (\<lambda>i. fd_dev (alt_fd_list s ! i) = NULL) [0..<ALT_MAX_FD]") auto

text \<open>The state after a device was given the free descriptor \<open>i\<close> with the flags \<open>fl\<close>.\<close>

definition opened :: "nat \<Rightarrow> addr \<Rightarrow> u32 \<Rightarrow> 'w hal \<Rightarrow> 'w hal" where
  "opened i d fl s = s\<lparr>alt_max_fd := max (int i) (alt_max_fd s), alt_fd_list := (alt_fd_list s)[i :=
       (alt_fd_list s ! i)\<lparr>fd_dev := d, fd_flags := (fl AND NOT ALT_FD_FLAGS_MASK) OR ALT_FD_DEV\<rparr>]\<rparr>"

definition device_locked :: "addr \<Rightarrow> 'w hal \<Rightarrow> bool" where
  "device_locked d s \<longleftrightarrow> (\<exists>fd \<in> set (alt_fd_list s). fd_dev fd = d \<and> fd_flags fd AND ALT_FD_EXCL \<noteq> 0)"

text \<open>The loop of \<open>alt_file_locked\<close> for a descriptor just taken sees every lock on the device.\<close>

definition locked_elsewhere :: "nat \<Rightarrow> 'w hal \<Rightarrow> bool" where
  "locked_elsewhere i s \<longleftrightarrow> (\<exists>j \<in> set [0..<nat (alt_max_fd s) + 1].
       fd_dev (alt_fd_list s ! j) = fd_dev (alt_fd_list s ! i) \<and>
       fd_flags (alt_fd_list s ! j) AND ALT_FD_EXCL \<noteq> 0 \<and> j \<noteq> i)"

lemma opened_simps:
  "alt_max_fd (opened i d fl s) = max (int i) (alt_max_fd s)" "j \<noteq> i \<Longrightarrow> alt_fd_list (opened i d fl s) ! j = alt_fd_list s ! j"
  "i < length (alt_fd_list s) \<Longrightarrow> alt_fd_list (opened i d fl s) ! i = (alt_fd_list s ! i)\<lparr>fd_dev := d, fd_flags := (fl AND NOT ALT_FD_FLAGS_MASK) OR ALT_FD_DEV\<rparr>"
  "length (alt_fd_list (opened i d fl s)) = length (alt_fd_list s)" "alt_devs (opened i d fl s) = alt_devs s"
  "drivers (opened i d fl s) = drivers s"
  by (simp_all add: opened_def)

lemma locked_opened:
  assumes "pool_ok s" "d \<noteq> NULL" "3 \<le> i" "i < ALT_MAX_FD" "taken s ! i = NULL"
  shows "locked_elsewhere i (opened i d fl s) \<longleftrightarrow> device_locked d s"
proof -
  let ?m = "max (int i) (alt_max_fd s)"
  have n: "length (alt_fd_list s) = ALT_MAX_FD" using assms(1) by (simp add: pool_ok_def length_taken)
  have m: "nat ?m < ALT_MAX_FD" using assms(1,4) by (auto simp: pool_ok_def)
  have hi: "int j \<le> ?m" if "taken s ! j \<noteq> NULL" "j < ALT_MAX_FD" for j
    using assms(1,3) that by (cases "j < 3") (auto simp: pool_ok_def le_max_iff_disj)
  let ?L = "alt_fd_list (opened i d fl s)"
  have same: "fd_dev (?L ! j) = fd_dev (?L ! i) \<and> fd_flags (?L ! j) AND ALT_FD_EXCL \<noteq> 0 \<and> j \<noteq> i \<longleftrightarrow>
      j \<noteq> i \<and> fd_dev (alt_fd_list s ! j) = d \<and> fd_flags (alt_fd_list s ! j) AND ALT_FD_EXCL \<noteq> 0" for j
    using assms(4) n by (cases "j = i") (auto simp: opened_simps)
  have "locked_elsewhere i (opened i d fl s) \<longleftrightarrow>
      (\<exists>j \<le> nat ?m. j \<noteq> i \<and> fd_dev (alt_fd_list s ! j) = d \<and> fd_flags (alt_fd_list s ! j) AND ALT_FD_EXCL \<noteq> 0)"
    unfolding locked_elsewhere_def opened_simps(1) same by (auto simp: Bex_def le_less)
  also have "\<dots> \<longleftrightarrow> (\<exists>j < ALT_MAX_FD. fd_dev (alt_fd_list s ! j) = d \<and> fd_flags (alt_fd_list s ! j) AND ALT_FD_EXCL \<noteq> 0)" (is "?A \<longleftrightarrow> ?B")
  proof
    assume ?A
    then obtain j where "j \<le> nat ?m" "fd_dev (alt_fd_list s ! j) = d" "fd_flags (alt_fd_list s ! j) AND ALT_FD_EXCL \<noteq> 0" by blast
    then show ?B using m by (intro exI [of _ j]) simp
  next
    assume ?B
    then obtain j where j: "j < ALT_MAX_FD" "fd_dev (alt_fd_list s ! j) = d" "fd_flags (alt_fd_list s ! j) AND ALT_FD_EXCL \<noteq> 0" by blast
    then have t: "taken s ! j \<noteq> NULL" using assms(2) n by (simp add: taken_nth)
    then have "j \<noteq> i" using assms(5) by auto
    moreover have "j \<le> nat ?m" using hi [OF t j(1)] by linarith
    ultimately show ?A using j by blast
  qed
  also have "\<dots> \<longleftrightarrow> device_locked d s" unfolding device_locked_def n [symmetric] by (metis in_set_conv_nth)
  finally show ?thesis .
qed

lemma wp_alt_open_dev:
  assumes "pool_ok s" "d \<noteq> NULL" "dev_open (alt_devs s d) = None"
    and "find (\<lambda>i. fd_dev (alt_fd_list s ! i) = NULL) [0..<ALT_MAX_FD] = Some i"
    and "Q (int i, if device_locked d s then - EACCES else 0) (opened i d fl s)"
  shows "wp (alt_open_dev d False file fl mode) env Q F s"
proof -
  note f = find_free [OF assms(4,1)]
  let ?t = "s\<lparr>alt_max_fd := max (int i) (alt_max_fd s), alt_fd_list := (alt_fd_list s)[i :=
       (alt_fd_list s ! i)\<lparr>fd_dev := d, fd_flags := (fl AND NOT ALT_FD_FLAGS_MASK)\<rparr>]\<rparr>"
  have l: "length (alt_fd_list s) = ALT_MAX_FD" using assms(1) by (simp add: pool_ok_def length_taken)
  then have n: "i < length (alt_fd_list s)" using f by simp
  have upd: "?t\<lparr>alt_fd_list := (alt_fd_list ?t)[i := (alt_fd_list ?t ! i)\<lparr>fd_flags := fd_flags (alt_fd_list ?t ! i) OR ALT_FD_DEV\<rparr>]\<rparr> = opened i d fl s"
    using n by (simp add: opened_def)
  have "0 \<le> alt_max_fd (opened i d fl s) \<and> nat (alt_max_fd (opened i d fl s)) < length (alt_fd_list (opened i d fl s))"
    using assms(1) f l by (auto simp: pool_ok_def opened_simps)
  then have "wp (alt_file_locked i) env R F ?t = R (if device_locked d s then - EACCES else 0) (opened i d fl s)" for R
    using locked_opened [OF assms(1,2), of i fl] f
    unfolding alt_file_locked_def update_fd_def locked_elsewhere_def [symmetric]
    by (simp only: wp_simps upd) (simp add: wp_simps)
  moreover have "wp (alt_get_fd d) env R F s =
      R (int i) (s\<lparr>alt_fd_list := (alt_fd_list s)[i := (alt_fd_list s ! i)\<lparr>fd_dev := d\<rparr>], alt_max_fd := max (int i) (alt_max_fd s)\<rparr>)" for R
    by (simp add: alt_get_fd_def assms(4) update_fd_def wp_simps)
  ultimately show ?thesis
    using n assms(3,5) unfolding alt_open_dev_def
    by (simp add: wp_simps Let_def update_fd_def opened_simps EACCES_def split: if_splits)
qed

lemma taken_opened_release:
  assumes "taken s ! i = NULL" "i < length (alt_fd_list s)"
  shows "taken ((opened i d fl s)\<lparr>alt_fd_list := (alt_fd_list (opened i d fl s))[i :=
     (alt_fd_list (opened i d fl s) ! i)\<lparr>fd_flags := 0, fd_dev := NULL\<rparr>]\<rparr>) = taken s"
  using assms by (simp add: taken_def opened_def map_update list_update_same_conv)

lemma wp_ALT_OPEN:
  assumes "pool_ok s" "d \<noteq> NULL" "alt_find_dev name ALT_DEV_LIST env s = Inr (d, s)" "dev_open (alt_devs s d) = None"
    and i: "find (\<lambda>i. fd_dev (alt_fd_list s ! i) = NULL) [0..<ALT_MAX_FD] = Some i"
    and "\<not> device_locked d s \<Longrightarrow> Q (int i) (opened i d fl s)"
    and "\<And>s'. device_locked d s \<Longrightarrow> hal_errno s' = EACCES \<Longrightarrow> taken s' = taken s \<Longrightarrow> Q (-1) s'"
  shows "wp (ALT_OPEN name fl mode) env Q F s"
proof -
  note f = find_free [OF i assms(1)]
  have n: "i < length (alt_fd_list s)" using assms(1) f by (simp add: pool_ok_def length_taken)
  have "wp (alt_open_dev d False name fl mode) env
      (\<lambda>r'. wp (if snd r' < 0 then bnd (alt_release_fd (fst r')) (\<lambda>_. errno_return (- snd r')) else ret (fst r')) env Q F) F s"
  proof (rule wp_alt_open_dev [OF assms(1,2,4) i], cases "device_locked d s")
    case True
    let ?o = "opened i d fl s"
    let ?r = "?o\<lparr>alt_fd_list := (alt_fd_list ?o)[i := (alt_fd_list ?o ! i)\<lparr>fd_flags := 0, fd_dev := NULL\<rparr>]\<rparr>"
    have "Q (-1) (?r\<lparr>hal_errno := EACCES\<rparr>)"
      by (rule assms(7) [OF True]) (simp_all add: taken_opened_release f n)
    with True f n show "wp (if snd (int i, if device_locked d s then - EACCES else 0) < 0
        then bnd (alt_release_fd (fst (int i, if device_locked d s then - EACCES else 0)))
               (\<lambda>_. errno_return (- snd (int i, if device_locked d s then - EACCES else 0)))
        else ret (fst (int i, if device_locked d s then - EACCES else 0))) env Q F ?o"
      by (simp add: EACCES_def wp_simps alt_release_fd_def fd_index_def update_fd_def opened_simps(4))
  next
    case False
    with assms(6) show "wp (if snd (int i, if device_locked d s then - EACCES else 0) < 0
        then bnd (alt_release_fd (fst (int i, if device_locked d s then - EACCES else 0)))
               (\<lambda>_. errno_return (- snd (int i, if device_locked d s then - EACCES else 0)))
        else ret (fst (int i, if device_locked d s then - EACCES else 0))) env Q F (opened i d fl s)"
      by (simp add: wp_simps)
  qed
  then show ?thesis unfolding ALT_OPEN_def using assms(2)
    by (simp add: wp_bnd wp_result [where m = "alt_find_dev name ALT_DEV_LIST" and env = env and s = s, OF assms(3)] wp_ret)
qed

text \<open>
  C29: opening a device that is registered, not locked and has no callbacks for it takes the lowest
  free descriptor, records device and flags there and changes no other descriptor; closing it frees
  exactly this descriptor again.
\<close>

lemma open_close:
  assumes "pool_ok s" "NULL \<in> set (taken s)" "alt_find_dev name ALT_DEV_LIST env s = Inr (d, s)" "d \<noteq> NULL"
    and "dev_open (alt_devs s d) = None" "dev_close (alt_devs s d) = None" "\<not> device_locked d s"
  shows "\<exists>i s' s''. 3 \<le> i \<and> i < 32 \<and> fd_dev (alt_fd_list s ! i) = NULL \<and>
     (\<forall>j < i. fd_dev (alt_fd_list s ! j) \<noteq> NULL) \<and>
     ALT_OPEN name fl mode env s = Inr (int i, s') \<and>
     alt_fd_list s' = (alt_fd_list s)[i := \<lparr>fd_dev = d, fd_priv = fd_priv (alt_fd_list s ! i),
        fd_flags = (fl AND NOT ALT_FD_FLAGS_MASK) OR ALT_FD_DEV\<rparr>] \<and>
     ALT_CLOSE (int i) env s' = Inr (0, s'') \<and>
     alt_fd_list s'' = (alt_fd_list s)[i := \<lparr>fd_dev = NULL, fd_priv = fd_priv (alt_fd_list s ! i), fd_flags = 0\<rparr>]"
proof -
  obtain i where i: "find (\<lambda>i. fd_dev (alt_fd_list s ! i) = NULL) [0..<ALT_MAX_FD] = Some i"
    using find_free_ex [OF assms(1,2)] .
  note f = find_free [OF i assms(1)]
  have n: "length (alt_fd_list s) = ALT_MAX_FD" using assms(1) by (simp add: pool_ok_def length_taken)
  let ?o = "opened i d fl s"
  let ?fd = "\<lparr>fd_dev = d, fd_priv = fd_priv (alt_fd_list s ! i), fd_flags = (fl AND NOT ALT_FD_FLAGS_MASK) OR ALT_FD_DEV\<rparr>"
  have "wp (ALT_OPEN name fl mode) env (\<lambda>r s'. r = int i \<and> s' = ?o) (\<lambda>_. False) s"
    by (rule wp_ALT_OPEN [OF assms(1,4,3,5) i]) (use assms(7) in auto)
  from wp_totalD [OF this] have op: "ALT_OPEN name fl mode env s = Inr (int i, ?o)" by blast
  have l: "alt_fd_list ?o = (alt_fd_list s)[i := ?fd]" by (cases "alt_fd_list s ! i") (simp add: opened_def)
  have "wp (ALT_CLOSE (int i)) env (\<lambda>r s''. r = 0 \<and> alt_fd_list s'' =
      (alt_fd_list s)[i := \<lparr>fd_dev = NULL, fd_priv = fd_priv (alt_fd_list s ! i), fd_flags = 0\<rparr>]) (\<lambda>_. False) ?o"
    using f n assms(4,6) unfolding ALT_CLOSE_def
    by (simp add: wp_simps fd_index_def fd_device_def alt_release_fd_def update_fd_def l opened_simps)
  from wp_totalD [OF this] obtain s'' where "ALT_CLOSE (int i) env ?o = Inr (0, s'')"
    "alt_fd_list s'' = (alt_fd_list s)[i := \<lparr>fd_dev = NULL, fd_priv = fd_priv (alt_fd_list s ! i), fd_flags = 0\<rparr>]" by blast
  with op l f n show ?thesis
    by (intro exI [of _ i] exI [of _ ?o] exI [of _ s'']) (auto simp: ALT_MAX_FD_def taken_nth)
qed

lemma free_boot: "NULL \<in> set (taken (hal_boot devs w))"
  by (simp add: taken_def hal_boot_def alt_fd_list_init_def free_fd_def ALT_MAX_FD_def)

lemma unlocked_boot: "\<not> device_locked d (hal_boot devs w)"
  by (auto simp: device_locked_def hal_boot_def alt_fd_list_init_def free_fd_def)

lemma open_close_witness:
  "\<exists>i s'. ALT_OPEN ''/dev/null'' 1 0 (\<lambda>_ _. 0) (hal_boot (\<lambda>_. alt_dev_null) ()) = Inr (int i, s') \<and> 3 \<le> i"
proof -
  let ?s = "hal_boot (\<lambda>_. alt_dev_null) ()"
  have "alt_find_dev ''/dev/null'' ALT_DEV_LIST (\<lambda>_ _. 0) ?s = Inr (ALT_DEV_NULL, ?s)"
    using alt_find_dev_list [OF llist_of_boot [of "\<lambda>_. alt_dev_null" "()"], of "''/dev/null''" "\<lambda>_ _. 0"]
    by (simp add: hal_boot_def alt_dev_null_def)
  from open_close [OF pool_ok_boot free_boot this _ _ _ unlocked_boot, of 1 0]
  show ?thesis by (auto simp: fd_addresses hal_boot_def alt_dev_null_def)
qed

text \<open>
  A device locked for exclusive access cannot be opened again: the call fails with \<open>EACCES\<close>, and
  the descriptor it had taken is free again.
\<close>

lemma locked_device_refused:
  assumes "pool_ok s" "NULL \<in> set (taken s)" "alt_find_dev name ALT_DEV_LIST env s = Inr (d, s)" "d \<noteq> NULL"
    and "dev_open (alt_devs s d) = None" "device_locked d s"
  shows "\<exists>s'. ALT_OPEN name fl mode env s = Inr (-1, s') \<and> hal_errno s' = EACCES \<and>
     map fd_dev (alt_fd_list s') = map fd_dev (alt_fd_list s)"
proof -
  obtain i where i: "find (\<lambda>i. fd_dev (alt_fd_list s ! i) = NULL) [0..<ALT_MAX_FD] = Some i"
    using find_free_ex [OF assms(1,2)] .
  have "wp (ALT_OPEN name fl mode) env (\<lambda>r s'. r = -1 \<and> hal_errno s' = EACCES \<and> taken s' = taken s) (\<lambda>_. False) s"
    by (rule wp_ALT_OPEN [OF assms(1,4,3,5) i]) (use assms(6) in auto)
  from wp_totalD [OF this] show ?thesis by (auto simp: taken_def)
qed

lemma locked_device_refused_witness:
  "\<exists>s'. ALT_OPEN ''/dev/null'' 1 0 (\<lambda>_ _. 0)
     ((hal_boot (\<lambda>_. alt_dev_null) ())\<lparr>alt_fd_list := alt_fd_list_init[0 := \<lparr>fd_dev = ALT_DEV_NULL, fd_priv = 0, fd_flags = ALT_FD_EXCL\<rparr>]\<rparr>)
     = Inr (-1, s') \<and> hal_errno s' = EACCES"
proof -
  let ?b = "hal_boot (\<lambda>_. alt_dev_null) ()"
  let ?l = "alt_fd_list_init[0 := \<lparr>fd_dev = ALT_DEV_NULL, fd_priv = 0, fd_flags = ALT_FD_EXCL\<rparr>]"
  let ?s = "?b\<lparr>alt_fd_list := ?l\<rparr>"
  have t: "taken ?s = taken ?b"
    by (simp add: taken_def hal_boot_def map_update list_update_same_conv alt_fd_list_init_def nth_append)
  then have "pool_ok ?s" using pool_ok_boot [of "\<lambda>_. alt_dev_null" "()"] by (simp add: pool_ok_def hal_boot_def)
  moreover have "NULL \<in> set (taken ?s)" unfolding t by (rule free_boot)
  moreover have "alt_find_dev ''/dev/null'' ALT_DEV_LIST (\<lambda>_ _. 0) ?s = Inr (ALT_DEV_NULL, ?s)"
    using alt_find_dev_list [of ?s ALT_DEV_LIST "[ALT_DEV_NULL]" "''/dev/null''" "\<lambda>_ _. 0"] llist_of_boot [of "\<lambda>_. alt_dev_null" "()"]
    by (simp add: hal_boot_def alt_dev_null_def)
  moreover have "device_locked ALT_DEV_NULL ?s"
  proof -
    have "?l ! 0 \<in> set ?l" by (rule nth_mem) (simp add: alt_fd_list_init_def)
    then show ?thesis by (auto simp: device_locked_def alt_fd_list_init_def ALT_FD_EXCL_def intro!: bexI [of _ "?l ! 0"])
  qed
  ultimately show ?thesis
    using locked_device_refused [of ?s "''/dev/null''" "\<lambda>_ _. 0" ALT_DEV_NULL 1 0]
    by (auto simp: hal_boot_def alt_dev_null_def fd_addresses)
qed

text \<open>
  The check for other users stops one short of the high-water mark: exclusive access is granted
  although the descriptor opened last refers to the same device.
\<close>

lemma lock_misses_last:
  assumes "pool_ok s" "0 \<le> alt_max_fd s" "int i < alt_max_fd s" "fd_flags (alt_fd_list s ! i) AND ALT_FD_DEV \<noteq> 0"
    and "fd_dev (alt_fd_list s ! nat (alt_max_fd s)) = fd_dev (alt_fd_list s ! i)"
    and "\<forall>j < nat (alt_max_fd s). j \<noteq> i \<longrightarrow> fd_dev (alt_fd_list s ! j) \<noteq> fd_dev (alt_fd_list s ! i)"
  shows "\<exists>s'. ALT_IOCTL (int i) TIOCEXCL arg env s = Inr (0, s') \<and>
     fd_flags (alt_fd_list s' ! i) AND ALT_FD_EXCL \<noteq> 0 \<and>
     fd_dev (alt_fd_list s' ! nat (alt_max_fd s')) = fd_dev (alt_fd_list s' ! i)"
proof -
  have n: "length (alt_fd_list s) = ALT_MAX_FD" "nat (alt_max_fd s) < ALT_MAX_FD" "i < ALT_MAX_FD"
    using assms(1,2,3) by (auto simp: pool_ok_def length_taken)
  have bit: "(x OR ALT_FD_EXCL) AND ALT_FD_EXCL \<noteq> 0" for x
  proof -
    have "bit ((x OR ALT_FD_EXCL) AND ALT_FD_EXCL) 31" by (simp add: bit_simps ALT_FD_EXCL_def)
    then show ?thesis by auto
  qed
  have "wp (alt_fd_lock i) env (\<lambda>r s'. r = 0 \<and> s' = s\<lparr>alt_fd_list := (alt_fd_list s)[i :=
      (alt_fd_list s ! i)\<lparr>fd_flags := fd_flags (alt_fd_list s ! i) OR ALT_FD_EXCL\<rparr>]\<rparr>) (\<lambda>_. False) s"
    using n assms(6) unfolding alt_fd_lock_def by (auto simp: wp_simps update_fd_def)
  from wp_totalD [OF this] have lock: "alt_fd_lock i env s = Inr (0, s\<lparr>alt_fd_list := (alt_fd_list s)[i :=
      (alt_fd_list s ! i)\<lparr>fd_flags := fd_flags (alt_fd_list s ! i) OR ALT_FD_EXCL\<rparr>]\<rparr>)" by blast
  have "i \<noteq> nat (alt_max_fd s)" using assms(2,3) by linarith
  then have "wp (ALT_IOCTL (int i) TIOCEXCL arg) env (\<lambda>r s'. r = 0 \<and>
      fd_flags (alt_fd_list s' ! i) AND ALT_FD_EXCL \<noteq> 0 \<and>
      fd_dev (alt_fd_list s' ! nat (alt_max_fd s')) = fd_dev (alt_fd_list s' ! i)) (\<lambda>_. False) s"
    using assms(4,5) n bit unfolding ALT_IOCTL_def
    by (simp add: wp_simps fd_index_def wp_result [where m = "alt_fd_lock i", OF lock])
  from wp_totalD [OF this] show ?thesis by blast
qed

text \<open>Descriptors 3 and 4 on one device.\<close>

definition two_users :: "unit hal" where
  "two_users = (hal_boot (\<lambda>_. alt_dev_null) ())\<lparr>alt_max_fd := 4,
     alt_fd_list := alt_fd_list_init[3 := \<lparr>fd_dev = UART_DEV, fd_priv = 0, fd_flags = ALT_FD_DEV\<rparr>,
       4 := \<lparr>fd_dev = UART_DEV, fd_priv = 0, fd_flags = ALT_FD_DEV\<rparr>]\<rparr>"

lemma lock_misses_last_witness:
  "\<exists>s'. ALT_IOCTL 3 TIOCEXCL 0 (\<lambda>_ _. 0) two_users = Inr (0, s') \<and> fd_dev (alt_fd_list s' ! nat (alt_max_fd s')) = fd_dev (alt_fd_list s' ! 3)"
proof -
  have l: "alt_fd_list_init = [\<lparr>fd_dev = ALT_DEV_NULL, fd_priv = 0, fd_flags = 0\<rparr>, \<lparr>fd_dev = ALT_DEV_NULL, fd_priv = 0, fd_flags = 0\<rparr>,
      \<lparr>fd_dev = ALT_DEV_NULL, fd_priv = 0, fd_flags = 0\<rparr>, free_fd, free_fd] @ replicate 27 free_fd"
    by (simp add: alt_fd_list_init_def ALT_MAX_FD_def numeral_eq_Suc)
  have "pool_ok two_users"
    by (auto simp: two_users_def hal_boot_def pool_ok_def taken_def l ALT_MAX_FD_def free_fd_def fd_addresses UART_DEV_def
        numeral_3_eq_3 nth_append less_Suc_eq nth_Cons split: nat.splits)
  moreover have "\<forall>j < nat (alt_max_fd two_users). j \<noteq> 3 \<longrightarrow> fd_dev (alt_fd_list two_users ! j) \<noteq> fd_dev (alt_fd_list two_users ! 3)"
  proof (intro allI impI)
    fix j :: nat
    assume "j < nat (alt_max_fd two_users)" "j \<noteq> 3"
    then have "j = 0 \<or> j = 1 \<or> j = 2" by (auto simp: two_users_def)
    then show "fd_dev (alt_fd_list two_users ! j) \<noteq> fd_dev (alt_fd_list two_users ! 3)"
      by (auto simp: two_users_def l ALT_DEV_NULL_def UART_DEV_def)
  qed
  ultimately show ?thesis
    using lock_misses_last [of two_users 3 0 "\<lambda>_ _. 0"]
    by (auto simp: two_users_def hal_boot_def l ALT_FD_DEV_def)
qed

section \<open>A device that writes to a stream\<close>

text \<open>The two states have the same descriptors, up to what the devices keep in them.\<close>

definition same_fds :: "'w hal \<Rightarrow> 'w hal \<Rightarrow> bool" where
  "same_fds s s' \<longleftrightarrow> map fd_dev (alt_fd_list s') = map fd_dev (alt_fd_list s) \<and>
     map fd_flags (alt_fd_list s') = map fd_flags (alt_fd_list s) \<and> alt_devs s' = alt_devs s"

lemma same_fds_nth:
  assumes "same_fds s s'" "i < length (alt_fd_list s)"
  shows "i < length (alt_fd_list s')" "fd_dev (alt_fd_list s' ! i) = fd_dev (alt_fd_list s ! i)"
    "fd_flags (alt_fd_list s' ! i) = fd_flags (alt_fd_list s ! i)" "alt_devs s' = alt_devs s"
proof -
  show i: "i < length (alt_fd_list s')" using assms unfolding same_fds_def by (metis length_map)
  show "fd_dev (alt_fd_list s' ! i) = fd_dev (alt_fd_list s ! i)"
    "fd_flags (alt_fd_list s' ! i) = fd_flags (alt_fd_list s ! i)" "alt_devs s' = alt_devs s"
    using assms i unfolding same_fds_def by (metis nth_map)+
qed

lemma same_fds_priv:
  "same_fds s (s\<lparr>drivers := w, alt_fd_list := (alt_fd_list s)[i := (alt_fd_list s ! i)\<lparr>fd_priv := p\<rparr>]\<rparr>)"
  by (cases "i < length (alt_fd_list s)") (auto simp: same_fds_def map_update list_update_same_conv list_update_beyond)

lemma wp_callback [wp_simps]:
  "wp (callback i f) env Q F s = wp (f (alt_fd_list s ! i)) env (\<lambda>v w. Q (fst v)
     (s\<lparr>drivers := w, alt_fd_list := (alt_fd_list s)[i := (alt_fd_list s ! i)\<lparr>fd_priv := snd v\<rparr>]\<rparr>)) F (drivers s)"
  by (auto simp: wp_def callback_def split: sum.splits prod.splits)

locale stream_device =
  fixes wr :: "alt_fd \<Rightarrow> u8 list \<Rightarrow> int \<Rightarrow> ('w, int \<times> u32) prog"
    and ok :: "'w \<Rightarrow> bool"
    and stream :: "'w \<Rightarrow> u8 list"
    and live :: "env \<Rightarrow> bool"
  assumes wr_stream: "ok w \<Longrightarrow> 0 \<le> len \<Longrightarrow> nat len \<le> length data \<Longrightarrow>
     wp (wr fd data len) env (\<lambda>v w'. ok w' \<and> 0 \<le> fst v \<and> fst v \<le> len \<and> stream w' = stream w @ take (nat (fst v)) data \<and>
        (fst v < len \<longrightarrow> fd_flags fd AND O_NONBLOCK \<noteq> 0)) (\<lambda>f. f = Hang \<and> \<not> live env) w"
begin

text \<open>The write call on a descriptor of such a device, opened for writing.\<close>

lemma write_call:
  assumes "ok (drivers s)" "0 \<le> len" "nat len \<le> length data"
    and "i < length (alt_fd_list s)" "fd_dev (alt_fd_list s ! i) \<noteq> NULL"
    and "dev_write (alt_devs s (fd_dev (alt_fd_list s ! i))) = Some wr"
    and "fd_flags (alt_fd_list s ! i) AND O_ACCMODE \<noteq> O_RDONLY"
  shows "wp (ALT_WRITE (int i) data len) env (\<lambda>r s'. ok (drivers s') \<and> same_fds s s' \<and> 0 \<le> r \<and> r \<le> len \<and>
      stream (drivers s') = stream (drivers s) @ take (nat r) data \<and>
      (r < len \<longrightarrow> fd_flags (alt_fd_list s ! i) AND O_NONBLOCK \<noteq> 0)) (\<lambda>f. f = Hang \<and> \<not> live env) s"
proof -
  let ?Q = "\<lambda>r s'. ok (drivers s') \<and> same_fds s s' \<and> 0 \<le> r \<and> r \<le> len \<and>
      stream (drivers s') = stream (drivers s) @ take (nat r) data \<and>
      (r < len \<longrightarrow> fd_flags (alt_fd_list s ! i) AND O_NONBLOCK \<noteq> 0)"
  have "wp (callback i (\<lambda>fd. wr fd data len)) env (\<lambda>r. wp (errno_check r) env ?Q (\<lambda>f. f = Hang \<and> \<not> live env)) (\<lambda>f. f = Hang \<and> \<not> live env) s"
    unfolding wp_callback
    by (rule wp_mono [OF wr_stream [OF assms(1-3)]]) (simp_all add: errno_check_def wp_simps same_fds_priv)
  then show ?thesis using assms(4-7) unfolding ALT_WRITE_def
    by (simp add: wp_bnd wp_gets wp_ret fd_index_def fd_device_def)
qed

end

end
