(* ===== verification/Uart_Device.thy ===== *)
theory Uart_Device
  imports Hal_Calls Uart_Calls
begin

text \<open>
  The UART as a device of the HAL: the callbacks of \<^verbatim>\<open>drivers/src/altera_avalon_uart_fd.c\<close>, the
  device's structure, its registration in \<^verbatim>\<open>alt_sys_init.c\<close>, and what a program that opens it,
  writes and closes puts on the line.
\<close>

section \<open>The callbacks\<close>

definition altera_avalon_uart_read_fd :: "alt_fd \<Rightarrow> int \<Rightarrow> (uart, (int \<times> u8 list) \<times> u32) prog" where
  "altera_avalon_uart_read_fd fd space =
     bnd (altera_avalon_uart_read space (fd_flags fd)) (\<lambda>r. ret (r, fd_priv fd))"

definition altera_avalon_uart_write_fd :: "alt_fd \<Rightarrow> u8 list \<Rightarrow> int \<Rightarrow> (uart, int \<times> u32) prog" where
  "altera_avalon_uart_write_fd fd buffer space =
     bnd (altera_avalon_uart_write buffer space (fd_flags fd)) (\<lambda>r. ret (r, fd_priv fd))"

definition altera_avalon_uart_close_fd :: "alt_fd \<Rightarrow> (uart, int \<times> u32) prog" where
  "altera_avalon_uart_close_fd fd = bnd (altera_avalon_uart_close (fd_flags fd)) (\<lambda>r. ret (r, fd_priv fd))"

text \<open>The device's structure; the build does not define \<open>ALTERA_AVALON_UART_USE_IOCTL\<close>.\<close>

definition UART_NAME :: string where "UART_NAME = ''/dev/uart''"

definition uart_device :: "uart alt_dev" where
  "uart_device =
     \<lparr>dev_name = Some UART_NAME, dev_open = None, dev_close = Some altera_avalon_uart_close_fd,
      dev_read = Some altera_avalon_uart_read_fd, dev_write = Some altera_avalon_uart_write_fd,
      dev_lseek = None, dev_fstat = None, dev_ioctl = None\<rparr>"

section \<open>Start-up\<close>

text \<open>Code that runs on the drivers' state alone.\<close>

definition on_drivers :: "('w, 'a) prog \<Rightarrow> ('w hal, 'a) prog" where
  "on_drivers m = (\<lambda>env s. case m env (drivers s) of
     Inl f \<Rightarrow> Inl f | Inr (a, w) \<Rightarrow> Inr (a, s\<lparr>drivers := w\<rparr>))"

lemma wp_on_drivers [wp_simps]:
  "wp (on_drivers m) env Q F s = wp m env (\<lambda>a w. Q a (s\<lparr>drivers := w\<rparr>)) F (drivers s)"
  by (auto simp: wp_def on_drivers_def split: sum.splits prod.splits)

text \<open>The initialisation macros of the SPI, system ID and I2C devices are empty.\<close>

definition alt_sys_init :: "(uart hal, unit) prog" where
  "alt_sys_init = seqs [on_drivers altera_avalon_uart_init, void (alt_dev_reg UART_DEV)]"

definition board_devs :: "addr \<Rightarrow> uart alt_dev" where
  "board_devs = (\<lambda>_. alt_dev_null)(UART_DEV := uart_device)"

definition board_boot :: "uart hal" where
  "board_boot = hal_boot board_devs ALTERA_AVALON_UART_DEV_INSTANCE"

text \<open>A program that prints: it opens the device for writing, writes the data and closes it.\<close>

definition print_uart :: "u8 list \<Rightarrow> (uart hal, int \<times> int) prog" where
  "print_uart data =
     bnd alt_sys_init (\<lambda>_.
     bnd (ALT_OPEN UART_NAME O_WRONLY 0) (\<lambda>fd.
     bnd (ALT_WRITE fd data (int (length data))) (\<lambda>r.
     bnd (ALT_CLOSE fd) (\<lambda>c. ret (r, c)))))"

section \<open>The device writes to a stream\<close>

text \<open>
  The board's UART in use: what waits in its ring is served, and all bytes stored to the transmitter
  since start-up are on the line.
\<close>

definition board_uart :: "uart \<Rightarrow> bool" where
  "board_uart w \<longleftrightarrow> uart_ok w \<and> sp_base w = UART_BASE \<and> sp_flags w = ALT_AVALON_UART_FB \<and> tx_served w \<and>
     sends False UART_BASE [] (uart_hist w)"

lemma board_live: "board_uart w \<Longrightarrow> tx_live env w = tx_serves env UART_BASE"
  by (simp add: board_uart_def tx_live_def ALT_AVALON_UART_FB_def ALT_AVALON_UART_FC_def)

lemma board_line:
  assumes "board_uart w" "sends False UART_BASE (uart_hist w) h" "tx_out UART_BASE h = data"
  shows "line_out UART_BASE h = data \<or> cts_seen UART_BASE h"
proof -
  have "sends False UART_BASE [] h" using assms(1,2) by (auto simp: board_uart_def intro: sends_trans)
  from sends_line [OF this, of data] assms(3) show ?thesis by (simp add: line_out_def)
qed

interpretation uart_dev: stream_device altera_avalon_uart_write_fd board_uart tx_stream
  "\<lambda>env. tx_serves env UART_BASE"
proof unfold_locales
  fix w :: uart and len and data :: "u8 list" and fd env
  assume "board_uart w" and len: "0 \<le> len" "nat len \<le> length data"
  then have w: "uart_ok w" "sp_base w = UART_BASE" "sp_flags w = ALT_AVALON_UART_FB" "sends False UART_BASE [] (uart_hist w)"
    "tx_live env w = tx_serves env UART_BASE" by (simp_all add: board_uart_def board_live)
  show "wp (altera_avalon_uart_write_fd fd data len) env (\<lambda>v w'. board_uart w' \<and> 0 \<le> fst v \<and> fst v \<le> len \<and>
      tx_stream w' = tx_stream w @ take (nat (fst v)) data \<and> (fst v < len \<longrightarrow> fd_flags fd AND O_NONBLOCK \<noteq> 0))
      (\<lambda>f. f = Hang \<and> \<not> tx_serves env UART_BASE) w"
    unfolding altera_avalon_uart_write_fd_def wp_bnd
    by (rule wp_mono [OF wp_uart_write [OF w(1) len]]) (auto simp: wp_simps board_uart_def w(2-5) tx_served_def line_kept_def intro: sends_trans [OF w(4)])
qed


section \<open>From start-up to the line\<close>

text \<open>The state after \<open>alt_sys_init\<close>: the device is registered in front of the null device.\<close>

definition started :: "uart hal \<Rightarrow> bool" where
  "started s \<longleftrightarrow> pool_ok s \<and> NULL \<in> set (taken s) \<and> (\<forall>d. \<not> device_locked d s) \<and> alt_devs s UART_DEV = uart_device \<and>
     board_uart (drivers s) \<and> tx_stream (drivers s) = [] \<and> llist_of (hal_links s) ALT_DEV_LIST [UART_DEV, ALT_DEV_NULL]"

lemma wp_uart_init:
  assumes "\<And>w. board_uart w \<Longrightarrow> tx_stream w = [] \<Longrightarrow> Q () w"
  shows "wp altera_avalon_uart_init env Q F ALTERA_AVALON_UART_DEV_INSTANCE"
proof -
  let ?c = "UART_CONTROL_RTS_MSK OR UART_CONTROL_RRDY_MSK OR UART_CONTROL_DCTS_MSK"
  let ?w = "ALTERA_AVALON_UART_DEV_INSTANCE\<lparr>sp_ctrl := ?c, uart_hist := [Wr (IOADDR UART_BASE UART_CONTROL) ?c]\<rparr>"
  have "sends False UART_BASE [] [Wr (IOADDR UART_BASE UART_CONTROL) ?c]"
    using sends_silent [of UART_BASE "[Wr (IOADDR UART_BASE UART_CONTROL) ?c]" False "[]"] by simp
  then have "board_uart ?w" "tx_stream ?w = []"
    by (simp_all add: board_uart_def uart_ok_def tx_served_def tx_stream_def tx_queue_def UART_FIXED_BAUD_def
        UART_USE_CTS_RTS_def ALTERA_AVALON_UART_DEV_INSTANCE_def ALT_AVALON_UART_BUF_LEN_def)
  from assms [OF this] show ?thesis
    unfolding altera_avalon_uart_init_def
    by (simp add: wp_simps ALTERA_AVALON_UART_DEV_INSTANCE_def)
qed

lemma wp_alt_sys_init: "(\<And>s. started s \<Longrightarrow> Q () s) \<Longrightarrow> wp alt_sys_init env Q F board_boot"
proof -
  assume Q: "\<And>s. started s \<Longrightarrow> Q () s"
  let ?w = "ALTERA_AVALON_UART_DEV_INSTANCE"
  let ?s = "\<lambda>w. board_boot\<lparr>drivers := w, hal_links := alt_llist_insert ALT_DEV_LIST UART_DEV (hal_links board_boot)\<rparr>"
  have board: "drivers board_boot = ?w" by (simp add: board_boot_def hal_boot_def)
  have l: "llist_of (hal_links board_boot) ALT_DEV_LIST [ALT_DEV_NULL]"
    unfolding board_boot_def by (rule llist_of_boot)
  have n: "dev_name (alt_devs board_boot UART_DEV) = Some UART_NAME" "UART_DEV \<noteq> NULL"
    "alt_devs board_boot UART_DEV = uart_device"
    by (simp_all add: board_boot_def hal_boot_def board_devs_def uart_device_def UART_DEV_def fd_addresses)
  have t: "taken (?s w) = taken board_boot" "alt_fd_list (?s w) = alt_fd_list board_boot" for w
    by (simp_all add: taken_def)
  have "started (?s w)" if "board_uart w" "tx_stream w = []" for w
    unfolding started_def pool_ok_def device_locked_def t
    using that n llist_of_insert [OF l, of UART_DEV] pool_ok_boot [of board_devs ?w] free_boot [of board_devs ?w]
      unlocked_boot [of _ board_devs ?w]
    by (auto simp: board_boot_def pool_ok_def device_locked_def UART_DEV_def fd_addresses)
  then have "Q () (?s w)" if "board_uart w" "tx_stream w = []" for w using Q that by blast
  then show ?thesis using n
    unfolding alt_sys_init_def
    by (auto simp: wp_simps alt_dev_reg_def alt_dev_llist_insert_def board intro!: wp_uart_init)
qed

lemma uart_opened_flags:
  "((O_WRONLY AND NOT ALT_FD_FLAGS_MASK) OR ALT_FD_DEV) AND O_ACCMODE \<noteq> O_RDONLY"
  "((O_WRONLY AND NOT ALT_FD_FLAGS_MASK) OR ALT_FD_DEV) AND O_NONBLOCK = 0"
  by (simp_all add: fd_masks O_NONBLOCK_def)

text \<open>
  C16: from start-up, what a program prints on the device is what goes on the line: when opening,
  writing and closing return, both calls report success and every byte was stored to the transmit
  register, in order and exactly once, each while the transmitter was ready, so that it is on the line
  (\<open>line_out\<close>); the exception is a status that reported a change of the CTS line without a ready
  transmitter, which the board's core, without this line, never does. The program can only hang on a
  transmitter that, with its interrupt enabled, is never served (\<open>tx_serves\<close>).
\<close>

lemma uart_print_delivers:
  "(print_uart data env board_boot = Inl Hang \<and> \<not> tx_serves env UART_BASE) \<or>
   (\<exists>s. print_uart data env board_boot = Inr ((int (length data), 0), s) \<and>
      tx_out UART_BASE (uart_hist (drivers s)) = data \<and>
      (line_out UART_BASE (uart_hist (drivers s)) = data \<or> cts_seen UART_BASE (uart_hist (drivers s))))"
proof -
  let ?D = "\<lambda>w. tx_out UART_BASE (uart_hist w) = data \<and>
    (line_out UART_BASE (uart_hist w) = data \<or> cts_seen UART_BASE (uart_hist w))"
  let ?Q = "\<lambda>v s. v = (int (length data), 0) \<and> ?D (drivers s)"
  have "wp (print_uart data) env ?Q (\<lambda>f. f = Hang \<and> \<not> tx_serves env UART_BASE) board_boot"
    unfolding print_uart_def wp_bnd
  proof (rule wp_alt_sys_init)
    fix s :: "uart hal"
    assume s: "started s"
    have f: "alt_find_dev UART_NAME ALT_DEV_LIST env s = Inr (UART_DEV, s)"
      using alt_find_dev_list [of s ALT_DEV_LIST "[UART_DEV, ALT_DEV_NULL]" UART_NAME env] s
      by (simp add: started_def uart_device_def)
    obtain i where i: "find (\<lambda>i. fd_dev (alt_fd_list s ! i) = NULL) [0..<ALT_MAX_FD] = Some i"
      using find_free_ex s unfolding started_def by blast
    note fi = find_free [OF i]
    let ?o = "opened i UART_DEV O_WRONLY s"
    have pk: "pool_ok s" using s by (simp add: started_def)
    then have "length (alt_fd_list s) = ALT_MAX_FD" by (simp add: pool_ok_def length_taken)
    then have n: "i < length (alt_fd_list s)" using fi [OF pk] by simp
    have dev: "alt_devs s UART_DEV = uart_device" using s by (simp add: started_def)
    have e: "alt_fd_list ?o ! i = (alt_fd_list s ! i)\<lparr>fd_dev := UART_DEV, fd_flags := (O_WRONLY AND NOT ALT_FD_FLAGS_MASK) OR ALT_FD_DEV\<rparr>"
      using n by (rule opened_simps(3))
    have o: "i < length (alt_fd_list ?o)" "fd_dev (alt_fd_list ?o ! i) = UART_DEV" "alt_devs ?o UART_DEV = uart_device"
      using n by (simp_all add: opened_simps(4,5) dev e)
    have fl: "fd_flags (alt_fd_list ?o ! i) AND O_ACCMODE \<noteq> O_RDONLY" "fd_flags (alt_fd_list ?o ! i) AND O_NONBLOCK = 0"
      by (simp_all add: e uart_opened_flags)
    show "wp (ALT_OPEN UART_NAME O_WRONLY 0) env (\<lambda>fd. wp (ALT_WRITE fd data (int (length data))) env
        (\<lambda>r. wp (ALT_CLOSE fd) env (\<lambda>c. wp (ret (r, c)) env ?Q (\<lambda>f. f = Hang \<and> \<not> tx_serves env UART_BASE)) (\<lambda>f. f = Hang \<and> \<not> tx_serves env UART_BASE)) (\<lambda>f. f = Hang \<and> \<not> tx_serves env UART_BASE)) (\<lambda>f. f = Hang \<and> \<not> tx_serves env UART_BASE) s"
    proof (rule wp_ALT_OPEN [OF _ _ f _ i])
      show "wp (ALT_WRITE (int i) data (int (length data))) env
        (\<lambda>r. wp (ALT_CLOSE (int i)) env (\<lambda>c. wp (ret (r, c)) env ?Q (\<lambda>f. f = Hang \<and> \<not> tx_serves env UART_BASE)) (\<lambda>f. f = Hang \<and> \<not> tx_serves env UART_BASE)) (\<lambda>f. f = Hang \<and> \<not> tx_serves env UART_BASE) ?o"
      proof (rule wp_mono [OF uart_dev.write_call])
        fix r t
        assume t: "board_uart (drivers t) \<and> same_fds ?o t \<and> 0 \<le> r \<and> r \<le> int (length data) \<and>
          tx_stream (drivers t) = tx_stream (drivers ?o) @ take (nat r) data \<and>
          (r < int (length data) \<longrightarrow> fd_flags (alt_fd_list ?o ! i) AND O_NONBLOCK \<noteq> 0)"
        then have r: "r = int (length data)" "tx_stream (drivers t) = data" "board_uart (drivers t)"
          using fl(2) s by (auto simp: started_def opened_simps)
        have sf: "same_fds ?o t" using t by blast
        note d = same_fds_nth [OF sf o(1)]
        have "wp (altera_avalon_uart_close (fd_flags (alt_fd_list t ! i))) env
            (\<lambda>v w. v = 0 \<and> ?D w) (\<lambda>f. f = Hang \<and> \<not> tx_serves env UART_BASE) (drivers t)"
          by (rule wp_mono [OF wp_uart_close]) (use r fl(2) d board_live [OF r(3)] board_line [OF r(3)] in \<open>auto simp: board_uart_def line_kept_def\<close>)
        then show "wp (ALT_CLOSE (int i)) env (\<lambda>c. wp (ret (r, c)) env ?Q (\<lambda>f. f = Hang \<and> \<not> tx_serves env UART_BASE)) (\<lambda>f. f = Hang \<and> \<not> tx_serves env UART_BASE) t"
          unfolding ALT_CLOSE_def using d o fl r(1)
          by (auto simp: wp_simps fd_index_def fd_device_def uart_device_def altera_avalon_uart_close_fd_def
              alt_release_fd_def update_fd_def UART_DEV_def NULL_def elim!: wp_mono)
      qed (use o fl s in \<open>simp_all add: opened_simps(6) started_def uart_device_def UART_DEV_def NULL_def\<close>)
    qed (use s in \<open>simp_all add: started_def uart_device_def UART_DEV_def NULL_def\<close>)
  qed
  then show ?thesis by (auto simp: wp_def split: sum.splits)
qed

text \<open>On a transmitter that is busy for a while after every byte the program returns.\<close>

lemma uart_print_delivers_witness:
  "\<exists>s. print_uart [72, 105] (slow_uart 100 UART_BASE) board_boot = Inr ((2, 0), s) \<and>
     tx_out UART_BASE (uart_hist (drivers s)) = [72, 105]"
proof -
  have "tx_serves (slow_uart 100 UART_BASE) UART_BASE"
    by (rule slow_uart_serves) (simp add: IPENDING_def IOADDR_def address_map)
  with uart_print_delivers [of "[72, 105]" "slow_uart 100 UART_BASE"] show ?thesis by auto
qed

end
