(* ===== verification/Irq.thy ===== *)
theory Irq
  imports Uart_Calls
begin

text \<open>
  The interrupt controller of the processor and the HAL's dispatcher, \<^verbatim>\<open>HAL/inc/sys/alt_irq.h\<close>,
  \<^verbatim>\<open>HAL/inc/priv/alt_legacy_irq.h\<close>, \<^verbatim>\<open>HAL/src/alt_iic.c\<close>, \<^verbatim>\<open>alt_iic_isr_register.c\<close>,
  \<^verbatim>\<open>alt_irq_register.c\<close>, \<^verbatim>\<open>alt_irq_handler.c\<close>, \<^verbatim>\<open>altera_nios2_gen2_irq.c\<close>: the table of handlers, the
  enable mask and the global enable, the registration of a handler, and the loop that calls the
  handlers of the pending interrupts. A handler is a program on the drivers' state \<open>'w\<close> with its
  context applied; \<open>None\<close> is a null pointer, calling it is out of bounds.
\<close>

section \<open>State\<close>

definition ALT_NIRQ :: nat where "ALT_NIRQ = 32"
definition NIOS2_STATUS_PIE_MSK :: u32 where "NIOS2_STATUS_PIE_MSK = 1"
definition IRQ_EINVAL :: int where "IRQ_EINVAL = 22"

record 'w cpu =
  cpu_status :: u32
  cpu_ienable :: u32
  alt_irq_active :: u32
  alt_priority_mask :: u32
  alt_irq :: "('w, unit) prog option list"
  cpu_drivers :: 'w

definition cpu_reset :: "'w \<Rightarrow> 'w cpu" where
  "cpu_reset w = \<lparr>cpu_status = 0, cpu_ienable = 0, alt_irq_active = 0, alt_priority_mask = -1,
     alt_irq = replicate ALT_NIRQ None, cpu_drivers = w\<rparr>"

definition on_cpu :: "('w, 'a) prog \<Rightarrow> ('w cpu, 'a) prog" where
  "on_cpu m = (\<lambda>env s. case m env (cpu_drivers s) of
     Inl f \<Rightarrow> Inl f | Inr (a, w) \<Rightarrow> Inr (a, s\<lparr>cpu_drivers := w\<rparr>))"

lemma wp_on_cpu [wp_simps]:
  "wp (on_cpu m) env Q F s = wp m env (\<lambda>a w. Q a (s\<lparr>cpu_drivers := w\<rparr>)) F (cpu_drivers s)"
  by (auto simp: wp_def on_cpu_def split: sum.splits prod.splits)

section \<open>The enable bits\<close>

definition NIOS2_READ_STATUS :: "('w cpu, u32) prog" where
  "NIOS2_READ_STATUS = gets cpu_status"

definition NIOS2_WRITE_STATUS :: "u32 \<Rightarrow> ('w cpu, unit) prog" where
  "NIOS2_WRITE_STATUS v = modify (\<lambda>s. s\<lparr>cpu_status := v\<rparr>)"

definition NIOS2_READ_IENABLE :: "('w cpu, u32) prog" where
  "NIOS2_READ_IENABLE = gets cpu_ienable"

definition NIOS2_WRITE_IENABLE :: "u32 \<Rightarrow> ('w cpu, unit) prog" where
  "NIOS2_WRITE_IENABLE v = modify (\<lambda>s. s\<lparr>cpu_ienable := v\<rparr>)"

definition alt_irq_enabled :: "('w cpu, u32) prog" where
  "alt_irq_enabled = bnd NIOS2_READ_STATUS (\<lambda>status. ret (status AND NIOS2_STATUS_PIE_MSK))"

definition alt_irq_disable_all :: "('w cpu, u32) prog" where
  "alt_irq_disable_all =
     bnd NIOS2_READ_STATUS (\<lambda>context.
     bnd (NIOS2_WRITE_STATUS (context AND NOT NIOS2_STATUS_PIE_MSK)) (\<lambda>_.
     ret context))"

text \<open>The processor has none of the options that would add bits to the status register.\<close>

definition alt_irq_enable_all :: "u32 \<Rightarrow> ('w cpu, unit) prog" where
  "alt_irq_enable_all context = NIOS2_WRITE_STATUS context"

definition alt_irq_cpu_enable_interrupts :: "('w cpu, unit) prog" where
  "alt_irq_cpu_enable_interrupts = NIOS2_WRITE_STATUS NIOS2_STATUS_PIE_MSK"

definition altera_nios2_gen2_irq_init :: "('w cpu, unit) prog" where
  "altera_nios2_gen2_irq_init = NIOS2_WRITE_IENABLE 0"

definition alt_irq_init :: "('w cpu, unit) prog" where
  "alt_irq_init = seqs [altera_nios2_gen2_irq_init, alt_irq_cpu_enable_interrupts]"

text \<open>\<open>1 << id\<close>; shifting by the width or more is undefined.\<close>

definition irq_bit :: "u32 \<Rightarrow> ('w cpu, u32) prog" where
  "irq_bit id' = (if unat id' < 32 then ret (push_bit (unat id') 1) else fail OutOfBounds)"

definition alt_irq_disable :: "u32 \<Rightarrow> ('w cpu, int) prog" where
  "alt_irq_disable id' =
     bnd alt_irq_disable_all (\<lambda>status.
     bnd (irq_bit id') (\<lambda>m.
     bnd (modify (\<lambda>s. s\<lparr>alt_irq_active := alt_irq_active s AND NOT m\<rparr>)) (\<lambda>_.
     bnd (gets alt_irq_active) (\<lambda>active.
     bnd (NIOS2_WRITE_IENABLE active) (\<lambda>_.
     bnd (alt_irq_enable_all status) (\<lambda>_. ret 0))))))"

definition alt_irq_enable :: "u32 \<Rightarrow> ('w cpu, int) prog" where
  "alt_irq_enable id' =
     bnd alt_irq_disable_all (\<lambda>status.
     bnd (irq_bit id') (\<lambda>m.
     bnd (modify (\<lambda>s. s\<lparr>alt_irq_active := alt_irq_active s OR m\<rparr>)) (\<lambda>_.
     bnd (gets alt_irq_active) (\<lambda>active.
     bnd (NIOS2_WRITE_IENABLE active) (\<lambda>_.
     bnd (alt_irq_enable_all status) (\<lambda>_. ret 0))))))"

text \<open>The pair a handler may use to let interrupts of a higher priority in.\<close>

definition alt_irq_interruptible :: "u32 \<Rightarrow> ('w cpu, u32) prog" where
  "alt_irq_interruptible priority =
     bnd (gets alt_priority_mask) (\<lambda>old.
     bnd (irq_bit priority) (\<lambda>m.
     bnd (modify (\<lambda>s. s\<lparr>alt_priority_mask := m - 1\<rparr>)) (\<lambda>_.
     bnd (gets (\<lambda>s. alt_irq_active s AND alt_priority_mask s)) (\<lambda>v.
     bnd (NIOS2_WRITE_IENABLE v) (\<lambda>_.
     bnd (NIOS2_WRITE_STATUS 1) (\<lambda>_. ret old))))))"

definition alt_irq_non_interruptible :: "u32 \<Rightarrow> ('w cpu, unit) prog" where
  "alt_irq_non_interruptible prio = seqs
     [NIOS2_WRITE_STATUS 0,
      modify (\<lambda>s. s\<lparr>alt_priority_mask := prio\<rparr>),
      bnd (gets (\<lambda>s. prio AND alt_irq_active s)) NIOS2_WRITE_IENABLE]"

definition alt_ic_irq_enable :: "u32 \<Rightarrow> u32 \<Rightarrow> ('w cpu, int) prog" where
  "alt_ic_irq_enable ic_id irq = alt_irq_enable irq"

definition alt_ic_irq_disable :: "u32 \<Rightarrow> u32 \<Rightarrow> ('w cpu, int) prog" where
  "alt_ic_irq_disable ic_id irq = alt_irq_disable irq"

definition alt_ic_irq_enabled :: "u32 \<Rightarrow> u32 \<Rightarrow> ('w cpu, u32) prog" where
  "alt_ic_irq_enabled ic_id irq =
     bnd NIOS2_READ_IENABLE (\<lambda>irq_enabled.
     bnd (irq_bit irq) (\<lambda>m. ret (if irq_enabled AND m \<noteq> 0 then 1 else 0)))"

section \<open>Registration\<close>

definition irq_table_set :: "nat \<Rightarrow> ('w, unit) prog option \<Rightarrow> ('w cpu, unit) prog" where
  "irq_table_set i h =
     bnd (gets (\<lambda>s. i < length (alt_irq s))) (\<lambda>inside.
     if inside then modify (\<lambda>s. s\<lparr>alt_irq := (alt_irq s)[i := h]\<rparr>) else fail OutOfBounds)"

text \<open>
  The number is compared as a signed integer: one with the top bit set passes the check and indexes
  the table from below.
\<close>

definition alt_iic_isr_register :: "u32 \<Rightarrow> u32 \<Rightarrow> ('w, unit) prog option \<Rightarrow> ('w cpu, int) prog" where
  "alt_iic_isr_register ic_id irq isr =
     (if sint irq < int ALT_NIRQ then
        bnd alt_irq_disable_all (\<lambda>status.
        bnd (irq_table_set (unat irq) isr) (\<lambda>_.
        bnd (if isr \<noteq> None then alt_ic_irq_enable ic_id irq else alt_ic_irq_disable ic_id irq) (\<lambda>rc.
        bnd (alt_irq_enable_all status) (\<lambda>_. ret rc))))
      else ret (- IRQ_EINVAL))"

definition alt_ic_isr_register :: "u32 \<Rightarrow> u32 \<Rightarrow> ('w, unit) prog option \<Rightarrow> ('w cpu, int) prog" where
  "alt_ic_isr_register ic_id irq isr = alt_iic_isr_register ic_id irq isr"

definition alt_irq_register :: "u32 \<Rightarrow> ('w, unit) prog option \<Rightarrow> ('w cpu, int) prog" where
  "alt_irq_register id' handler =
     (if unat id' < ALT_NIRQ then
        bnd alt_irq_disable_all (\<lambda>status.
        bnd (irq_table_set (unat id') handler) (\<lambda>_.
        bnd (if handler \<noteq> None then alt_irq_enable id' else alt_irq_disable id') (\<lambda>rc.
        bnd (alt_irq_enable_all status) (\<lambda>_. ret rc))))
      else ret (- IRQ_EINVAL))"

section \<open>Dispatching\<close>

text \<open>
  \<open>lines\<close> gives the levels of the interrupt inputs; the pending register shows those enabled.
\<close>

type_synonym 'w lines = "env \<Rightarrow> 'w \<Rightarrow> u32"

definition alt_irq_pending :: "'w lines \<Rightarrow> ('w cpu, u32) prog" where
  "alt_irq_pending lines = (\<lambda>env s. Inr (lines env (cpu_drivers s) AND cpu_ienable s, s))"

text \<open>
  One call: the handler of the lowest set bit. With no bit set the scan never ends, as its mask
  has been shifted out.
\<close>

definition irq_scan :: "u32 \<Rightarrow> nat option" where
  "irq_scan active = find (\<lambda>i. active AND push_bit i 1 \<noteq> 0) [0..<32]"

definition irq_call :: "nat \<Rightarrow> ('w cpu, unit) prog" where
  "irq_call i =
     bnd (gets (\<lambda>s. if i < length (alt_irq s) then alt_irq s ! i else None)) (\<lambda>h.
     case h of None \<Rightarrow> fail OutOfBounds | Some m \<Rightarrow> on_cpu m)"

partial_function (option) irq_loop :: "'w lines \<Rightarrow> u32 \<Rightarrow> env \<Rightarrow> 'w cpu \<Rightarrow> (fault + unit \<times> 'w cpu) option" where
  "irq_loop lines active env s =
     (case irq_scan active of
        None \<Rightarrow> None
      | Some i \<Rightarrow>
          (case bnd (irq_call i) (\<lambda>_. alt_irq_pending lines) env s of
             Inl f \<Rightarrow> Some (Inl f)
           | Inr r \<Rightarrow>
               (if fst r = 0 then Some (Inr ((), snd r)) else irq_loop lines (fst r) env (snd r))))"

definition alt_irq_handler :: "'w lines \<Rightarrow> ('w cpu, unit) prog" where
  "alt_irq_handler lines =
     bnd (alt_irq_pending lines) (\<lambda>active.
     (\<lambda>env s. case irq_loop lines active env s of None \<Rightarrow> Inl Hang | Some r \<Rightarrow> r))"

end
