(* ===== verification/Irq_Calls.thy ===== *)
theory Irq_Calls
  imports Irq
begin

text \<open>
  The properties of the interrupt controller: registration keeps the table and the enable mask
  together, and the dispatcher, with the UART's handler registered, runs this handler and nothing
  else until the line is down.
\<close>

section \<open>Registration\<close>

text \<open>Exactly the interrupts with a handler are enabled.\<close>

definition irq_ok :: "'w cpu \<Rightarrow> bool" where
  "irq_ok s \<longleftrightarrow> length (alt_irq s) = 32 \<and> cpu_ienable s = alt_irq_active s \<and>
     (\<forall>i < 32. bit (alt_irq_active s) i \<longleftrightarrow> alt_irq s ! i \<noteq> None)"

lemma wp_status [wp_simps]:
  "wp NIOS2_READ_STATUS env R F s = R (cpu_status s) s"
  "wp (NIOS2_WRITE_STATUS v) env Q F s = Q () (s\<lparr>cpu_status := v\<rparr>)"
  "wp NIOS2_READ_IENABLE env R F s = R (cpu_ienable s) s"
  "wp (NIOS2_WRITE_IENABLE v) env Q F s = Q () (s\<lparr>cpu_ienable := v\<rparr>)"
  by (simp_all add: NIOS2_READ_STATUS_def NIOS2_WRITE_STATUS_def NIOS2_READ_IENABLE_def NIOS2_WRITE_IENABLE_def wp_simps)

lemma wp_irq_all [wp_simps]:
  "wp alt_irq_disable_all env R F s = R (cpu_status s) (s\<lparr>cpu_status := cpu_status s AND NOT NIOS2_STATUS_PIE_MSK\<rparr>)"
  "wp (alt_irq_enable_all v) env Q F s = Q () (s\<lparr>cpu_status := v\<rparr>)"
  by (simp_all add: alt_irq_disable_all_def alt_irq_enable_all_def wp_simps)

lemma wp_irq_bit [wp_simps]:
  "wp (irq_bit i) env R F s = (if unat i < 32 then R (push_bit (unat i) 1) s else F OutOfBounds)"
  by (simp add: irq_bit_def wp_simps)

lemma wp_alt_irq_enable:
  assumes "unat i < 32" "Q 0 (s\<lparr>alt_irq_active := alt_irq_active s OR push_bit (unat i) 1,
     cpu_ienable := alt_irq_active s OR push_bit (unat i) 1\<rparr>)"
  shows "wp (alt_irq_enable i) env Q F s"
proof -
  have "s\<lparr>cpu_status := cpu_status s\<rparr> = s" by simp
  with assms show ?thesis by (cases s) (simp add: alt_irq_enable_def wp_simps)
qed

lemma wp_alt_irq_disable:
  assumes "unat i < 32" "Q 0 (s\<lparr>alt_irq_active := alt_irq_active s AND NOT (push_bit (unat i) 1),
     cpu_ienable := alt_irq_active s AND NOT (push_bit (unat i) 1)\<rparr>)"
  shows "wp (alt_irq_disable i) env Q F s"
  using assms by (cases s) (simp add: alt_irq_disable_def wp_simps)

lemma sint_small:
  assumes "unat (i :: u32) < 32"
  shows "sint i < 32"
proof -
  have "sint i = int (unat i)" by (rule sint_pos) (use assms in simp)
  with assms show ?thesis by linarith
qed

lemma irq_ok_set:
  assumes "irq_ok s" "n < 32" "alt_irq s' = (alt_irq s)[n := h]" "cpu_ienable s' = alt_irq_active s'"
    and "alt_irq_active s' = (if h = None then alt_irq_active s AND NOT (2 ^ n) else alt_irq_active s OR 2 ^ n)"
  shows "irq_ok s'"
proof -
  have "bit (alt_irq_active s') j \<longleftrightarrow> (if j = n then h \<noteq> None else bit (alt_irq_active s) j)" if "j < 32" for j
    using that assms(2,5) by (auto simp: bit_simps bit_exp_iff)
  with assms show ?thesis by (auto simp: irq_ok_def nth_list_update)
qed

lemma wp_register:
  assumes "irq_ok s" "unat i < 32"
  shows "wp (alt_ic_isr_register c i h) env
     (\<lambda>rc s'. rc = 0 \<and> irq_ok s' \<and> alt_irq s' = (alt_irq s)[unat i := h] \<and> cpu_status s' = cpu_status s \<and>
        cpu_drivers s' = cpu_drivers s) (\<lambda>_. False) s"
proof -
  have l: "unat i < length (alt_irq s)" using assms by (simp add: irq_ok_def)
  note set = irq_ok_set [OF assms(1)]
  show ?thesis
    using assms(2) sint_small [OF assms(2)] l
    by (cases h) (use set in \<open>auto simp: wp_simps irq_table_set_def alt_ic_irq_enable_def alt_ic_irq_disable_def
        alt_ic_isr_register_def alt_iic_isr_register_def ALT_NIRQ_def intro!: wp_alt_irq_enable wp_alt_irq_disable\<close>)
qed

text \<open>
  From start-up, any sequence of registrations leaves interrupts on and exactly those enabled
  whose last registration gave a handler; the table holds the handlers registered last.
\<close>

lemma irq_registration:
  assumes "\<forall>r \<in> set regs. unat (fst r) < 32"
  shows "\<exists>s. bnd alt_irq_init (\<lambda>_. each regs (\<lambda>r. void (alt_ic_isr_register 0 (fst r) (snd r)))) env (cpu_reset w) = Inr ((), s) \<and>
     cpu_status s = NIOS2_STATUS_PIE_MSK \<and> cpu_drivers s = w \<and>
     alt_irq s = foldl (\<lambda>t r. t[unat (fst r) := snd r]) (replicate 32 None) regs \<and>
     (\<forall>i. i < 32 \<longrightarrow> bit (cpu_ienable s) i = (alt_irq s ! i \<noteq> None))"
proof -
  let ?T = "foldl (\<lambda>t r. t[unat (fst r) := snd r]) (replicate 32 None)"
  let ?s = "(cpu_reset w)\<lparr>cpu_ienable := 0, cpu_status := NIOS2_STATUS_PIE_MSK\<rparr>"
  let ?I = "\<lambda>ys s. irq_ok s \<and> cpu_status s = NIOS2_STATUS_PIE_MSK \<and> cpu_drivers s = w \<and> alt_irq s = ?T ys"
  have "wp (each regs (\<lambda>r. void (alt_ic_isr_register 0 (fst r) (snd r)))) env (\<lambda>_. ?I regs) (\<lambda>_. False) ?s"
  proof (rule wp_each [where I = ?I])
    fix ys x zs s
    assume x: "regs = ys @ x # zs" and I: "?I ys s"
    with assms have "unat (fst x) < 32" by simp
    from wp_register [OF conjunct1 [OF I] this]
    show "wp (void (alt_ic_isr_register 0 (fst x) (snd x))) env (\<lambda>_. ?I (ys @ [x])) (\<lambda>_. False) s"
      unfolding wp_void by (rule wp_mono) (use I in auto)
  qed (simp add: cpu_reset_def irq_ok_def ALT_NIRQ_def, assumption)
  then have "wp (bnd alt_irq_init (\<lambda>_. each regs (\<lambda>r. void (alt_ic_isr_register 0 (fst r) (snd r))))) env
      (\<lambda>_. ?I regs) (\<lambda>_. False) (cpu_reset w)"
    by (simp add: wp_simps alt_irq_init_def altera_nios2_gen2_irq_init_def alt_irq_cpu_enable_interrupts_def)
  from wp_unitD [OF this] obtain s where
    "bnd alt_irq_init (\<lambda>_. each regs (\<lambda>r. void (alt_ic_isr_register 0 (fst r) (snd r)))) env (cpu_reset w) = Inr ((), s)"
    "?I regs s" by blast
  then show ?thesis by (intro exI [of _ s]) (simp add: irq_ok_def)
qed

lemma irq_registration_witness:
  "\<exists>s. bnd alt_irq_init (\<lambda>_. each [(1, Some (ret ())), (4, Some (ret ())), (1, None)]
        (\<lambda>r. void (alt_ic_isr_register 0 (fst r) (snd r)))) (\<lambda>_ _. 0) (cpu_reset ()) = Inr ((), s) \<and>
     bit (cpu_ienable s) 4 \<and> \<not> bit (cpu_ienable s) 1"
  using irq_registration [of "[(1, Some (ret ())), (4, Some (ret ())), (1, None)]" "\<lambda>_ _. 0" "()"]
  by auto

section \<open>Dispatching\<close>

text \<open>The start-up of the one interrupt-driven device of the board.\<close>

definition irq_start :: "(uart cpu, unit) prog" where
  "irq_start = seqs
     [alt_irq_init, on_cpu altera_avalon_uart_init,
      void (alt_ic_isr_register 0 (of_nat UART_IRQ) (Some altera_avalon_uart_irq))]"

definition uart_only :: "uart cpu \<Rightarrow> bool" where
  "uart_only s \<longleftrightarrow> irq_ok s \<and> alt_irq s = (replicate 32 None)[UART_IRQ := Some altera_avalon_uart_irq] \<and> uart_ok (cpu_drivers s)"

lemma each_const: "length xs = length ys \<Longrightarrow> each xs (\<lambda>_. m) = each ys (\<lambda>_. m)"
  by (induction xs ys rule: list_induct2) simp_all

lemma irq_scan_set: "irq_scan active = Some i \<Longrightarrow> i < 32 \<and> bit active i"
  by (auto simp: irq_scan_def find_Some_iff push_bit_of_1 and_exp_eq_0_iff_not_bit)


lemma irq_call_uart:
  assumes "uart_only s" "bit (cpu_ienable s) i" "i < 32"
  shows "wp (irq_call i) env (\<lambda>_ t. t = s\<lparr>cpu_drivers := cpu_drivers t\<rparr> \<and> across_irq env (cpu_drivers s) (cpu_drivers t) \<and>
     altera_avalon_uart_irq env (cpu_drivers s) = Inr ((), cpu_drivers t)) (\<lambda>_. False) s"
proof -
  have "alt_irq s ! i \<noteq> None" using assms by (simp add: uart_only_def irq_ok_def)
  then have "i = UART_IRQ" using assms(1,3) by (cases "i = UART_IRQ") (auto simp: uart_only_def)
  then have h: "alt_irq s ! i = Some altera_avalon_uart_irq" "i < length (alt_irq s)"
    using assms(1,3) by (simp_all add: uart_only_def)
  have "uart_ok (cpu_drivers s)" using assms(1) by (simp add: uart_only_def)
  from wp_unitD [OF wp_uart_irq [OF this, of env]] obtain w where
    "altera_avalon_uart_irq env (cpu_drivers s) = Inr ((), w)" "across_irq env (cpu_drivers s) w" by blast
  with h show ?thesis by (simp add: irq_call_def wp_simps wp_result [where m = altera_avalon_uart_irq])
qed

lemma irq_scan_0 [simp]: "irq_scan 0 = None"
  by (simp add: irq_scan_def find_None_iff)

lemma irq_scan_none: "irq_scan active = None \<Longrightarrow> active = 0"
  by (auto simp: irq_scan_def find_None_iff push_bit_of_1 and_exp_eq_0_iff_not_bit intro!: bit_word_eqI)

text \<open>
  What a run of the dispatcher leaves: \<open>n\<close> runs of the handler in a row, nothing else changed, and no
  enabled line up.
\<close>

definition dispatched :: "uart lines \<Rightarrow> env \<Rightarrow> uart cpu \<Rightarrow> nat \<Rightarrow> uart cpu \<Rightarrow> bool" where
  "dispatched lines env s n t \<longleftrightarrow> t = s\<lparr>cpu_drivers := cpu_drivers t\<rparr> \<and>
     each [0..<n] (\<lambda>_. altera_avalon_uart_irq) env (cpu_drivers s) = Inr ((), cpu_drivers t) \<and>
     lines env (cpu_drivers t) AND cpu_ienable s = 0"

lemma each_Suc: "each [0..<Suc n] (\<lambda>_. m) = bnd m (\<lambda>_. each [0..<n] (\<lambda>_. m))"
proof -
  have "each [0..<Suc n] (\<lambda>_. m) = each (0 # [0..<n]) (\<lambda>_. m)" by (rule each_const) simp
  then show ?thesis by simp
qed

lemma uart_only_drivers: "uart_only s \<Longrightarrow> uart_ok w \<Longrightarrow> uart_only (s\<lparr>cpu_drivers := w\<rparr>)"
  by (simp add: uart_only_def irq_ok_def)

text \<open>One round of the dispatcher's loop.\<close>

lemma irq_round:
  assumes "uart_only s" "active AND cpu_ienable s = active" "active \<noteq> 0"
  obtains i w where "irq_scan active = Some i" "altera_avalon_uart_irq env (cpu_drivers s) = Inr ((), w)"
    "uart_only (s\<lparr>cpu_drivers := w\<rparr>)"
    "\<And>lines. bnd (irq_call i) (\<lambda>_. alt_irq_pending lines) env s = Inr (lines env w AND cpu_ienable s, s\<lparr>cpu_drivers := w\<rparr>)"
proof -
  obtain i where i: "irq_scan active = Some i" using irq_scan_none assms(3) by (cases "irq_scan active") auto
  from irq_scan_set [OF i] have "bit (active AND cpu_ienable s) i" and lt: "i < 32" using assms(2) by simp_all
  then have "bit (cpu_ienable s) i" by (simp add: bit_simps)
  from wp_unitD [OF irq_call_uart [OF assms(1) this lt, of env]] obtain u where
    u: "irq_call i env s = Inr ((), u)" "u = s\<lparr>cpu_drivers := cpu_drivers u\<rparr>" "across_irq env (cpu_drivers s) (cpu_drivers u)"
      "altera_avalon_uart_irq env (cpu_drivers s) = Inr ((), cpu_drivers u)" by blast
  define w where "w = cpu_drivers u"
  have "irq_call i env s = Inr ((), s\<lparr>cpu_drivers := w\<rparr>)" using u(1,2) by (simp add: w_def)
  then show thesis
    using that [of i w] i u(3,4) uart_only_drivers [OF assms(1) across_irq_ok [OF u(3)]]
    by (simp add: bnd_def alt_irq_pending_def w_def)
qed

lemma dispatched_Suc:
  assumes "altera_avalon_uart_irq env (cpu_drivers s) = Inr ((), w)" "dispatched lines env (s\<lparr>cpu_drivers := w\<rparr>) n t"
  shows "dispatched lines env s (Suc n) t"
proof -
  have "t = s\<lparr>cpu_drivers := cpu_drivers t\<rparr>" using assms(2) by (cases s) (simp add: dispatched_def)
  then show ?thesis using assms by (simp add: dispatched_def each_Suc bnd_def del: upt_Suc)
qed

lemma irq_loop_result:
  assumes "irq_loop lines active env s = Some r" "uart_only s" "active AND cpu_ienable s = active"
  shows "\<exists>n t. r = Inr ((), t) \<and> 0 < n \<and> dispatched lines env s n t"
proof -
  let ?P = "\<lambda>lines active env s r. uart_only s \<longrightarrow> active AND cpu_ienable s = active \<longrightarrow>
      (\<exists>n t. r = Inr ((), t) \<and> 0 < n \<and> dispatched lines env s n t)"
  have "?P lines active env s r"
  proof (rule irq_loop.raw_induct [where P = ?P, OF _ assms(1)], intro impI)
    fix loop lines active env s r
    assume IH: "\<And>lines active env s r. loop lines active env s = Some r \<Longrightarrow> ?P lines active env s r"
      and eq: "(case irq_scan active of None \<Rightarrow> None
        | Some i \<Rightarrow> (case bnd (irq_call i) (\<lambda>_. alt_irq_pending lines) env s of
            Inl f \<Rightarrow> Some (Inl f)
          | Inr r \<Rightarrow> (if fst r = 0 then Some (Inr ((), snd r)) else loop lines (fst r) env (snd r)))) = Some r"
      and s: "uart_only s" and a: "active AND cpu_ienable s = active"
    have "active \<noteq> 0" using eq by (auto simp: irq_scan_0)
    from irq_round [OF s a this, of env] obtain i w where w: "irq_scan active = Some i"
      "altera_avalon_uart_irq env (cpu_drivers s) = Inr ((), w)" "uart_only (s\<lparr>cpu_drivers := w\<rparr>)"
      "bnd (irq_call i) (\<lambda>_. alt_irq_pending lines) env s = Inr (lines env w AND cpu_ienable s, s\<lparr>cpu_drivers := w\<rparr>)" by metis
    show "\<exists>n t. r = Inr ((), t) \<and> 0 < n \<and> dispatched lines env s n t"
    proof (cases "lines env w AND cpu_ienable s = 0")
      case True
      then have "dispatched lines env (s\<lparr>cpu_drivers := w\<rparr>) 0 (s\<lparr>cpu_drivers := w\<rparr>)" by (simp add: dispatched_def ret_def)
      from dispatched_Suc [OF w(2) this] eq w(1,4) True show ?thesis by auto
    next
      case False
      with eq w have "loop lines (lines env w AND cpu_ienable s) env (s\<lparr>cpu_drivers := w\<rparr>) = Some r" by simp
      from IH [OF this] w(3) obtain n t where "r = Inr ((), t)" "dispatched lines env (s\<lparr>cpu_drivers := w\<rparr>) n t"
        by (auto simp: ac_simps)
      with dispatched_Suc [OF w(2)] show ?thesis by blast
    qed
  qed
  with assms(2,3) show ?thesis by blast
qed

lemma irq_loop_returns:
  assumes "dispatched lines env s (Suc k) t" "uart_only s" "active AND cpu_ienable s = active" "active \<noteq> 0"
  shows "irq_loop lines active env s \<noteq> None"
  using assms
proof (induction k arbitrary: s active)
  case (0 s active)
  from irq_round [OF 0(2-4), of env] obtain i w where "irq_scan active = Some i"
    "altera_avalon_uart_irq env (cpu_drivers s) = Inr ((), w)"
    "bnd (irq_call i) (\<lambda>_. alt_irq_pending lines) env s = Inr (lines env w AND cpu_ienable s, s\<lparr>cpu_drivers := w\<rparr>)" by metis
  with 0(1) show ?case by (subst irq_loop.simps) (auto simp: dispatched_def bnd_def ret_def)
next
  case (Suc k s active)
  from irq_round [OF Suc.prems(2-4), of env] obtain i w where w: "irq_scan active = Some i"
    "altera_avalon_uart_irq env (cpu_drivers s) = Inr ((), w)" "uart_only (s\<lparr>cpu_drivers := w\<rparr>)"
    "bnd (irq_call i) (\<lambda>_. alt_irq_pending lines) env s = Inr (lines env w AND cpu_ienable s, s\<lparr>cpu_drivers := w\<rparr>)" by metis
  have "dispatched lines env (s\<lparr>cpu_drivers := w\<rparr>) (Suc k) t"
    using Suc.prems(1) w(2) unfolding dispatched_def each_Suc [of "Suc k"] by (cases s) (simp add: bnd_def del: upt_Suc)
  from Suc.IH [OF this w(3), of "lines env w AND cpu_ienable s"] w(1,4)
  show ?case by (subst irq_loop.simps) (auto simp: ac_simps)
qed

text \<open>
  C30: after start-up the UART's interrupt is enabled, and the dispatcher calls the UART's handler and
  nothing else: when it returns, the
  handler has run a number of times in a row and no enabled line is up any more, which is what the
  foreground's calls assume of an interrupt; it never calls a null pointer, and it fails to return
  only when entered without a pending interrupt or when the line never goes down.
\<close>

lemma irq_dispatch:
  assumes "uart_ok w"
  shows "\<exists>s. irq_start env (cpu_reset w) = Inr ((), s) \<and> bit (cpu_ienable s) UART_IRQ \<and>
     ((\<exists>n t. alt_irq_handler lines env s = Inr ((), t) \<and> 0 < n \<and> dispatched lines env s n t) \<or>
      (alt_irq_handler lines env s = Inl Hang \<and>
        (lines env (cpu_drivers s) AND cpu_ienable s = 0 \<or> (\<nexists>n t. 0 < n \<and> dispatched lines env s n t))))"
proof -
  let ?r = "cpu_reset w"
  have init: "irq_ok (?r\<lparr>cpu_ienable := 0, cpu_status := NIOS2_STATUS_PIE_MSK, cpu_drivers := v\<rparr>)"
    "alt_irq (?r\<lparr>cpu_ienable := 0, cpu_status := NIOS2_STATUS_PIE_MSK, cpu_drivers := v\<rparr>) = replicate 32 None" for v
    by (simp_all add: irq_ok_def cpu_reset_def ALT_NIRQ_def)
  have irq: "unat (of_nat UART_IRQ :: u32) = UART_IRQ" "unat (of_nat UART_IRQ :: u32) < 32" by (simp_all add: UART_IRQ_def)
  have "wp altera_avalon_uart_init env (\<lambda>_. uart_ok) (\<lambda>_. False) w"
    using assms by (simp add: altera_avalon_uart_init_def wp_simps uart_ok_def)
  moreover have "wp (alt_ic_isr_register 0 (of_nat UART_IRQ) (Some altera_avalon_uart_irq)) env (\<lambda>_. uart_only) (\<lambda>_. False)
      (?r\<lparr>cpu_ienable := 0, cpu_status := NIOS2_STATUS_PIE_MSK, cpu_drivers := v\<rparr>)" if "uart_ok v" for v
    by (rule wp_mono [OF wp_register [OF init(1) irq(2)]]) (use that in \<open>auto simp: uart_only_def irq(1) init(2)\<close>)
  ultimately have "wp irq_start env (\<lambda>_. uart_only) (\<lambda>_. False) ?r"
    unfolding irq_start_def
    by (auto simp: wp_simps alt_irq_init_def altera_nios2_gen2_irq_init_def alt_irq_cpu_enable_interrupts_def cpu_reset_def
        elim!: wp_mono)
  from wp_unitD [OF this] obtain s where s: "irq_start env ?r = Inr ((), s)" "uart_only s" by blast
  have en: "bit (cpu_ienable s) UART_IRQ" using s(2) by (simp add: uart_only_def irq_ok_def UART_IRQ_def)
  let ?a = "lines env (cpu_drivers s) AND cpu_ienable s"
  have a: "?a AND cpu_ienable s = ?a" by (simp add: ac_simps)
  have run: "alt_irq_handler lines env s = (case irq_loop lines ?a env s of None \<Rightarrow> Inl Hang | Some r \<Rightarrow> r)"
    by (simp add: alt_irq_handler_def alt_irq_pending_def bnd_def)
  show ?thesis
  proof (cases "irq_loop lines ?a env s")
    case None
    have "?a = 0" if "0 < n" "dispatched lines env s n t" for n t
      using irq_loop_returns [of lines env s "n - 1" t ?a] that s(2) a None by fastforce
    with None run s(1) en show ?thesis by auto
  next
    case (Some r)
    from irq_loop_result [OF Some s(2) a] run Some s(1) en show ?thesis by auto
  qed
qed


lemma irq_dispatch_witness:
  "\<exists>s. irq_start (\<lambda>_ _. 0) (cpu_reset ALTERA_AVALON_UART_DEV_INSTANCE) = Inr ((), s) \<and>
     alt_irq_handler (\<lambda>_ _. 2) (\<lambda>_ _. 0) s \<noteq> Inl OutOfBounds"
  using irq_dispatch [of ALTERA_AVALON_UART_DEV_INSTANCE "\<lambda>_ _. 0" "\<lambda>_ _. 2"] by auto

text \<open>The signed comparison lets a number with the top bit set through, which is outside the table.\<close>

lemma isr_register_negative:
  assumes "length (alt_irq s) = 32"
  shows "alt_ic_isr_register c 0xFFFFFFFF h env s = Inl OutOfBounds"
  using assms by (simp add: alt_ic_isr_register_def alt_iic_isr_register_def ALT_NIRQ_def alt_irq_disable_all_def
      irq_table_set_def bnd_def NIOS2_READ_STATUS_def NIOS2_WRITE_STATUS_def gets_def modify_def ret_def fail_def)

end
