(* ===== verification/Alarms.thy ===== *)
theory Alarms
  imports Llist
begin

text \<open>
  The HAL's alarms, \<^verbatim>\<open>HAL/src/alt_alarm_start.c\<close>, \<^verbatim>\<open>alt_tick.c\<close> and \<^verbatim>\<open>HAL/inc/sys/alt_alarm.h\<close>: the
  tick counter, the list of registered alarms with their rollover flags, and the tick that runs
  those that are due. A callback is a program on the whole timer state, chosen by the function and
  context stored in the alarm. Interrupts are off where the source disables them; nothing else
  runs in the model at those points either.
\<close>

section \<open>State\<close>

definition ALARM_EINVAL :: int where "ALARM_EINVAL = 22"
definition ALARM_ENOTSUP :: int where "ALARM_ENOTSUP = 134"

record alt_alarm =
  al_time :: u32
  al_callback :: u32
  al_rollover :: u8
  al_context :: u32

record 'w timer =
  alt_tick_rate :: u32
  alt_nticks :: u32
  alarm_links :: llist
  alarms :: "addr \<Rightarrow> alt_alarm"
  tick_drivers :: 'w

text \<open>The address of the list head; only its difference from the alarms' addresses matters.\<close>

definition ALT_ALARM_LIST :: addr where "ALT_ALARM_LIST = 0x8020"

definition timer_boot :: "(addr \<Rightarrow> alt_alarm) \<Rightarrow> 'w \<Rightarrow> 'w timer" where
  "timer_boot al w = \<lparr>alt_tick_rate = 0, alt_nticks = 0,
     alarm_links = ALT_LLIST_HEAD ALT_ALARM_LIST \<lparr>l_next = \<lambda>_. NULL, l_previous = \<lambda>_. NULL\<rparr>,
     alarms = al, tick_drivers = w\<rparr>"

definition update_alarm :: "addr \<Rightarrow> (alt_alarm \<Rightarrow> alt_alarm) \<Rightarrow> ('w timer, unit) prog" where
  "update_alarm a f = modify (\<lambda>s. s\<lparr>alarms := (alarms s)(a := f (alarms s a))\<rparr>)"

section \<open>Operations\<close>

definition alt_ticks_per_second :: "('w timer, u32) prog" where
  "alt_ticks_per_second = gets alt_tick_rate"

definition alt_sysclk_init :: "u32 \<Rightarrow> ('w timer, int) prog" where
  "alt_sysclk_init n =
     bnd (gets alt_tick_rate) (\<lambda>rate.
     if rate = 0 then bnd (modify (\<lambda>s. s\<lparr>alt_tick_rate := n\<rparr>)) (\<lambda>_. ret 0) else ret (-1))"

definition alt_alarm_start :: "addr \<Rightarrow> u32 \<Rightarrow> u32 \<Rightarrow> u32 \<Rightarrow> ('w timer, int) prog" where
  "alt_alarm_start alarm n callback context =
     bnd alt_ticks_per_second (\<lambda>rate.
     if rate \<noteq> 0 then
       if alarm \<noteq> NULL then
         bnd (update_alarm alarm (\<lambda>al. al\<lparr>al_callback := callback, al_context := context\<rparr>)) (\<lambda>_.
         bnd (gets alt_nticks) (\<lambda>current.
         bnd (update_alarm alarm (\<lambda>al. al\<lparr>al_time := n + current + 1\<rparr>)) (\<lambda>_.
         bnd (update_alarm alarm (\<lambda>al. al\<lparr>al_rollover := if al_time al < current then 1 else 0\<rparr>)) (\<lambda>_.
         bnd (modify (\<lambda>s. s\<lparr>alarm_links := alt_llist_insert ALT_ALARM_LIST alarm (alarm_links s)\<rparr>)) (\<lambda>_.
         ret 0)))))
       else ret (- ALARM_EINVAL)
     else ret (- ALARM_ENOTSUP))"

definition alt_alarm_stop :: "addr \<Rightarrow> ('w timer, unit) prog" where
  "alt_alarm_stop alarm = modify (\<lambda>s. s\<lparr>alarm_links := alt_llist_remove alarm (alarm_links s)\<rparr>)"

text \<open>The callbacks: from the function and the context to the program run.\<close>

type_synonym 'w callbacks = "u32 \<Rightarrow> u32 \<Rightarrow> ('w timer, u32) prog"

definition tick_visit :: "'w callbacks \<Rightarrow> addr \<Rightarrow> ('w timer, unit) prog" where
  "tick_visit call alarm =
     bnd (gets (\<lambda>s. al_rollover (alarms s alarm) \<noteq> 0 \<and> alt_nticks s = 0)) (\<lambda>over.
     bnd (if over then update_alarm alarm (\<lambda>al. al\<lparr>al_rollover := 0\<rparr>) else ret ()) (\<lambda>_.
     bnd (gets (\<lambda>s. al_time (alarms s alarm) \<le> alt_nticks s \<and> al_rollover (alarms s alarm) = 0)) (\<lambda>expired.
     if expired then
       bnd (gets (\<lambda>s. alarms s alarm)) (\<lambda>al.
       bnd (call (al_callback al) (al_context al)) (\<lambda>next_callback.
       if next_callback = 0 then alt_alarm_stop alarm
       else
         bnd (update_alarm alarm (\<lambda>al. al\<lparr>al_time := al_time al + next_callback\<rparr>)) (\<lambda>_.
         bnd (gets (\<lambda>s. al_time (alarms s alarm) < alt_nticks s)) (\<lambda>wraps.
         if wraps then update_alarm alarm (\<lambda>al. al\<lparr>al_rollover := 1\<rparr>) else ret ()))))
     else ret ())))"

text \<open>The traversal; the successor of an alarm is read before its callback runs.\<close>

partial_function (option) tick_loop :: "'w callbacks \<Rightarrow> addr \<Rightarrow> env \<Rightarrow> 'w timer \<Rightarrow> (fault + unit \<times> 'w timer) option" where
  "tick_loop call alarm env s =
     (if alarm = ALT_ALARM_LIST then Some (Inr ((), s))
      else case tick_visit call alarm env s of
        Inl f \<Rightarrow> Some (Inl f)
      | Inr r \<Rightarrow> tick_loop call (l_next (alarm_links s) alarm) env (snd r))"

definition alt_tick :: "'w callbacks \<Rightarrow> ('w timer, unit) prog" where
  "alt_tick call =
     bnd (gets (\<lambda>s. l_next (alarm_links s) ALT_ALARM_LIST)) (\<lambda>first.
     bnd (modify (\<lambda>s. s\<lparr>alt_nticks := alt_nticks s + 1\<rparr>)) (\<lambda>_.
     (\<lambda>env s. case tick_loop call first env s of None \<Rightarrow> Inl Hang | Some r \<Rightarrow> r)))"

section \<open>Ticks to go\<close>

text \<open>
  The ticks that are left until an alarm is due, its rollover flag being the 33rd bit of its time.
\<close>

definition ticks_left :: "'w timer \<Rightarrow> addr \<Rightarrow> int" where
  "ticks_left s a = uint (al_time (alarms s a)) + (if al_rollover (alarms s a) = 0 then 0 else 2 ^ 32) - uint (alt_nticks s)"

text \<open>The registered alarms, none of them overdue.\<close>

definition timer_ok :: "'w timer \<Rightarrow> addr list \<Rightarrow> bool" where
  "timer_ok s as \<longleftrightarrow> llist_of (alarm_links s) ALT_ALARM_LIST as \<and> NULL \<notin> set as \<and>
     (\<forall>a \<in> set as. 0 < ticks_left s a \<and> ticks_left s a < 2 ^ 32)"

definition period :: "(u32 \<Rightarrow> u32 \<Rightarrow> u32) \<Rightarrow> 'w timer \<Rightarrow> addr \<Rightarrow> u32" where
  "period per s a = per (al_callback (alarms s a)) (al_context (alarms s a))"

lemma wp_update_alarm [wp_simps]:
  "wp (update_alarm a f) env Q F s = Q () (s\<lparr>alarms := (alarms s)(a := f (alarms s a))\<rparr>)"
  by (simp add: update_alarm_def wp_simps)

section \<open>One alarm at a tick\<close>

lemma uint_plus_wrap:
  "uint (a + b :: u32) = (if uint a + uint b < 2 ^ 32 then uint a + uint b else uint a + uint b - 2 ^ 32)"
  by (simp add: uint_plus_if')

lemma u32_less: "uint (a :: u32) < 2 ^ 32"
  using uint_lt2p [of a] by simp

text \<open>What the callback of an alarm does to the state outside the timer.\<close>

definition called :: "(u32 \<Rightarrow> u32 \<Rightarrow> 'w \<Rightarrow> 'w) \<Rightarrow> 'w timer \<Rightarrow> addr \<Rightarrow> 'w \<Rightarrow> 'w" where
  "called upd s a = upd (al_callback (alarms s a)) (al_context (alarms s a))"

text \<open>
  What the visit of alarm \<open>a\<close> does, \<open>left\<close> ticks having been left before this tick.
\<close>

definition visited :: "(u32 \<Rightarrow> u32 \<Rightarrow> u32) \<Rightarrow> (u32 \<Rightarrow> u32 \<Rightarrow> 'w \<Rightarrow> 'w) \<Rightarrow> 'w timer \<Rightarrow> int \<Rightarrow> addr \<Rightarrow> 'w timer \<Rightarrow> bool" where
  "visited per upd s left a s' \<longleftrightarrow>
     alt_nticks s' = alt_nticks s \<and> (\<forall>b. b \<noteq> a \<longrightarrow> alarms s' b = alarms s b) \<and>
     al_callback (alarms s' a) = al_callback (alarms s a) \<and> al_context (alarms s' a) = al_context (alarms s a) \<and>
     tick_drivers s' = (if left = 1 then called upd s a (tick_drivers s) else tick_drivers s) \<and>
     alarm_links s' = (if left = 1 \<and> period per s a = 0 then alt_llist_remove a (alarm_links s) else alarm_links s) \<and>
     (left = 1 \<longrightarrow> period per s a \<noteq> 0 \<longrightarrow> ticks_left s' a = uint (period per s a)) \<and>
     (left \<noteq> 1 \<longrightarrow> ticks_left s' a = left - 1)"

lemma linked_next: "linked m p xs q \<Longrightarrow> l_next m p = hd (xs @ [q])"
  by (cases xs) auto

lemma llist_next: "llist_of m q (xs @ a # ys) \<Longrightarrow> l_next m a = hd (ys @ [q])"
  by (auto simp: llist_of_def linked_append dest: linked_next)

text \<open>The ticks an alarm had left when the counter was \<open>n\<close>.\<close>

definition left_at :: "u32 \<Rightarrow> 'w timer \<Rightarrow> addr \<Rightarrow> int" where
  "left_at n s a = ticks_left (s\<lparr>alt_nticks := n\<rparr>) a"

lemma left_at_cong: "alarms s' a = alarms s a \<Longrightarrow> left_at n s' a = left_at n s a"
  by (simp add: left_at_def ticks_left_def)

text \<open>
  Callbacks a tick can rely on: on a usable state outside the timer the callback returns a period and
  changes this state only, to a usable one.
\<close>

locale alarm_callbacks =
  fixes call :: "'w callbacks" and usable :: "'w \<Rightarrow> bool" and per :: "u32 \<Rightarrow> u32 \<Rightarrow> u32"
    and upd :: "u32 \<Rightarrow> u32 \<Rightarrow> 'w \<Rightarrow> 'w" and env :: env
  assumes call_run: "usable (tick_drivers s) \<Longrightarrow>
      call cb ctx env s = Inr (per cb ctx, s\<lparr>tick_drivers := upd cb ctx (tick_drivers s)\<rparr>)"
    and usable_upd: "usable w \<Longrightarrow> usable (upd cb ctx w)"
begin

lemma wp_call:
  "usable (tick_drivers s) \<Longrightarrow>
   wp (call cb ctx) env Q F s = Q (per cb ctx) (s\<lparr>tick_drivers := upd cb ctx (tick_drivers s)\<rparr>)"
  by (simp add: wp_def call_run)

lemma wp_tick_visit:
  assumes "alt_nticks s = n + 1" "left = ticks_left (s\<lparr>alt_nticks := n\<rparr>) a" "0 < left"
    and "\<And>s'. visited per upd s left a s' \<Longrightarrow> Q () s'" "usable (tick_drivers s)"
  shows "wp (tick_visit call a) env Q F s"
proof -
  let ?al = "alarms s a"
  let ?t = "uint (al_time ?al)" and ?n = "uint n"
  note b = u32_less [of "al_time ?al"] u32_less [of n] uint_ge_0 [of "al_time ?al"] uint_ge_0 [of n]
  have l: "left = ?t + (if al_rollover ?al = 0 then 0 else 2 ^ 32) - ?n" using assms(2) by (simp add: ticks_left_def)
  have m: "uint (alt_nticks s) = (if ?n + 1 < 2 ^ 32 then ?n + 1 else 0)"
    using assms(1) b(2) by (simp add: uint_plus_wrap)
  define al' where "al' = (if al_rollover ?al \<noteq> 0 \<and> alt_nticks s = 0 then ?al\<lparr>al_rollover := 0\<rparr> else ?al)"
  have z: "alt_nticks s = 0 \<longleftrightarrow> \<not> ?n + 1 < 2 ^ 32"
    using m b(2) uint_ge_0 [of n] by (metis add_nonneg_pos less_irrefl unsigned_eq_0_iff zero_less_one)
  obtain k j where kj: "?t = k" "?n = j" "0 \<le> k" "0 \<le> j" "k < 2 ^ 32" "j < 2 ^ 32" using b by blast
  have expired: "al_time al' \<le> alt_nticks s \<and> al_rollover al' = 0 \<longleftrightarrow> left = 1"
    using l m z assms(3) kj(3-) unfolding word_le_def al'_def kj(1,2) by (auto simp: kj(1,2) split: if_splits)
  let ?s = "s\<lparr>alarms := (alarms s)(a := al')\<rparr>"
  have al': "al_callback al' = al_callback ?al" "al_context al' = al_context ?al" "al_time al' = al_time ?al"
    by (simp_all add: al'_def)
  have clear: "wp (if al_rollover ?al \<noteq> 0 \<and> alt_nticks s = 0 then update_alarm a (\<lambda>al. al\<lparr>al_rollover := 0\<rparr>) else ret ()) env R F s = R () ?s" for R
    by (simp add: wp_simps al'_def)
  show ?thesis
  proof (cases "left = 1")
    case True
    with expired have e: "al_time al' \<le> alt_nticks s" "al_rollover al' = 0" by simp_all
    let ?p = "per (al_callback ?al) (al_context ?al)"
    let ?d = "?s\<lparr>tick_drivers := upd (al_callback ?al) (al_context ?al) (tick_drivers s)\<rparr>"
    have "Q () (?d\<lparr>alarm_links := alt_llist_remove a (alarm_links s)\<rparr>)" if "?p = 0"
      by (rule assms(4)) (use that True in \<open>simp add: visited_def period_def called_def al'\<close>)
    moreover have "Q () (?d\<lparr>alarms := (alarms s)(a := al'\<lparr>al_time := al_time ?al + ?p,
        al_rollover := if al_time ?al + ?p < alt_nticks s then 1 else 0\<rparr>)\<rparr>)" if "?p \<noteq> 0"
    proof (rule assms(4))
      have "?t = uint (alt_nticks s)" using True b l m z e by (auto simp: al'_def split: if_splits)
      moreover have "al_time ?al + ?p < alt_nticks s \<longleftrightarrow> \<not> ?t + uint ?p < 2 ^ 32"
        using calculation u32_less [of ?p] uint_ge_0 [of ?p] unfolding word_less_def uint_plus_wrap by auto
      ultimately show "visited per upd s left a (?d\<lparr>alarms := (alarms s)(a := al'\<lparr>al_time := al_time ?al + ?p,
          al_rollover := if al_time ?al + ?p < alt_nticks s then 1 else 0\<rparr>)\<rparr>)"
        using that True by (simp add: visited_def period_def called_def al' ticks_left_def uint_plus_wrap)
    qed
    moreover have "al'\<lparr>al_time := x, al_rollover := 0\<rparr> = al'\<lparr>al_time := x\<rparr>" for x using e(2) by (cases al') simp
    ultimately show ?thesis
      unfolding tick_visit_def wp_bnd wp_gets clear using e
      by (cases "al_time ?al + ?p < alt_nticks s") (simp_all add: wp_simps wp_call assms(5) al' alt_alarm_stop_def)
  next
    case False
    have "Q () ?s"
      by (rule assms(4)) (use False b l m z assms(3) in \<open>auto simp: visited_def al'_def ticks_left_def split: if_splits\<close>)
    with False expired show ?thesis
      unfolding tick_visit_def wp_bnd wp_gets clear by (auto simp: wp_simps)
  qed
qed

lemma tick_loop_run:
  assumes "llist_of (alarm_links s) ALT_ALARM_LIST (ds @ as)" "alt_nticks s = n + 1" "\<forall>a \<in> set as. 0 < left_at n s a"
    "usable (tick_drivers s)"
  shows "\<exists>s'. tick_loop call (hd (as @ [ALT_ALARM_LIST])) env s = Some (Inr ((), s')) \<and>
     alt_nticks s' = alt_nticks s \<and> (\<forall>b. b \<notin> set as \<longrightarrow> alarms s' b = alarms s b) \<and>
     llist_of (alarm_links s') ALT_ALARM_LIST (ds @ filter (\<lambda>a. left_at n s a = 1 \<longrightarrow> period per s a \<noteq> 0) as) \<and>
     tick_drivers s' = fold (called upd s) (filter (\<lambda>a. left_at n s a = 1) as) (tick_drivers s) \<and>
     (\<forall>a \<in> set as. left_at n s a = 1 \<longrightarrow> period per s a \<noteq> 0 \<longrightarrow> ticks_left s' a = uint (period per s a)) \<and>
     (\<forall>a \<in> set as. left_at n s a \<noteq> 1 \<longrightarrow> ticks_left s' a = left_at n s a - 1)"
  using assms
proof (induction as arbitrary: s ds)
  case Nil
  then show ?case by (subst tick_loop.simps) simp
next
  case (Cons a as)
  have d: "a \<notin> set as" "a \<noteq> ALT_ALARM_LIST" using Cons.prems(1) by (auto simp: llist_of_def)
  have "wp (tick_visit call a) env (\<lambda>_. visited per upd s (left_at n s a) a) (\<lambda>_. False) s"
    by (rule wp_tick_visit [OF Cons.prems(2)]) (use Cons.prems(3,4) in \<open>simp_all add: left_at_def\<close>)
  from wp_unitD [OF this] obtain t where
    run: "tick_visit call a env s = Inr ((), t)" and v: "visited per upd s (left_at n s a) a t" by blast
  let ?keep = "\<lambda>s a. left_at n s a = 1 \<longrightarrow> period per s a \<noteq> 0"
  have same: "left_at n t b = left_at n s b" "period per t b = period per s b" "alarms t b = alarms s b" if "b \<in> set as" for b
  proof -
    show b: "alarms t b = alarms s b" using v that d(1) by (auto simp: visited_def)
    show "left_at n t b = left_at n s b" "period per t b = period per s b" using left_at_cong [OF b] b by (simp_all add: period_def)
  qed
  let ?ds = "if ?keep s a then ds @ [a] else ds"
  have "llist_of (alarm_links t) ALT_ALARM_LIST (?ds @ as)"
    using v Cons.prems(1) llist_of_remove(1) [OF Cons.prems(1)] by (auto simp: visited_def)
  moreover have "alt_nticks t = n + 1" using v Cons.prems(2) by (simp add: visited_def)
  moreover have "\<forall>b \<in> set as. 0 < left_at n t b" using Cons.prems(3) same(1) by simp
  moreover have "usable (tick_drivers t)" using v Cons.prems(4) usable_upd by (simp add: visited_def called_def)
  ultimately obtain s' where s': "tick_loop call (hd (as @ [ALT_ALARM_LIST])) env t = Some (Inr ((), s'))"
    "alt_nticks s' = alt_nticks t" "\<forall>b. b \<notin> set as \<longrightarrow> alarms s' b = alarms t b"
    "llist_of (alarm_links s') ALT_ALARM_LIST (?ds @ filter (?keep t) as)"
    "tick_drivers s' = fold (called upd t) (filter (\<lambda>a. left_at n t a = 1) as) (tick_drivers t)"
    "\<forall>a \<in> set as. left_at n t a = 1 \<longrightarrow> period per t a \<noteq> 0 \<longrightarrow> ticks_left s' a = uint (period per t a)"
    "\<forall>a \<in> set as. left_at n t a \<noteq> 1 \<longrightarrow> ticks_left s' a = left_at n t a - 1"
    using Cons.IH [of t ?ds] by blast
  have f: "filter (?keep t) as = filter (?keep s) as" "filter (\<lambda>a. left_at n t a = 1) as = filter (\<lambda>a. left_at n s a = 1) as"
    by (auto intro!: filter_cong simp: same)
  have m: "fold (called upd t) (filter (\<lambda>a. left_at n s a = 1) as) w = fold (called upd s) (filter (\<lambda>a. left_at n s a = 1) as) w" for w
    by (rule fold_cong) (auto simp: called_def same)
  have here: "ticks_left s' a = ticks_left t a" using s'(2,3) d(1) by (simp add: ticks_left_def)
  have loop: "tick_loop call (hd ((a # as) @ [ALT_ALARM_LIST])) env s = Some (Inr ((), s'))"
    using s'(1) run d(2) llist_next [OF Cons.prems(1)] by (subst tick_loop.simps) simp
  have vl: "left_at n s a = 1 \<longrightarrow> period per s a \<noteq> 0 \<longrightarrow> ticks_left t a = uint (period per s a)"
    "left_at n s a \<noteq> 1 \<longrightarrow> ticks_left t a = left_at n s a - 1" "\<forall>b. b \<noteq> a \<longrightarrow> alarms t b = alarms s b"
    "alt_nticks t = alt_nticks s"
    "tick_drivers t = (if left_at n s a = 1 then called upd s a (tick_drivers s) else tick_drivers s)"
    using v unfolding visited_def by blast+
  show ?case
  proof (intro exI [of _ s'] conjI)
    show "llist_of (alarm_links s') ALT_ALARM_LIST (ds @ filter (?keep s) (a # as))"
      using s'(4) f by (cases "?keep s a") simp_all
    show "tick_drivers s' = fold (called upd s) (filter (\<lambda>a. left_at n s a = 1) (a # as)) (tick_drivers s)"
      using s'(5) vl(5) f m by simp
  qed (use loop s'(2,3,6,7) vl here same in \<open>auto\<close>)
qed

lemma tick:
  assumes "timer_ok s as" "usable (tick_drivers s)"
  shows "\<exists>s'. alt_tick call env s = Inr ((), s') \<and>
     timer_ok s' (filter (\<lambda>a. ticks_left s a = 1 \<longrightarrow> period per s a \<noteq> 0) as) \<and>
     tick_drivers s' = fold (called upd s) (filter (\<lambda>a. ticks_left s a = 1) as) (tick_drivers s) \<and>
     (\<forall>a. a \<in> set as \<and> ticks_left s a \<noteq> 1 \<longrightarrow> ticks_left s' a = ticks_left s a - 1) \<and>
     (\<forall>a. a \<in> set as \<and> ticks_left s a = 1 \<and> period per s a \<noteq> 0 \<longrightarrow> ticks_left s' a = uint (period per s a)) \<and>
     alt_nticks s' = alt_nticks s + 1 \<and> (\<forall>a. a \<notin> set as \<longrightarrow> alarms s' a = alarms s a)"
proof -
  let ?s = "s\<lparr>alt_nticks := alt_nticks s + 1\<rparr>"
  let ?n = "alt_nticks s"
  have l: "left_at ?n ?s a = ticks_left s a" "period per ?s a = period per s a" "called upd ?s a = called upd s a" for a
    by (simp_all add: left_at_def ticks_left_def period_def called_def)
  have ll: "llist_of (alarm_links ?s) ALT_ALARM_LIST ([] @ as)" using assms(1) by (simp add: timer_ok_def)
  have first: "l_next (alarm_links s) ALT_ALARM_LIST = hd (as @ [ALT_ALARM_LIST])"
    using ll by (auto simp: llist_of_def dest: linked_next)
  have "\<forall>a \<in> set as. 0 < left_at ?n ?s a" using assms(1) by (simp add: timer_ok_def l)
  then have "\<exists>s'. tick_loop call (hd (as @ [ALT_ALARM_LIST])) env ?s = Some (Inr ((), s')) \<and>
      alt_nticks s' = alt_nticks ?s \<and> (\<forall>b. b \<notin> set as \<longrightarrow> alarms s' b = alarms ?s b) \<and>
      llist_of (alarm_links s') ALT_ALARM_LIST ([] @ filter (\<lambda>a. left_at ?n ?s a = 1 \<longrightarrow> period per ?s a \<noteq> 0) as) \<and>
      tick_drivers s' = fold (called upd ?s) (filter (\<lambda>a. left_at ?n ?s a = 1) as) (tick_drivers ?s) \<and>
      (\<forall>a \<in> set as. left_at ?n ?s a = 1 \<longrightarrow> period per ?s a \<noteq> 0 \<longrightarrow> ticks_left s' a = uint (period per ?s a)) \<and>
      (\<forall>a \<in> set as. left_at ?n ?s a \<noteq> 1 \<longrightarrow> ticks_left s' a = left_at ?n ?s a - 1)"
    by (intro tick_loop_run [OF ll]) (use assms(2) in simp_all)
  moreover have "called upd ?s = called upd s" using l(3) by blast
  ultimately obtain s' where
    s': "tick_loop call (hd (as @ [ALT_ALARM_LIST])) env ?s = Some (Inr ((), s'))"
      "llist_of (alarm_links s') ALT_ALARM_LIST (filter (\<lambda>a. ticks_left s a = 1 \<longrightarrow> period per s a \<noteq> 0) as)"
      "tick_drivers s' = fold (called upd s) (filter (\<lambda>a. ticks_left s a = 1) as) (tick_drivers s)"
      "\<forall>a \<in> set as. ticks_left s a = 1 \<longrightarrow> period per s a \<noteq> 0 \<longrightarrow> ticks_left s' a = uint (period per s a)"
      "\<forall>a \<in> set as. ticks_left s a \<noteq> 1 \<longrightarrow> ticks_left s' a = ticks_left s a - 1"
      "alt_nticks s' = alt_nticks s + 1" "\<forall>a. a \<notin> set as \<longrightarrow> alarms s' a = alarms s a" unfolding l by auto
  have "alt_tick call env s = Inr ((), s')"
    using s'(1) first by (simp add: alt_tick_def bnd_def gets_def modify_def)
  moreover have "0 < ticks_left s' a \<and> ticks_left s' a < 2 ^ 32"
    if "a \<in> set as" "ticks_left s a = 1 \<longrightarrow> period per s a \<noteq> 0" for a
  proof (cases "ticks_left s a = 1")
    case True
    then have "ticks_left s' a = uint (period per s a)" "period per s a \<noteq> 0" using s'(4) that by auto
    then show ?thesis using u32_less [of "period per s a"] uint_ge_0 [of "period per s a"] unsigned_eq_0_iff [of "period per s a"]
      by (metis order_le_imp_less_or_eq)
  next
    case False
    then have "ticks_left s' a = ticks_left s a - 1" using s'(5) that by auto
    moreover have "0 < ticks_left s a" "ticks_left s a < 2 ^ 32" using assms(1) that(1) by (simp_all add: timer_ok_def)
    ultimately show ?thesis using False by linarith
  qed
  ultimately show ?thesis using s'(2-7) assms by (intro exI [of _ s']) (auto simp: timer_ok_def)
qed

end

text \<open>Callbacks that report the next period \<open>per\<close> and only log that they ran.\<close>

definition log_call :: "(u32 \<Rightarrow> u32 \<Rightarrow> u32) \<Rightarrow> (u32 \<times> u32) list callbacks" where
  "log_call per cb ctx = (\<lambda>env s. Inr (per cb ctx, s\<lparr>tick_drivers := tick_drivers s @ [(cb, ctx)]\<rparr>))"

interpretation logged: alarm_callbacks "log_call per" "\<lambda>_. True" per "\<lambda>cb ctx w. w @ [(cb, ctx)]" env for per env
  by unfold_locales (simp_all add: log_call_def)

lemma fold_called_log:
  "fold (called (\<lambda>cb ctx w. w @ [(cb, ctx)]) s) as w = w @ map (\<lambda>a. (al_callback (alarms s a), al_context (alarms s a))) as"
  by (induction as arbitrary: w) (simp_all add: called_def)

text \<open>
  C31: a tick brings every registered alarm one tick nearer, runs exactly the alarms that had one tick
  left, each once and in the order of the list, removes those whose callback returns zero and gives
  the others the period it returns; counter and alarm times may wrap around at any point. It always
  returns, and no alarm is ever overdue.
\<close>

lemma alarm_tick:
  assumes "timer_ok s as"
  shows "\<exists>s'. alt_tick (log_call per) env s = Inr ((), s') \<and>
     timer_ok s' (filter (\<lambda>a. ticks_left s a = 1 \<longrightarrow> period per s a \<noteq> 0) as) \<and>
     tick_drivers s' = tick_drivers s @
       map (\<lambda>a. (al_callback (alarms s a), al_context (alarms s a))) (filter (\<lambda>a. ticks_left s a = 1) as) \<and>
     (\<forall>a. a \<in> set as \<and> ticks_left s a \<noteq> 1 \<longrightarrow> ticks_left s' a = ticks_left s a - 1) \<and>
     (\<forall>a. a \<in> set as \<and> ticks_left s a = 1 \<and> period per s a \<noteq> 0 \<longrightarrow> ticks_left s' a = uint (period per s a))"
  using logged.tick [OF assms TrueI, of per env] unfolding fold_called_log by blast

text \<open>One alarm, one tick away.\<close>

definition one_alarm :: "(u32 \<times> u32) list timer" where
  "one_alarm = (timer_boot (\<lambda>_. \<lparr>al_time = 1, al_callback = 5, al_rollover = 0, al_context = 9\<rparr>) [])
     \<lparr>alarm_links := alt_llist_insert ALT_ALARM_LIST 0x9100
        (ALT_LLIST_HEAD ALT_ALARM_LIST \<lparr>l_next = \<lambda>_. NULL, l_previous = \<lambda>_. NULL\<rparr>)\<rparr>"

lemma alarm_tick_witness:
  "\<exists>s'. alt_tick (log_call (\<lambda>_ _. 0)) (\<lambda>_ _. 0) one_alarm = Inr ((), s') \<and> timer_ok s' [] \<and> tick_drivers s' = [(5, 9)]"
proof -
  have "llist_of (alarm_links one_alarm) ALT_ALARM_LIST [0x9100]"
    unfolding one_alarm_def
    by (simp, rule llist_of_insert [OF llist_of_head]) (simp add: ALT_ALARM_LIST_def)
  moreover have "ticks_left one_alarm 0x9100 = 1" by (simp add: ticks_left_def one_alarm_def timer_boot_def)
  ultimately have "timer_ok one_alarm [0x9100]" by (simp add: timer_ok_def NULL_def)
  from alarm_tick [OF this, of "\<lambda>_ _. 0" "\<lambda>_ _. 0"] \<open>ticks_left one_alarm 0x9100 = 1\<close>
  show ?thesis by (auto simp: period_def one_alarm_def timer_boot_def)
qed

section \<open>Starting and stopping\<close>

text \<open>
  A started alarm has one tick more than asked for to go, except for the largest number, for which
  it is overdue at once.
\<close>

lemma alarm_start:
  assumes "timer_ok s as" "alt_tick_rate s \<noteq> 0" "a \<notin> set (ALT_ALARM_LIST # NULL # as)" "uint n + 1 < 2 ^ 32"
  shows "\<exists>s'. alt_alarm_start a n cb ctx env s = Inr (0, s') \<and> timer_ok s' (a # as) \<and>
     ticks_left s' a = uint n + 1 \<and> (\<forall>b. b \<noteq> a \<longrightarrow> ticks_left s' b = ticks_left s b)"
proof -
  let ?t = "n + alt_nticks s + 1"
  let ?al = "(alarms s a)\<lparr>al_callback := cb, al_context := ctx, al_time := ?t, al_rollover := if ?t < alt_nticks s then 1 else 0\<rparr>"
  let ?s = "s\<lparr>alarms := (alarms s)(a := ?al), alarm_links := alt_llist_insert ALT_ALARM_LIST a (alarm_links s)\<rparr>"
  obtain k j where kj: "uint n = k" "uint (alt_nticks s) = j" "0 \<le> k" "0 \<le> j" "k + 1 < 2 ^ 32" "j < 2 ^ 32"
    using assms(4) u32_less uint_ge_0 by blast
  have "uint (n + 1) = k + 1" using kj by (simp add: uint_plus_wrap)
  moreover have "?t = (n + 1) + alt_nticks s" by simp
  ultimately have t: "uint ?t = (if k + 1 + j < 2 ^ 32 then k + 1 + j else k + 1 + j - 2 ^ 32)"
    using kj(1,2) by (metis uint_plus_wrap)
  then have left: "ticks_left ?s a = uint n + 1"
    using kj by (auto simp: ticks_left_def word_less_def)
  have "llist_of (alarm_links ?s) ALT_ALARM_LIST (a # as)"
    using llist_of_insert [of "alarm_links s" ALT_ALARM_LIST as a] assms(1,3) by (simp add: timer_ok_def)
  moreover have other: "ticks_left ?s b = ticks_left s b" if "b \<noteq> a" for b using that by (simp add: ticks_left_def)
  ultimately have "timer_ok ?s (a # as)"
    unfolding timer_ok_def
  proof (intro conjI ballI)
    fix b
    assume b: "b \<in> set (a # as)"
    have "0 < ticks_left ?s b \<and> ticks_left ?s b < 2 ^ 32"
    proof (cases "b = a")
      case True
      show ?thesis unfolding True left using assms(4) uint_ge_0 [of n] by linarith
    next
      case False
      with b assms(1) other [OF False] show ?thesis by (simp add: timer_ok_def)
    qed
    then show "0 < ticks_left ?s b" "ticks_left ?s b < 2 ^ 32" by blast+
  qed (use assms(1,3) in \<open>auto simp: timer_ok_def\<close>)
  moreover have "alt_alarm_start a n cb ctx env s = Inr (0, ?s)"
    using assms(2,3) by (simp add: alt_alarm_start_def alt_ticks_per_second_def update_alarm_def bnd_def gets_def modify_def ret_def)
  ultimately show ?thesis using left other by blast
qed

lemma alarm_start_max:
  assumes "alt_tick_rate s \<noteq> 0" "a \<noteq> NULL"
  shows "\<exists>s'. alt_alarm_start a (-1) cb ctx env s = Inr (0, s') \<and> ticks_left s' a = 0"
  using assms by (simp add: alt_alarm_start_def alt_ticks_per_second_def update_alarm_def bnd_def gets_def modify_def ret_def ticks_left_def)

lemma alarm_stop:
  "timer_ok s (as @ a # bs) \<Longrightarrow> \<exists>s'. alt_alarm_stop a env s = Inr ((), s') \<and> timer_ok s' (as @ bs)"
  using llist_of_remove(1) [of "alarm_links s" ALT_ALARM_LIST as a bs]
  by (auto simp: alt_alarm_stop_def modify_def timer_ok_def ticks_left_def)

end
