(* ===== verification/Clock.thy ===== *)
theory Clock
  imports Alarms
begin

text \<open>
  The wall clock, \<^verbatim>\<open>HAL/src/alt_gettod.c\<close>, \<^verbatim>\<open>alt_settod.c\<close> and \<^verbatim>\<open>alt_times.c\<close>: the time of day is the
  reset time set last plus the ticks since reset. Seconds and microseconds are signed 32-bit numbers.
  What a call writes through its pointers is part of its result.
\<close>

section \<open>State\<close>

definition ALT_US :: u32 where "ALT_US = 1000000"
definition CLOCK_ENOSYS :: int where "CLOCK_ENOSYS = 88"

record timeval =
  tv_sec :: u32
  tv_usec :: u32

record timezone =
  tz_minuteswest :: u32
  tz_dsttime :: u32

record 'w wall_clock =
  ticker :: "'w timer"
  alt_resettime :: timeval
  alt_timezone :: timezone
  clock_errno :: int

definition clock_boot :: "'w timer \<Rightarrow> 'w wall_clock" where
  "clock_boot tm = \<lparr>ticker = tm, alt_resettime = \<lparr>tv_sec = 0, tv_usec = 0\<rparr>,
     alt_timezone = \<lparr>tz_minuteswest = 0, tz_dsttime = 0\<rparr>, clock_errno = 0\<rparr>"

section \<open>Signed numbers\<close>

lemma sint_range: "- (2 ^ 31) \<le> sint (w :: u32)" "sint (w :: u32) < 2 ^ 31"
  using sint_range_size [of w] by (simp_all add: word_size)

lemma sint_of_int: "- (2 ^ 31) \<le> x \<Longrightarrow> x < 2 ^ 31 \<Longrightarrow> sint (word_of_int x :: u32) = x"
  by (simp add: sint_sbintrunc' signed_take_bit_int_eq_self)

lemma sint_shift:
  assumes "- (2 ^ 31) \<le> sint (w :: u32) + k" "sint w + k < 2 ^ 31"
  shows "sint (w + word_of_int k) = sint w + k"
proof -
  have "w + word_of_int k = word_of_int (sint w + k)" by simp
  then show ?thesis using sint_of_int [OF assms] by (simp only:)
qed

lemma sint_us_add: "sint w < 0 \<Longrightarrow> sint (w + ALT_US) = sint w + 1000000"
  using sint_shift [of w 1000000] sint_range(1) [of w] by (simp add: ALT_US_def)

lemma sint_us_sub: "1000000 \<le> sint w \<Longrightarrow> sint (w - ALT_US) = sint w - 1000000"
  using sint_shift [of w "- 1000000"] sint_range(2) [of w] by (simp add: ALT_US_def)

section \<open>Operations\<close>

text \<open>The two loops that bring the microseconds into range.\<close>

function usec_borrow :: "timeval \<Rightarrow> timeval" where
  "usec_borrow tv =
     (if sint (tv_usec tv) < 0 then
        if sint (tv_sec tv) \<le> 0 then \<lparr>tv_sec = 0, tv_usec = 0\<rparr>
        else usec_borrow \<lparr>tv_sec = tv_sec tv - 1, tv_usec = tv_usec tv + ALT_US\<rparr>
      else tv)"
  by auto
termination
  by (relation "measure (\<lambda>tv. nat (- sint (tv_usec tv)))") (auto simp: sint_us_add)

function usec_carry :: "timeval \<Rightarrow> timeval" where
  "usec_carry tv =
     (if sint ALT_US \<le> sint (tv_usec tv) then usec_carry \<lparr>tv_sec = tv_sec tv + 1, tv_usec = tv_usec tv - ALT_US\<rparr>
      else tv)"
  by auto
termination
  by (relation "measure (\<lambda>tv. nat (sint (tv_usec tv)))") (auto simp: sint_us_sub ALT_US_def [THEN arg_cong [where f = sint]])

declare usec_borrow.simps [simp del] usec_carry.simps [simp del]

definition ALT_GETTIMEOFDAY :: "bool \<Rightarrow> ('w wall_clock, int \<times> (timeval \<times> timezone option) option) prog" where
  "ALT_GETTIMEOFDAY zone =
     bnd (gets (\<lambda>s. alt_nticks (ticker s))) (\<lambda>nticks.
     bnd (gets (\<lambda>s. alt_tick_rate (ticker s))) (\<lambda>tick_rate.
     if tick_rate \<noteq> 0 then
       bnd (gets alt_resettime) (\<lambda>reset.
       bnd (gets alt_timezone) (\<lambda>tz.
       let tv = \<lparr>tv_sec = tv_sec reset + nticks div tick_rate,
                 tv_usec = tv_usec reset + ucast ((ucast nticks * ucast (ALT_US div tick_rate)) mod 1000000 :: 64 word)\<rparr>
       in ret (0, Some (usec_carry (usec_borrow tv), if zone then Some tz else None))))
     else ret (- ALARM_ENOTSUP, None)))"

text \<open>The time zone is read through the pointer without a check.\<close>

definition ALT_SETTIMEOFDAY :: "timeval \<Rightarrow> timezone option \<Rightarrow> ('w wall_clock, int) prog" where
  "ALT_SETTIMEOFDAY t tz =
     bnd (gets (\<lambda>s. alt_nticks (ticker s))) (\<lambda>nticks.
     bnd (gets (\<lambda>s. alt_tick_rate (ticker s))) (\<lambda>tick_rate.
     if tick_rate \<noteq> 0 then
       bnd (modify (\<lambda>s. s\<lparr>alt_resettime := \<lparr>tv_sec = tv_sec t - nticks div tick_rate,
                          tv_usec = tv_usec t - (nticks * (ALT_US div tick_rate)) mod ALT_US\<rparr>\<rparr>)) (\<lambda>_.
       case tz of
         None \<Rightarrow> fail OutOfBounds
       | Some z \<Rightarrow> bnd (modify (\<lambda>s. s\<lparr>alt_timezone := z\<rparr>)) (\<lambda>_. ret 0))
     else bnd (modify (\<lambda>s. s\<lparr>clock_errno := CLOCK_ENOSYS\<rparr>)) (\<lambda>_. ret (-1))))"

record tms =
  tms_utime :: u32
  tms_stime :: u32
  tms_cutime :: u32
  tms_cstime :: u32

definition ALT_TIMES :: "('w wall_clock, u32 \<times> tms option) prog" where
  "ALT_TIMES =
     bnd (gets (\<lambda>s. alt_nticks (ticker s))) (\<lambda>ticks.
     bnd (gets (\<lambda>s. alt_tick_rate (ticker s))) (\<lambda>rate.
     if rate = 0 then bnd (modify (\<lambda>s. s\<lparr>clock_errno := CLOCK_ENOSYS\<rparr>)) (\<lambda>_. ret (0, None))
     else ret (ticks, Some \<lparr>tms_utime = 0, tms_stime = ticks, tms_cutime = 0, tms_cstime = 0\<rparr>)))"

section \<open>The time of day\<close>

definition microseconds :: "timeval \<Rightarrow> int" where
  "microseconds tv = sint (tv_sec tv) * 1000000 + sint (tv_usec tv)"

definition timeval_ok :: "timeval \<Rightarrow> bool" where
  "timeval_ok tv \<longleftrightarrow> 0 \<le> sint (tv_sec tv) \<and> 0 \<le> sint (tv_usec tv) \<and> sint (tv_usec tv) < 1000000"

definition ticked :: "u32 \<Rightarrow> 'w wall_clock \<Rightarrow> 'w wall_clock" where
  "ticked n s = s\<lparr>ticker := (ticker s)\<lparr>alt_nticks := n\<rparr>\<rparr>"

lemma usec_range:
  assumes "sint (tv_usec tv) < 2000000" "- 1000000 \<le> sint (tv_usec tv)" "0 \<le> microseconds tv"
    and "sint (tv_sec tv) + 1 < 2 ^ 31" "- (2 ^ 31) < sint (tv_sec tv)"
  shows "timeval_ok (usec_carry (usec_borrow tv)) \<and> microseconds (usec_carry (usec_borrow tv)) = microseconds tv"
proof -
  note us = ALT_US_def [THEN arg_cong [where f = sint]]
  consider "sint (tv_usec tv) < 0" | "0 \<le> sint (tv_usec tv)" "sint (tv_usec tv) < 1000000" | "1000000 \<le> sint (tv_usec tv)" by linarith
  then show ?thesis
  proof cases
    case 1
    let ?tv = "\<lparr>tv_sec = tv_sec tv - 1, tv_usec = tv_usec tv + ALT_US\<rparr>"
    have "0 < sint (tv_sec tv)" using 1 assms(3) unfolding microseconds_def by linarith
    moreover from this have "sint (tv_sec tv - 1) = sint (tv_sec tv) - 1" using sint_shift [of "tv_sec tv" "- 1"] assms(4,5) by simp
    moreover have "usec_borrow tv = usec_borrow ?tv" using 1 calculation(1) by (simp add: usec_borrow.simps [of tv])
    moreover have "usec_borrow ?tv = ?tv" "usec_carry ?tv = ?tv"
      using 1 assms(2) sint_us_add [OF 1] us by (simp_all add: usec_borrow.simps [of ?tv] usec_carry.simps [of ?tv])
    ultimately show ?thesis using 1 assms(2) sint_us_add [OF 1] by (simp add: timeval_ok_def microseconds_def)
  next
    case 2
    have "0 \<le> sint (tv_sec tv)" using 2 assms(3) unfolding microseconds_def by linarith
    with 2 us show ?thesis by (simp add: usec_borrow.simps [of tv] usec_carry.simps [of tv] timeval_ok_def)
  next
    case 3
    let ?tv = "\<lparr>tv_sec = tv_sec tv + 1, tv_usec = tv_usec tv - ALT_US\<rparr>"
    have "0 \<le> sint (tv_sec tv) + 1" using assms(1,3) unfolding microseconds_def by linarith
    moreover have "sint (tv_sec tv + 1) = sint (tv_sec tv) + 1" using sint_shift [of "tv_sec tv" 1] assms(4,5) by simp
    moreover have "usec_borrow tv = tv" "usec_carry tv = usec_carry ?tv" using 3 us by (simp_all add: usec_borrow.simps [of tv] usec_carry.simps [of tv])
    moreover have "usec_carry ?tv = ?tv" using 3 assms(1) sint_us_sub [OF 3] us by (simp add: usec_carry.simps [of ?tv])
    ultimately show ?thesis using 3 assms(1) sint_us_sub [OF 3] by (simp add: timeval_ok_def microseconds_def)
  qed
qed

text \<open>Ticks as seconds and microseconds, for a tick rate that divides a second into whole microseconds.\<close>

lemma ticks_split:
  assumes "(r :: int) * q = 1000000"
  shows "n * q = n div r * 1000000 + n * q mod 1000000"
proof -
  have "n * q mod 1000000 = n mod r * q" unfolding assms [symmetric] by (rule mod_mult_mult2)
  moreover have "n = n div r * r + n mod r" by simp
  then have "n * q = n div r * (r * q) + n mod r * q" by (metis distrib_right mult.assoc)
  ultimately show ?thesis using assms by simp
qed

lemma tick_us:
  assumes "uint r dvd 1000000"
  shows "uint r * uint (ALT_US div r) = 1000000"
  using assms by (simp add: uint_div ALT_US_def)

lemma tick_us_64:
  assumes "uint q \<le> 1000000"
  shows "(ucast ((ucast (n :: u32) * ucast (q :: u32)) mod 1000000 :: 64 word) :: u32) = word_of_int (uint n * uint q mod 1000000)"
proof -
  have "uint n * uint q \<le> uint n * 1000000" by (rule mult_left_mono [OF assms uint_ge_0])
  moreover have "uint n < 4294967296" using u32_less [of n] by simp
  ultimately have lt: "uint n * uint q < 18446744073709551616" by linarith
  have "uint (ucast n * ucast q :: 64 word) = uint n * uint q"
    using lt by (subst uint_mult_lem [THEN iffD1]) (simp_all add: uint_up_ucast is_up)
  then have "uint ((ucast n * ucast q) mod 1000000 :: 64 word) = uint n * uint q mod 1000000" by (simp add: uint_mod)
  then show ?thesis by (metis ucast_eq)
qed

lemma tick_us_32:
  assumes "uint n * uint q < 2 ^ 32"
  shows "n * q mod ALT_US = (word_of_int (uint n * uint q mod 1000000) :: u32)"
proof -
  have "uint (n * q) = uint n * uint q" using assms by (subst uint_mult_lem [THEN iffD1]) simp_all
  then have "uint (n * q mod ALT_US) = uint n * uint q mod 1000000" by (simp add: uint_mod ALT_US_def)
  then show ?thesis by (metis word_of_int_uint)
qed

lemma div_of_int: "n div r = (word_of_int (uint n div uint r) :: u32)"
  by (metis uint_div word_of_int_uint)

text \<open>What the two calls compute, in integers: \<open>q\<close> microseconds per tick.\<close>

lemma tick_rate_us:
  assumes "uint (r :: u32) dvd 1000000"
  shows "0 < uint r" "uint (ALT_US div r) = 1000000 div uint r" "uint (ALT_US div r) \<le> 1000000"
    "n * (1000000 div uint r) = n div uint r * 1000000 + n * (1000000 div uint r) mod 1000000"
proof -
  note rq = tick_us [OF assms]
  show r: "0 < uint r" using rq uint_ge_0 [of r] by (metis mult_zero_left order_le_less zero_neq_numeral)
  show q: "uint (ALT_US div r) = 1000000 div uint r" by (simp add: uint_div ALT_US_def)
  show "uint (ALT_US div r) \<le> 1000000" using mult_right_mono [of 1 "uint r" "uint (ALT_US div r)"] r rq by simp
  show "n * (1000000 div uint r) = n div uint r * 1000000 + n * (1000000 div uint r) mod 1000000"
    using ticks_split [OF rq] unfolding q .
qed

lemma clock_set:
  assumes "timeval_ok t" "uint r dvd 1000000" "uint n * (1000000 div uint r) < 2 ^ 32"
  shows "sint (tv_sec t - n div r) = sint (tv_sec t) - uint n div uint r"
    "sint (tv_usec t - n * (ALT_US div r) mod ALT_US) = sint (tv_usec t) - uint n * (1000000 div uint r) mod 1000000"
proof -
  note q = tick_rate_us [OF assms(2)]
  have "0 \<le> uint n div uint r" using q(1) by (simp add: pos_imp_zdiv_nonneg_iff)
  moreover have "0 \<le> uint n * (1000000 div uint r) mod 1000000" by simp
  moreover from this have "uint n div uint r < 2 ^ 31" using q(4) [of "uint n"] assms(3) by simp
  ultimately show "sint (tv_sec t - n div r) = sint (tv_sec t) - uint n div uint r"
    using sint_shift [of "tv_sec t" "- (uint n div uint r)"] sint_range(2) [of "tv_sec t"] assms(1)
    by (simp add: div_of_int timeval_ok_def)
  obtain M where M: "uint n * (1000000 div uint r) mod 1000000 = M" "0 \<le> M" "M < 1000000" by simp
  have "n * (ALT_US div r) mod ALT_US = word_of_int M" using tick_us_32 [of n "ALT_US div r"] assms(3) M(1) by (simp add: q(2))
  then show "sint (tv_usec t - n * (ALT_US div r) mod ALT_US) = sint (tv_usec t) - uint n * (1000000 div uint r) mod 1000000"
    using sint_shift [of "tv_usec t" "- M"] assms(1) M by (simp add: timeval_ok_def)
qed

lemma clock_get:
  assumes "uint r dvd 1000000" "- (2 ^ 31) \<le> sint (sec :: u32) + uint n div uint r" "sint sec + uint n div uint r < 2 ^ 31"
    and "- 1000000 \<le> sint (usec :: u32)" "sint usec \<le> 1000000"
  shows "sint (sec + n div r) = sint sec + uint n div uint r"
    "sint (usec + ucast ((ucast n * ucast (ALT_US div r)) mod 1000000 :: 64 word)) =
       sint usec + uint n * (1000000 div uint r) mod 1000000"
proof -
  note q = tick_rate_us [OF assms(1)]
  show "sint (sec + n div r) = sint sec + uint n div uint r"
    using sint_shift [OF assms(2,3)] by (simp only: div_of_int)
  obtain M where M: "uint n * (1000000 div uint r) mod 1000000 = M" "0 \<le> M" "M < 1000000" by simp
  show "sint (usec + ucast ((ucast n * ucast (ALT_US div r)) mod 1000000 :: 64 word)) =
      sint usec + uint n * (1000000 div uint r) mod 1000000"
    unfolding tick_us_64 [OF q(3)] q(2) M(1) by (rule sint_shift) (use assms(4,5) M in simp_all)
qed

text \<open>
  C32: after \<open>settimeofday\<close> the clock runs on with the ticks: when the tick rate divides a second into
  whole microseconds, \<open>gettimeofday\<close> returns, normalised, the time that was set plus the ticks since
  then, as long as the ticks at the time of setting, in microseconds, fit 32 bits (71 minutes after
  reset) and the seconds do not overflow.
\<close>

lemma wall_clock_runs:
  assumes "timeval_ok t" "uint (alt_tick_rate (ticker s)) dvd 1000000"
    and "uint (alt_nticks (ticker s)) * (1000000 div uint (alt_tick_rate (ticker s))) < 2 ^ 32"
    and "alt_nticks (ticker s) \<le> n" "sint (tv_sec t) + uint n div uint (alt_tick_rate (ticker s)) + 1 < 2 ^ 31"
  shows "\<exists>s' t'. ALT_SETTIMEOFDAY t (Some z) env s = Inr (0, s') \<and>
     ALT_GETTIMEOFDAY True env (ticked n s') = Inr ((0, Some (t', Some z)), ticked n s') \<and> timeval_ok t' \<and>
     microseconds t' = microseconds t +
       (uint n - uint (alt_nticks (ticker s))) * (1000000 div uint (alt_tick_rate (ticker s)))"
proof -
  define r m where "r = alt_tick_rate (ticker s)" and "m = alt_nticks (ticker s)"
  note prems = assms [folded r_def m_def]
  note q = tick_rate_us [OF prems(2)]
  let ?q = "1000000 div uint r"
  have M: "0 \<le> k * ?q mod 1000000" "k * ?q mod 1000000 < 1000000" for k by simp_all
  have D: "0 \<le> uint m div uint r" "uint m div uint r \<le> uint n div uint r"
    using q(1) prems(4) by (simp_all add: pos_imp_zdiv_nonneg_iff word_le_def zdiv_mono1)
  have mono: "uint m * ?q \<le> uint n * ?q"
    using prems(4) q(1) by (intro mult_right_mono) (simp_all add: word_le_def pos_imp_zdiv_nonneg_iff)
  define reset where "reset = \<lparr>tv_sec = tv_sec t - m div r, tv_usec = tv_usec t - m * (ALT_US div r) mod ALT_US\<rparr>"
  define tv where "tv = \<lparr>tv_sec = tv_sec reset + n div r, tv_usec = tv_usec reset + ucast ((ucast n * ucast (ALT_US div r)) mod 1000000 :: 64 word)\<rparr>"
  have rs: "sint (tv_sec reset) = sint (tv_sec t) - uint m div uint r" "sint (tv_usec reset) = sint (tv_usec t) - uint m * ?q mod 1000000"
    using clock_set [OF prems(1-3)] by (simp_all add: reset_def)
  have T: "0 \<le> sint (tv_sec t)" "0 \<le> sint (tv_usec t)" "sint (tv_usec t) < 1000000" using prems(1) by (simp_all add: timeval_ok_def)
  have ts: "sint (tv_sec tv) = sint (tv_sec t) - uint m div uint r + uint n div uint r"
    "sint (tv_usec tv) = sint (tv_usec t) - uint m * ?q mod 1000000 + uint n * ?q mod 1000000"
    using clock_get [OF prems(2), of "tv_sec reset" n "tv_usec reset"] rs T D M [of "uint m"] prems(5) by (simp_all add: tv_def)
  have total: "microseconds tv = microseconds t + (uint n - uint m) * ?q"
  proof -
    obtain A B where AB: "uint n * ?q mod 1000000 = A" "uint m * ?q mod 1000000 = B" by blast
    note q(4) [of "uint n", unfolded AB] q(4) [of "uint m", unfolded AB]
    then show ?thesis unfolding microseconds_def ts AB left_diff_distrib by simp
  qed
  moreover have "0 \<le> microseconds t" using T by (simp add: microseconds_def)
  ultimately have "0 \<le> microseconds tv" using mono by (simp add: left_diff_distrib)
  then have "timeval_ok (usec_carry (usec_borrow tv)) \<and> microseconds (usec_carry (usec_borrow tv)) = microseconds tv"
    using usec_range [of tv] ts T D M [of "uint m"] M [of "uint n"] prems(5) by simp
  moreover have "ALT_SETTIMEOFDAY t (Some z) env s = Inr (0, s\<lparr>alt_resettime := reset, alt_timezone := z\<rparr>)"
    using q(1) by (auto simp: ALT_SETTIMEOFDAY_def bnd_def gets_def modify_def ret_def reset_def r_def m_def)
  moreover have "ALT_GETTIMEOFDAY True env (ticked n (s\<lparr>alt_resettime := reset, alt_timezone := z\<rparr>)) =
      Inr ((0, Some (usec_carry (usec_borrow tv), Some z)), ticked n (s\<lparr>alt_resettime := reset, alt_timezone := z\<rparr>))"
    using q(1) by (auto simp: ALT_GETTIMEOFDAY_def bnd_def gets_def ret_def ticked_def tv_def r_def Let_def)
  ultimately show ?thesis using total unfolding m_def r_def
    by (intro exI [of _ "s\<lparr>alt_resettime := reset, alt_timezone := z\<rparr>"] exI [of _ "usec_carry (usec_borrow tv)"]) simp
qed

definition clock_at :: "u32 \<Rightarrow> u32 \<Rightarrow> unit wall_clock" where
  "clock_at rate n = clock_boot ((timer_boot (\<lambda>_. \<lparr>al_time = 0, al_callback = 0, al_rollover = 0, al_context = 0\<rparr>) ())
     \<lparr>alt_tick_rate := rate, alt_nticks := n\<rparr>)"

lemma wall_clock_runs_witness:
  "\<exists>s' t'. ALT_SETTIMEOFDAY \<lparr>tv_sec = 100, tv_usec = 999000\<rparr> (Some \<lparr>tz_minuteswest = 0, tz_dsttime = 0\<rparr>) (\<lambda>_ _. 0) (clock_at 1000 5) = Inr (0, s') \<and>
     ALT_GETTIMEOFDAY True (\<lambda>_ _. 0) (ticked 8 s') = Inr ((0, Some (t', Some \<lparr>tz_minuteswest = 0, tz_dsttime = 0\<rparr>)), ticked 8 s') \<and>
     microseconds t' = 101002000"
proof -
  have "\<exists>s' t'. ALT_SETTIMEOFDAY \<lparr>tv_sec = 100, tv_usec = 999000\<rparr> (Some \<lparr>tz_minuteswest = 0, tz_dsttime = 0\<rparr>) (\<lambda>_ _. 0) (clock_at 1000 5) = Inr (0, s') \<and>
     ALT_GETTIMEOFDAY True (\<lambda>_ _. 0) (ticked 8 s') = Inr ((0, Some (t', Some \<lparr>tz_minuteswest = 0, tz_dsttime = 0\<rparr>)), ticked 8 s') \<and> timeval_ok t' \<and>
     microseconds t' = microseconds \<lparr>tv_sec = 100, tv_usec = 999000\<rparr> +
       (uint (8 :: u32) - uint (alt_nticks (ticker (clock_at 1000 5)))) * (1000000 div uint (alt_tick_rate (ticker (clock_at 1000 5))))"
    by (rule wall_clock_runs) (simp_all add: timeval_ok_def clock_at_def clock_boot_def)
  then show ?thesis by (simp add: microseconds_def clock_at_def clock_boot_def) blast
qed

text \<open>
  Later than that the clock is set wrong: with 1000 ticks per second, at tick 4294968 the time read
  back at once is 0.967296 seconds ahead, as setting multiplies in 32 bits and reading in 64.
\<close>

lemma wall_clock_set_wrong:
  "\<exists>s'. ALT_SETTIMEOFDAY \<lparr>tv_sec = 100, tv_usec = 0\<rparr> (Some z) env (clock_at 1000 4294968) = Inr (0, s') \<and>
     ALT_GETTIMEOFDAY False env s' = Inr ((0, Some (\<lparr>tv_sec = 100, tv_usec = 967296\<rparr>, None)), s')"
  by (simp add: ALT_SETTIMEOFDAY_def ALT_GETTIMEOFDAY_def bnd_def gets_def modify_def ret_def clock_at_def clock_boot_def
    usec_borrow.simps usec_carry.simps ALT_US_def)

text \<open>Without a time zone setting the clock reads through a null pointer; without a tick all calls fail.\<close>

lemma settimeofday_null_zone:
  "alt_tick_rate (ticker s) \<noteq> 0 \<Longrightarrow> ALT_SETTIMEOFDAY t None env s = Inl OutOfBounds"
  by (simp add: ALT_SETTIMEOFDAY_def bnd_def gets_def modify_def fail_def)

lemma clock_without_tick:
  assumes "alt_tick_rate (ticker s) = 0"
  shows "ALT_SETTIMEOFDAY t tz env s = Inr (-1, s\<lparr>clock_errno := CLOCK_ENOSYS\<rparr>)"
    "ALT_GETTIMEOFDAY zone env s = Inr ((- ALARM_ENOTSUP, None), s)"
    "ALT_TIMES env s = Inr ((0, None), s\<lparr>clock_errno := CLOCK_ENOSYS\<rparr>)"
  using assms by (simp_all add: ALT_SETTIMEOFDAY_def ALT_GETTIMEOFDAY_def ALT_TIMES_def bnd_def gets_def modify_def ret_def)

end
