(* ===== verification/Busy_Sleep.thy ===== *)
theory Busy_Sleep
  imports Platform
begin

text \<open>
  The delay loop behind \<open>usleep\<close>, \<^verbatim>\<open>HAL/src/alt_busy_sleep.c\<close>: the two assembly loops, counting down
  a register, each started with its operand, and the split of long delays into pieces that fit a signed integer. The result is the
  number of passes through the loops, each of which takes \<open>cycles_per_loop\<close> cycles of the processor;
  \<open>None\<close> is a loop that does not end.
\<close>

section \<open>The loops\<close>

definition NIOS2_CPU_IMPLEMENTATION :: string where "NIOS2_CPU_IMPLEMENTATION = ''tiny''"
definition INT_MAX :: u32 where "INT_MAX = 0x7FFFFFFF"

text \<open>\<open>addi r, r, -1; bne r, zero\<close> and \<open>addi r, r, -1; bgt r, zero\<close>, with the passes so far.\<close>

partial_function (option) spin_bne :: "u32 \<Rightarrow> nat \<Rightarrow> nat option" where
  "spin_bne r k = (if r - 1 \<noteq> 0 then spin_bne (r - 1) (Suc k) else Some (Suc k))"

partial_function (option) spin_bgt :: "u32 \<Rightarrow> nat \<Rightarrow> nat option" where
  "spin_bgt r k = (if 0 < sint (r - 1) then spin_bgt (r - 1) (Suc k) else Some (Suc k))"

definition cycles_per_loop :: u32 where
  "cycles_per_loop = (if NIOS2_CPU_IMPLEMENTATION = ''tiny'' then 9 else 3)"

definition loops_per_us :: u32 where "loops_per_us = ALT_CPU_FREQ div (cycles_per_loop * 1000000)"

text \<open>The pieces of \<open>INT_MAX\<close> passes, with what is left of the delay.\<close>

primrec big_loops :: "nat \<Rightarrow> u32 \<Rightarrow> nat \<Rightarrow> (u32 \<times> nat) option" where
  "big_loops 0 us k = Some (us, k)"
| "big_loops (Suc n) us k =
     Option.bind (spin_bne INT_MAX k) (\<lambda>k'. big_loops n (us - INT_MAX div loops_per_us) k')"

definition alt_busy_sleep :: "u32 \<Rightarrow> nat option" where
  "alt_busy_sleep us =
     (let big = us div (INT_MAX div loops_per_us) in
      if big \<noteq> 0 then
        Option.bind (big_loops (unat big) us 0) (\<lambda>r. spin_bne (fst r * loops_per_us) (snd r))
      else spin_bgt (us * loops_per_us) 0)"

definition alt_usleep :: "u32 \<Rightarrow> nat option" where
  "alt_usleep us = alt_busy_sleep us"

section \<open>How long they run\<close>

lemma unat_minus_1: "r \<noteq> 0 \<Longrightarrow> unat (r - 1 :: u32) = unat r - 1"
  by (simp add: unat_minus_one)

lemma spin_bne_pos: "r \<noteq> 0 \<Longrightarrow> spin_bne r k = Some (k + unat r)"
proof (induction "unat r" arbitrary: r k rule: less_induct)
  case less
  have p: "0 < unat r" using less.prems by (simp add: unat_gt_0)
  show ?case
  proof (cases "r - 1 = 0")
    case True
    then have "r = 1" by simp
    then show ?thesis by (subst spin_bne.simps) simp
  next
    case False
    have "spin_bne (r - 1) (Suc k) = Some (Suc k + unat (r - 1))"
      by (rule less.hyps [OF _ False]) (use p unat_minus_1 [OF less.prems] in simp)
    with False p unat_minus_1 [OF less.prems] show ?thesis by (subst spin_bne.simps) simp
  qed
qed

text \<open>Started with zero the first loop wraps around and goes through all values.\<close>

lemma spin_bne_0: "spin_bne 0 k = Some (k + 2 ^ 32)"
proof -
  have "spin_bne (- 1) (Suc k) = Some (Suc k + unat (- 1 :: u32))" by (rule spin_bne_pos) simp
  moreover have "unat (- 1 :: u32) = 2 ^ 32 - 1" by (simp add: unsigned_minus_1_eq_mask mask_eq_exp_minus_1)
  ultimately show ?thesis by (subst spin_bne.simps) simp
qed

lemma spin_bgt_pos: "r \<noteq> 0 \<Longrightarrow> unat r < 2 ^ 31 \<Longrightarrow> spin_bgt r k = Some (k + unat r)"
proof (induction "unat r" arbitrary: r k rule: less_induct)
  case less
  have p: "0 < unat r" using less.prems(1) by (simp add: unat_gt_0)
  note m = unat_minus_1 [OF less.prems(1)]
  have s: "sint (r - 1) = int (unat (r - 1))" by (rule sint_pos) (use m less.prems(2) in linarith)
  show ?case
  proof (cases "r - 1 = 0")
    case True
    then have "r = 1" by simp
    then show ?thesis by (subst spin_bgt.simps) simp
  next
    case False
    have "spin_bgt (r - 1) (Suc k) = Some (Suc k + unat (r - 1))"
      by (rule less.hyps [OF _ False]) (use p m less.prems(2) in linarith)+
    moreover have "0 < sint (r - 1)" using s False unat_gt_0 [of "r - 1"] by linarith
    ultimately show ?thesis using p m by (subst spin_bgt.simps) simp
  qed
qed

lemma loops_per_us: "loops_per_us = 11" "INT_MAX div loops_per_us = 195225786"
  by (simp_all add: loops_per_us_def ALT_CPU_FREQ_def cycles_per_loop_def NIOS2_CPU_IMPLEMENTATION_def INT_MAX_def)

lemma big_loops_run:
  "big_loops n us k = Some (us - of_nat n * 195225786, k + n * (2 ^ 31 - 1))"
proof (induction n arbitrary: us k)
  case (Suc n)
  have "spin_bne INT_MAX k = Some (k + (2 ^ 31 - 1))" by (subst spin_bne_pos) (simp_all add: INT_MAX_def)
  with Suc show ?case by (simp add: loops_per_us(2) algebra_simps)
qed simp

text \<open>
  C33: for every delay the loops end, after an exact number of passes. A delay of zero takes one pass,
  one below 195225786 microseconds eleven per microsecond. In a longer delay every full piece of
  195225786 microseconds takes \<open>INT_MAX\<close> = 2^31 - 1 passes, one more than eleven per microsecond, and the
  rest eleven per microsecond; when the rest is zero the last loop is entered with zero, wraps around
  and is passed another 2^32 times.
\<close>

lemma busy_sleep_passes:
  "alt_busy_sleep us = Some
     (if us = 0 then 1
      else if unat us < 195225786 then 11 * unat us
      else unat us div 195225786 * (2 ^ 31 - 1) +
        (if unat us mod 195225786 = 0 then 2 ^ 32 else 11 * (unat us mod 195225786)))"
proof -
  let ?c = "195225786 :: nat"
  let ?big = "us div (INT_MAX div loops_per_us)"
  have c: "unat (195225786 :: u32) = ?c" by simp
  have big: "unat ?big = unat us div ?c" by (simp add: loops_per_us(2) unat_div)
  have eleven: "unat (r * 11 :: u32) = 11 * unat r" if "unat r < ?c" for r
    using that by (simp add: unat_word_ariths)
  show ?thesis
  proof (cases "unat us < ?c")
    case True
    then have "?big = 0" using big by (simp add: unat_eq_0 [symmetric])
    moreover have "spin_bgt (us * 11) 0 = Some (if us = 0 then 1 else 11 * unat us)"
    proof (cases "us = 0")
      case True
      then show ?thesis by (subst spin_bgt.simps) simp
    next
      case False
      then have "us * 11 \<noteq> 0" using eleven [OF True] by (metis mult_eq_0_iff unat_0 unat_eq_0 zero_neq_numeral)
      with False eleven [OF True] True show ?thesis by (simp add: spin_bgt_pos)
    qed
    ultimately show ?thesis using True by (auto simp: alt_busy_sleep_def loops_per_us(1) split: if_splits)
  next
    case False
    then have "?big \<noteq> 0" using big by (metis div_greater_zero_iff less_irrefl not_less unat_0 zero_less_numeral)
    define r where "r = us - of_nat (unat us div ?c) * 195225786"
    have "us = of_nat (unat us)" by simp
    also have "\<dots> = of_nat (unat us div ?c * ?c + unat us mod ?c)" by (simp only: div_mult_mod_eq)
    also have "\<dots> = of_nat (unat us div ?c) * 195225786 + of_nat (unat us mod ?c)"
      by (simp only: of_nat_add of_nat_mult of_nat_numeral)
    finally have "us - of_nat (unat us div ?c) * 195225786 = of_nat (unat us mod ?c)" by (metis add_diff_cancel_left')
    then have "r = of_nat (unat us mod ?c)" by (simp add: r_def)
    then have ur: "unat r = unat us mod ?c" by (simp add: unat_of_nat)
    have "spin_bne (r * 11) k = Some (k + (if unat us mod ?c = 0 then 2 ^ 32 else 11 * (unat us mod ?c)))" for k
    proof (cases "r = 0")
      case True
      with ur show ?thesis by (simp add: spin_bne_0)
    next
      case False
      have lt: "unat r < ?c" using ur by simp
      have "r * 11 \<noteq> 0" using eleven [OF lt] False by (metis mult_eq_0_iff unat_0 unat_eq_0 zero_neq_numeral)
      moreover have "unat us mod ?c \<noteq> 0" using False ur by (simp add: unat_eq_0 [symmetric])
      ultimately show ?thesis using spin_bne_pos eleven [OF lt] ur by simp
    qed
    moreover have "alt_busy_sleep us = spin_bne (r * 11) (unat us div ?c * (2 ^ 31 - 1))"
    proof -
      have bl: "big_loops (unat ?big) us 0 = Some (r, unat us div ?c * (2 ^ 31 - 1))"
        by (simp only: big_loops_run big r_def add_0)
      have "alt_busy_sleep us = Option.bind (big_loops (unat ?big) us 0) (\<lambda>r. spin_bne (fst r * loops_per_us) (snd r))"
        unfolding alt_busy_sleep_def Let_def using \<open>?big \<noteq> 0\<close> by (rule if_P)
      also have "\<dots> = spin_bne (r * 11) (unat us div ?c * (2 ^ 31 - 1))"
        unfolding bl by (simp only: loops_per_us(1) bind.bind_lunit fst_conv snd_conv)
      finally show ?thesis .
    qed
    moreover have "us \<noteq> 0" using False by auto
    ultimately show ?thesis using False by simp
  qed
qed

end
