(* ===== verification/Heap.thy ===== *)
theory Heap
  imports Prelude
begin

text \<open>
  The heap break, \<^verbatim>\<open>HAL/src/alt_sbrk.c\<close>, without the stack check, which this system leaves out.
  The start of the heap, which the linker places, is a parameter; its limit is the end of the
  on-chip memory.
\<close>

definition alt_heap_limit :: u32 where "alt_heap_limit = 0x10000"

text \<open>The call, on the break; interrupts are off in it.\<close>

definition ALT_SBRK :: "u32 \<Rightarrow> (u32, u32) prog" where
  "ALT_SBRK incr =
     bnd (modify (\<lambda>heap_end. (heap_end + 3) AND NOT 3)) (\<lambda>_.
     bnd (gets (\<lambda>heap_end. alt_heap_limit < heap_end + incr)) (\<lambda>full.
     if full then ret (-1)
     else
       bnd (gets id) (\<lambda>prev_heap_end.
       bnd (modify (\<lambda>heap_end. heap_end + incr)) (\<lambda>_.
       ret prev_heap_end))))"

text \<open>The blocks that a sequence of calls returns, with their sizes.\<close>

primrec sbrk_blocks :: "env \<Rightarrow> u32 list \<Rightarrow> u32 \<Rightarrow> (nat \<times> nat) list" where
  "sbrk_blocks env [] e = []"
| "sbrk_blocks env (incr # incrs) e =
     (case ALT_SBRK incr env e of
        Inl f \<Rightarrow> []
      | Inr (p, e') \<Rightarrow> (if p = -1 then [] else [(unat p, unat incr)]) @ sbrk_blocks env incrs e')"

section \<open>Blocks\<close>

lemma word_align:
  assumes "unat (e :: u32) + 3 < 2 ^ 32"
  shows "unat ((e + 3) AND NOT 3) = (unat e + 3) div 4 * 4"
proof -
  have "(e + 3) AND NOT 3 = push_bit 2 (drop_bit 2 (e + 3))"
  proof (rule bit_word_eqI)
    fix i
    have "bit (3 :: u32) i \<longleftrightarrow> i < 2" using bit_mask_iff [of 2 i, where ?'a = u32] by (auto simp: mask_eq_exp_minus_1 dest: bit_imp_le_length)
    then show "i < LENGTH(32) \<Longrightarrow> bit ((e + 3) AND NOT 3) i = bit (push_bit 2 (drop_bit 2 (e + 3))) i"
      by (cases "i < 2") (auto simp: bit_simps dest!: le_Suc_ex [OF leI])
  qed
  moreover have "unat (e + 3) = unat e + 3" using assms by (simp add: unat_word_ariths)
  moreover have "unat (push_bit 2 (drop_bit 2 w)) = unat w div 4 * 4" for w :: u32
  proof -
    have "unat w div 4 * 4 < 2 ^ 32" using unsigned_less [of w, where ?'a = nat] by (simp add: order_le_less_trans [OF div_times_less_eq_dividend])
    then show ?thesis by (simp add: push_bit_eq_mult drop_bit_eq_div unat_word_ariths unat_div)
  qed
  ultimately show ?thesis by simp
qed

definition aligned :: "nat \<Rightarrow> nat" where
  "aligned e = (e + 3) div 4 * 4"

lemma aligned: "e \<le> aligned e" "aligned e mod 4 = 0" "e \<le> 0x10000 \<Longrightarrow> aligned e \<le> 0x10000"
  by (simp_all add: aligned_def)

lemma sbrk_run:
  assumes "unat e \<le> 0x10000" "unat incr < 2 ^ 31"
  shows "ALT_SBRK incr env e =
     (if aligned (unat e) + unat incr \<le> 0x10000
      then Inr (of_nat (aligned (unat e)), of_nat (aligned (unat e) + unat incr))
      else Inr (-1, of_nat (aligned (unat e))))"
proof -
  let ?b = "aligned (unat e)"
  have b: "(e + 3) AND NOT 3 = of_nat ?b"
  proof -
    have "unat ((e + 3) AND NOT 3) = ?b" using word_align [of e] assms(1) by (simp add: aligned_def)
    then show ?thesis by (metis of_nat_unat ucast_id)
  qed
  have "?b \<le> 0x10000" using aligned(3) [OF assms(1)] .
  then have "unat (of_nat ?b + incr) = ?b + unat incr" using assms(2) by (simp add: unat_word_ariths unat_of_nat)
  then have "alt_heap_limit < of_nat ?b + incr \<longleftrightarrow> \<not> ?b + unat incr \<le> 0x10000"
    by (simp add: word_less_nat_alt alt_heap_limit_def not_le)
  then show ?thesis by (simp add: ALT_SBRK_def bnd_def gets_def modify_def ret_def b [simplified])
qed


lemma nonneg_small: "0 \<le> sint (n :: u32) \<Longrightarrow> unat n < 2 ^ 31"
proof -
  assume n: "0 \<le> sint n"
  moreover have "sint n < 2 ^ 31" using sint_range_size [of n] by (simp add: word_size)
  ultimately have "uint (word_of_int (sint n) :: u32) = sint n" by (subst uint_word_of_int_eq) (simp add: take_bit_int_eq_self)
  then have "uint n < 2 ^ 31" using \<open>sint n < 2 ^ 31\<close> by simp
  moreover have "uint n = int (unat n)" by (rule uint_nat)
  ultimately have "int (unat n) < int (2 ^ 31)" by (simp only: of_nat_power of_nat_numeral)
  then show "unat n < 2 ^ 31" by (simp only: of_nat_less_iff)
qed

lemma sbrk_blocks_run:
  assumes "unat e \<le> 0x10000" "\<forall>n \<in> set incrs. unat n < 2 ^ 31"
  shows "sorted_wrt (\<lambda>(p, n) (p', n'). p + n \<le> p') (sbrk_blocks env incrs e) \<and>
     (\<forall>(p, n) \<in> set (sbrk_blocks env incrs e). unat e \<le> p \<and> p + n \<le> 0x10000 \<and> p mod 4 = 0)"
  using assms
proof (induction incrs arbitrary: e)
  case (Cons n ns)
  let ?b = "aligned (unat e)"
  have n: "unat n < 2 ^ 31" using Cons.prems(2) by simp
  have b: "unat e \<le> ?b" "?b \<le> 0x10000" "?b mod 4 = 0" using aligned Cons.prems(1) by auto
  have "unat (of_nat ?b :: u32) = ?b" using b(2) by (simp add: unat_of_nat)
  moreover have "unat (of_nat (?b + unat n) :: u32) = ?b + unat n" if "?b + unat n \<le> 0x10000" using that by (simp add: unat_of_nat del: of_nat_add)
  moreover have "of_nat ?b \<noteq> (- 1 :: u32)" using calculation(1) b(2) by (auto simp: unsigned_minus_1_eq_mask mask_eq_exp_minus_1)
  ultimately show ?case
  proof (cases "?b + unat n \<le> 0x10000")
    case True
    have "sbrk_blocks env (n # ns) e = (?b, unat n) # sbrk_blocks env ns (of_nat (?b + unat n))"
      using True \<open>of_nat ?b \<noteq> - 1\<close> \<open>unat (of_nat ?b :: u32) = ?b\<close> by (simp add: sbrk_run [OF Cons.prems(1) n] del: of_nat_add)
    moreover have "unat (of_nat (?b + unat n) :: u32) = ?b + unat n" using True by (simp add: unat_of_nat del: of_nat_add)
    ultimately show ?thesis using Cons.IH [of "of_nat (?b + unat n)"] Cons.prems(2) True b by fastforce
  next
    case False
    have "sbrk_blocks env (n # ns) e = sbrk_blocks env ns (of_nat ?b)"
      using False by (simp add: sbrk_run [OF Cons.prems(1) n] del: of_nat_add)
    with \<open>unat (of_nat ?b :: u32) = ?b\<close> show ?thesis using Cons.IH [of "of_nat ?b"] Cons.prems(2) b by fastforce
  qed
qed simp

text \<open>
  The blocks that any sequence of requests of non-negative size gets from the break are word
  aligned, do not overlap and lie between the start of the heap and its limit.
\<close>

lemma sbrk_disjoint:
  assumes "unat alt_heap_start \<le> 0x10000" "\<forall>n \<in> set incrs. 0 \<le> sint (n :: u32)"
  shows "sorted_wrt (\<lambda>(p, n) (p', n'). p + n \<le> p') (sbrk_blocks env incrs alt_heap_start) \<and>
     (\<forall>(p, n) \<in> set (sbrk_blocks env incrs alt_heap_start).
        unat alt_heap_start \<le> p \<and> p + n \<le> unat alt_heap_limit \<and> p mod 4 = 0)"
proof -
  have "\<forall>n \<in> set incrs. unat n < 2 ^ 31" using assms(2) nonneg_small by blast
  from sbrk_blocks_run [OF assms(1) this] show ?thesis by (simp add: alt_heap_limit_def)
qed

lemma sbrk_disjoint_witness:
  "sbrk_blocks (\<lambda>_ _. 0) [5, 3, 0x10000] 0x9001 = [(0x9004, 5), (0x900C, 3)] \<and> (0x9004 :: nat) mod 4 = 0"
proof -
  have "sbrk_blocks (\<lambda>_ _. 0) [5, 3, 0x10000] 0x9001 = [(0x9004, 5), (0x900C, 3)]"
    by (simp add: ALT_SBRK_def bnd_def gets_def modify_def ret_def alt_heap_limit_def)
  with sbrk_disjoint [where alt_heap_start = "0x9001" and incrs = "[5, 3, 0x10000]" and env = "\<lambda>_ _. 0"] show ?thesis by simp
qed

text \<open>A negative request is not checked against the start of the heap.\<close>

lemma sbrk_below_start: "ALT_SBRK (- 0x9000) env 0x9004 = Inr (0x9004, 4)"
  by (simp add: ALT_SBRK_def bnd_def gets_def modify_def ret_def alt_heap_limit_def)

end
