(* ===== verification/Gmon.thy ===== *)
theory Gmon
  imports Alarms Heap Platform
begin

text \<open>
  The profiler, \<^verbatim>\<open>HAL/src/alt_gmon.c\<close> and its assembly entry \<^verbatim>\<open>alt_mcount.S\<close>: the call graph that
  \<open>mcount\<close> records at the start of every function, and the histogram of program counters sampled by
  an alarm. The profiler's variables are the state outside the timer (\<open>tick_drivers\<close>). The structures
  of the graph are cells of a typed heap, addressed by where \<open>sbrk\<close> put them; an access outside the
  on-chip memory is \<open>OutOfBounds\<close>. Interrupts are off while the graph is changed.
\<close>

section \<open>State\<close>

definition PCSAMPLE_BYTES_PER_BUCKET :: u32 where "PCSAMPLE_BYTES_PER_BUCKET = 32"
definition HASH_BUCKETS :: nat where "HASH_BUCKETS = 64"
definition MCOUNT_SLAB_INCREMENT :: u32 where "MCOUNT_SLAB_INCREMENT = 1020"

definition GMON_DATA_PROFILE_DATA :: nat where "GMON_DATA_PROFILE_DATA = 2"
definition GMON_DATA_PROFILE_RATE :: nat where "GMON_DATA_PROFILE_RATE = 6"
definition GMON_DATA_SIZE :: nat where "GMON_DATA_SIZE = 9"

record mcount_fn_arc =
  arc_next :: addr
  arc_from_pc :: u32
  arc_count :: u32

record mcount_fn_entry =
  fn_next :: addr
  fn_self_pc :: u32
  fn_arc_head :: addr

record gmon =
  pcsample_need_init :: u32
  mcount_fn_head :: "addr list"
  fn_entries :: "addr \<Rightarrow> mcount_fn_entry"
  fn_arcs :: "addr \<Rightarrow> mcount_fn_arc"
  s_pcsamples :: addr
  pcsamples :: "u16 list"
  s_low_pc :: u32
  s_high_pc :: u32
  alt_gmon_data :: "u32 list"
  mcount_slab_ptr :: addr
  mcount_slab_size :: u32
  heap_end :: addr

text \<open>Before \<open>main\<close>: text section and head array where the linker put them, the heap empty.\<close>

definition gmon_boot :: "u32 \<Rightarrow> u32 \<Rightarrow> addr \<Rightarrow> addr \<Rightarrow> gmon" where
  "gmon_boot stext etext head heap =
     \<lparr>pcsample_need_init = 1, mcount_fn_head = replicate HASH_BUCKETS NULL,
      fn_entries = \<lambda>_. \<lparr>fn_next = NULL, fn_self_pc = 0, fn_arc_head = NULL\<rparr>,
      fn_arcs = \<lambda>_. \<lparr>arc_next = NULL, arc_from_pc = 0, arc_count = 0\<rparr>,
      s_pcsamples = NULL, pcsamples = [], s_low_pc = stext, s_high_pc = etext,
      alt_gmon_data = [0x6e6f6d67, of_nat GMON_DATA_SIZE, 0, stext, etext, PCSAMPLE_BYTES_PER_BUCKET, 0,
        head, head + of_nat (4 * HASH_BUCKETS)],
      mcount_slab_ptr = NULL, mcount_slab_size = 0, heap_end = heap\<rparr>"

abbreviation from_gmon :: "(gmon \<Rightarrow> 'a) \<Rightarrow> (gmon timer, 'a) prog" where
  "from_gmon f \<equiv> gets (\<lambda>s. f (tick_drivers s))"

definition on_gmon :: "(gmon \<Rightarrow> gmon) \<Rightarrow> (gmon timer, unit) prog" where
  "on_gmon f = modify (\<lambda>s. s\<lparr>tick_drivers := f (tick_drivers s)\<rparr>)"

text \<open>An access of \<open>n\<close> bytes must lie in the on-chip memory.\<close>

definition check_memory :: "addr \<Rightarrow> nat \<Rightarrow> (gmon timer, unit) prog" where
  "check_memory a n =
     (if n = 0 \<or> OC_MEM_BASE \<le> a \<and> unat a + n \<le> unat alt_heap_limit then ret () else fail OutOfBounds)"

definition sbrk :: "u32 \<Rightarrow> (gmon timer, u32) prog" where
  "sbrk incr = (\<lambda>env s.
     case ALT_SBRK incr env (heap_end (tick_drivers s)) of
       Inl f \<Rightarrow> Inl f
     | Inr (p, e) \<Rightarrow> Inr (p, s\<lparr>tick_drivers := (tick_drivers s)\<lparr>heap_end := e\<rparr>\<rparr>))"

section \<open>Sampling the program counter\<close>

text \<open>The alarm's callback; \<open>pc\<close> is the exception return address the callback reads.\<close>

definition nios2_pcsample :: "u32 \<Rightarrow> (gmon timer, u32) prog" where
  "nios2_pcsample pc =
     bnd (gets tick_drivers) (\<lambda>g.
     bnd (if s_low_pc g \<le> pc \<and> pc < s_high_pc g \<and> s_pcsamples g \<noteq> 0 then
            let bucket = unat ((pc - s_low_pc g) div PCSAMPLE_BYTES_PER_BUCKET) in
            if bucket < length (pcsamples g)
            then on_gmon (\<lambda>g. g\<lparr>pcsamples := (pcsamples g)[bucket := pcsamples g ! bucket + 1]\<rparr>)
            else fail OutOfBounds
          else ret ()) (\<lambda>_.
     ret 1))"

definition s_nios2_pcsample_alarm :: addr where "s_nios2_pcsample_alarm = 0x8040"
definition NIOS2_PCSAMPLE :: u32 where "NIOS2_PCSAMPLE = 0x8060"

definition nios2_pcsample_init :: "(gmon timer, u32) prog" where
  "nios2_pcsample_init =
     bnd alt_ticks_per_second (\<lambda>prof_rate.
     if prof_rate = 0 then ret 1
     else
       bnd (gets tick_drivers) (\<lambda>g.
       let pcsamples_size = (s_high_pc g - s_low_pc g) div PCSAMPLE_BYTES_PER_BUCKET in
       bnd (sbrk (pcsamples_size * 2)) (\<lambda>p.
       bnd (on_gmon (\<lambda>g. g\<lparr>s_pcsamples := p\<rparr>)) (\<lambda>_.
       bnd (if p \<noteq> 0 then seqs
              [check_memory p (2 * unat pcsamples_size),
               on_gmon (\<lambda>g. g\<lparr>pcsamples := replicate (unat pcsamples_size) 0\<rparr>),
               on_gmon (\<lambda>g. g\<lparr>alt_gmon_data := (alt_gmon_data g)[GMON_DATA_PROFILE_DATA := p, GMON_DATA_PROFILE_RATE := prof_rate]\<rparr>),
               void (alt_alarm_start s_nios2_pcsample_alarm 1 NIOS2_PCSAMPLE 0)]
            else ret ()) (\<lambda>_.
       ret 0)))))"

section \<open>Recording calls\<close>

text \<open>Blocks are cut from slabs of 1020 bytes; the result of \<open>sbrk\<close> is not checked.\<close>

definition mcount_allocate :: "u32 \<Rightarrow> (gmon timer, addr) prog" where
  "mcount_allocate n =
     bnd (from_gmon mcount_slab_size) (\<lambda>left.
     bnd (if left < n then
            bnd (sbrk MCOUNT_SLAB_INCREMENT) (\<lambda>p.
            on_gmon (\<lambda>g. g\<lparr>mcount_slab_ptr := p, mcount_slab_size := MCOUNT_SLAB_INCREMENT\<rparr>))
          else ret ()) (\<lambda>_.
     bnd (from_gmon mcount_slab_ptr) (\<lambda>data.
     bnd (on_gmon (\<lambda>g. g\<lparr>mcount_slab_ptr := mcount_slab_ptr g + n, mcount_slab_size := mcount_slab_size g - n\<rparr>)) (\<lambda>_.
     ret data))))"

text \<open>Both structures have three words. A new cell is linked in front of its list.\<close>

definition new_fn_entry :: "u32 \<Rightarrow> nat \<Rightarrow> (gmon timer, addr) prog" where
  "new_fn_entry self_pc i =
     bnd (mcount_allocate 12) (\<lambda>e.
     bnd (check_memory e 12) (\<lambda>_.
     bnd (on_gmon (\<lambda>g. g\<lparr>
       fn_entries := (fn_entries g)(e := \<lparr>fn_next = mcount_fn_head g ! i, fn_self_pc = self_pc, fn_arc_head = NULL\<rparr>),
       mcount_fn_head := (mcount_fn_head g)[i := e]\<rparr>)) (\<lambda>_.
     ret e)))"

definition new_arc :: "addr \<Rightarrow> u32 \<Rightarrow> (gmon timer, unit) prog" where
  "new_arc e from_pc =
     bnd (mcount_allocate 12) (\<lambda>a.
     bnd (check_memory a 12) (\<lambda>_.
     on_gmon (\<lambda>g. g\<lparr>
       fn_arcs := (fn_arcs g)(a := \<lparr>arc_next = fn_arc_head (fn_entries g e), arc_from_pc = from_pc, arc_count = 1\<rparr>),
       fn_entries := (fn_entries g)(e := (fn_entries g e)\<lparr>fn_arc_head := a\<rparr>)\<rparr>)))"

definition mcount_record :: "u32 \<Rightarrow> u32 \<Rightarrow> addr \<Rightarrow> nat \<Rightarrow> (gmon timer, unit) prog" where
  "mcount_record self_pc from_pc fn_entry i =
     bnd (from_gmon pcsample_need_init) (\<lambda>need_init.
     bnd (if need_init \<noteq> 0 then
            bnd (on_gmon (\<lambda>g. g\<lparr>pcsample_need_init := 0\<rparr>)) (\<lambda>_.
            bnd nios2_pcsample_init (\<lambda>r. on_gmon (\<lambda>g. g\<lparr>pcsample_need_init := r\<rparr>)))
          else ret ()) (\<lambda>_.
     bnd (if fn_entry = NULL then new_fn_entry self_pc i else ret fn_entry) (\<lambda>e.
     new_arc e from_pc)))"

text \<open>
  The assembly: the list of the bucket is searched for the function, the function's arcs for the
  caller. The first arc is read without a test for null.
\<close>

definition mcount_bucket :: "u32 \<Rightarrow> nat" where
  "mcount_bucket self_pc = unat (drop_bit 2 (drop_bit 3 self_pc AND 0xFC))"

partial_function (option) find_fn :: "(addr \<Rightarrow> mcount_fn_entry) \<Rightarrow> u32 \<Rightarrow> addr \<Rightarrow> addr option" where
  "find_fn en self_pc p =
     (if p = NULL then Some NULL
      else if fn_self_pc (en p) = self_pc then Some p
      else find_fn en self_pc (fn_next (en p)))"

partial_function (option) find_arc :: "(addr \<Rightarrow> mcount_fn_arc) \<Rightarrow> u32 \<Rightarrow> addr \<Rightarrow> (fault + addr) option" where
  "find_arc ar from_pc p =
     (if p = NULL then Some (Inl OutOfBounds)
      else if arc_from_pc (ar p) = from_pc then Some (Inr p)
      else if arc_next (ar p) = NULL then Some (Inr NULL)
      else find_arc ar from_pc (arc_next (ar p)))"

definition mcount :: "u32 \<Rightarrow> u32 \<Rightarrow> (gmon timer, unit) prog" where
  "mcount self_pc from_pc =
     bnd (gets tick_drivers) (\<lambda>g.
     let i = mcount_bucket self_pc in
     case find_fn (fn_entries g) self_pc (mcount_fn_head g ! i) of
       None \<Rightarrow> fail Hang
     | Some e \<Rightarrow>
         if e = NULL then mcount_record self_pc from_pc NULL i
         else
           case find_arc (fn_arcs g) from_pc (fn_arc_head (fn_entries g e)) of
             None \<Rightarrow> fail Hang
           | Some (Inl f) \<Rightarrow> fail f
           | Some (Inr a) \<Rightarrow>
               if a = NULL then mcount_record self_pc from_pc e i
               else on_gmon (\<lambda>g. g\<lparr>fn_arcs := (fn_arcs g)(a := (fn_arcs g a)\<lparr>arc_count := arc_count (fn_arcs g a) + 1\<rparr>)\<rparr>))"

end
