(* ===== verification/Gmon_Graph.thy ===== *)
theory Gmon_Graph
  imports Gmon
begin

text \<open>
  The call graph the profiler builds in memory represents an abstract one, in which a call counts
  its arc up: the lists of functions and arcs in the heap, the memory they occupy, and \<open>mcount\<close> as the
  implementation of \<open>note_call\<close>.
\<close>

section \<open>The abstract graph\<close>

text \<open>Per bucket the functions, per function its callers with their counts, newest first.\<close>

type_synonym call_graph = "nat \<Rightarrow> (u32 \<times> (u32 \<times> u32) list) list"

definition bump_arc :: "u32 \<Rightarrow> (u32 \<times> u32) list \<Rightarrow> (u32 \<times> u32) list" where
  "bump_arc from_pc as =
     (if from_pc \<in> fst ` set as then map (\<lambda>(f, c). (f, if f = from_pc then c + 1 else c)) as else (from_pc, 1) # as)"

definition bump :: "u32 \<Rightarrow> u32 \<Rightarrow> (u32 \<times> (u32 \<times> u32) list) list \<Rightarrow> (u32 \<times> (u32 \<times> u32) list) list" where
  "bump self_pc from_pc ts =
     (if self_pc \<in> fst ` set ts then map (\<lambda>(s, as). (s, if s = self_pc then bump_arc from_pc as else as)) ts
      else (self_pc, [(from_pc, 1)]) # ts)"

definition note_call :: "u32 \<times> u32 \<Rightarrow> call_graph \<Rightarrow> call_graph" where
  "note_call call G = (let i = mcount_bucket (fst call) in G(i := bump (fst call) (snd call) (G i)))"

definition tally :: "call_graph \<Rightarrow> u32 \<times> u32 \<Rightarrow> u32" where
  "tally G call =
     (case map_of (G (mcount_bucket (fst call))) (fst call) of
        None \<Rightarrow> 0
      | Some as \<Rightarrow> (case map_of as (snd call) of None \<Rightarrow> 0 | Some c \<Rightarrow> c))"

lemma map_of_change: "map_of (map (\<lambda>(k, v). (k, if k = x then f v else v)) ts) y = (if y = x then map_option f (map_of ts y) else map_of ts y)"
  by (induction ts) auto

lemma map_of_notin: "k \<notin> fst ` set ts \<longleftrightarrow> map_of ts k = None"
  by (simp add: map_of_eq_None_iff)

lemma map_of_bump_arc: "map_of (bump_arc f as) g = (if g = f then Some (case map_of as f of None \<Rightarrow> 1 | Some c \<Rightarrow> c + 1) else map_of as g)"
  using map_of_notin [of f as] by (cases "map_of as f") (simp_all add: bump_arc_def map_of_change)

lemma tally_note_call: "tally (note_call c G) d = tally G d + (if d = c then 1 else 0)"
proof -
  obtain s f s' f' where cd: "c = (s, f)" "d = (s', f')" by fastforce
  show ?thesis
    using map_of_notin [of s "G (mcount_bucket s)"]
    by (cases "map_of (G (mcount_bucket s)) s")
      (auto simp: cd tally_def note_call_def Let_def bump_def map_of_change map_of_bump_arc split: option.splits)
qed

text \<open>The arcs recorded.\<close>

definition known :: "call_graph \<Rightarrow> u32 \<times> u32 \<Rightarrow> bool" where
  "known G call \<longleftrightarrow> (\<exists>as. map_of (G (mcount_bucket (fst call))) (fst call) = Some as \<and> map_of as (snd call) \<noteq> None)"

lemma known_note_call: "known (note_call c G) d \<longleftrightarrow> d = c \<or> known G d"
proof -
  obtain s f s' f' where cd: "c = (s, f)" "d = (s', f')" by fastforce
  show ?thesis
    using map_of_notin [of s "G (mcount_bucket s)"]
    by (cases "map_of (G (mcount_bucket s)) s")
      (auto simp: cd known_def note_call_def Let_def bump_def map_of_change map_of_bump_arc split: option.splits)
qed

lemma tally_fold: "tally (fold note_call cs G) d = tally G d + of_nat (count_list cs d)"
  by (induction cs arbitrary: G) (simp_all add: tally_note_call)

section \<open>Lists in memory\<close>

type_synonym arc_cell = "addr \<times> u32 \<times> u32"
type_synonym fn_cell = "addr \<times> u32 \<times> arc_cell list"

primrec arcs_at :: "(addr \<Rightarrow> mcount_fn_arc) \<Rightarrow> addr \<Rightarrow> arc_cell list \<Rightarrow> bool" where
  "arcs_at ar p [] \<longleftrightarrow> p = NULL"
| "arcs_at ar p (x # xs) \<longleftrightarrow> p = fst x \<and> p \<noteq> NULL \<and> arc_from_pc (ar p) = fst (snd x) \<and>
     arc_count (ar p) = snd (snd x) \<and> arcs_at ar (arc_next (ar p)) xs"

primrec fns_at :: "(addr \<Rightarrow> mcount_fn_entry) \<Rightarrow> (addr \<Rightarrow> mcount_fn_arc) \<Rightarrow> addr \<Rightarrow> fn_cell list \<Rightarrow> bool" where
  "fns_at en ar p [] \<longleftrightarrow> p = NULL"
| "fns_at en ar p (x # xs) \<longleftrightarrow> p = fst x \<and> p \<noteq> NULL \<and> fn_self_pc (en p) = fst (snd x) \<and>
     arcs_at ar (fn_arc_head (en p)) (snd (snd x)) \<and> fns_at en ar (fn_next (en p)) xs"

definition fn_addrs :: "fn_cell list \<Rightarrow> addr list" where
  "fn_addrs es = map fst es"

definition arc_addrs :: "fn_cell list \<Rightarrow> addr list" where
  "arc_addrs es = concat (map (\<lambda>x. map fst (snd (snd x))) es)"

definition view :: "fn_cell list \<Rightarrow> (u32 \<times> (u32 \<times> u32) list) list" where
  "view es = map (\<lambda>(a, s, as). (s, map snd as)) es"

lemma cells_simps [simp]:
  "fn_addrs [] = []" "fn_addrs (x # xs) = fst x # fn_addrs xs"
  "arc_addrs [] = []" "arc_addrs (x # xs) = map fst (snd (snd x)) @ arc_addrs xs"
  "view [] = []" "view (x # xs) = (fst (snd x), map snd (snd (snd x))) # view xs"
  by (simp_all add: fn_addrs_def arc_addrs_def view_def split: prod.splits)

text \<open>Cells elsewhere do not matter.\<close>

lemma arcs_at_cong: "\<forall>b \<in> fst ` set xs. ar' b = ar b \<Longrightarrow> arcs_at ar' p xs = arcs_at ar p xs"
  by (induction xs arbitrary: p) auto

lemma fns_at_cong:
  "\<forall>b \<in> set (fn_addrs es). en' b = en b \<Longrightarrow> \<forall>b \<in> set (arc_addrs es). ar' b = ar b \<Longrightarrow>
   fns_at en' ar' p es = fns_at en ar p es"
proof (induction es arbitrary: p)
  case (Cons x xs)
  then have "arcs_at ar' q (snd (snd x)) = arcs_at ar q (snd (snd x))" for q by (intro arcs_at_cong) auto
  moreover have "fns_at en' ar' q xs = fns_at en ar q xs" for q using Cons by simp
  moreover have "en' (fst x) = en (fst x)" using Cons.prems(1) by simp
  ultimately show ?case by auto
qed simp

lemma find_fn_at:
  "fns_at en ar p es \<Longrightarrow> find_fn en self_pc p = Some (case find (\<lambda>x. fst (snd x) = self_pc) es of None \<Rightarrow> NULL | Some x \<Rightarrow> fst x)"
  by (induction es arbitrary: p) (subst find_fn.simps, auto)+

lemma find_arc_at:
  "arcs_at ar p as \<Longrightarrow> as \<noteq> [] \<Longrightarrow>
   find_arc ar from_pc p = Some (Inr (case find (\<lambda>x. fst (snd x) = from_pc) as of None \<Rightarrow> NULL | Some x \<Rightarrow> fst x))"
proof (induction as arbitrary: p)
  case (Cons x xs)
  then show ?case by (subst find_arc.simps) (cases xs; auto)
qed simp

text \<open>A function's arcs are changed in its own cells only.\<close>

definition upd_arcs :: "addr \<Rightarrow> (arc_cell list \<Rightarrow> arc_cell list) \<Rightarrow> fn_cell list \<Rightarrow> fn_cell list" where
  "upd_arcs e h es = map (\<lambda>(a, s, as). (a, s, if a = e then h as else as)) es"

lemma upd_arcs_simps [simp]:
  "upd_arcs e h [] = []" "upd_arcs e h (x # xs) = (fst x, fst (snd x), if fst x = e then h (snd (snd x)) else snd (snd x)) # upd_arcs e h xs"
  by (simp_all add: upd_arcs_def split: prod.splits)

lemma upd_arcs_other: "e \<notin> set (fn_addrs es) \<Longrightarrow> upd_arcs e h es = es"
  by (induction es) auto

lemma fn_addrs_upd [simp]: "fn_addrs (upd_arcs e h es) = fn_addrs es"
  by (induction es) auto

lemma fns_at_new_arc:
  assumes "fns_at en ar p es" "distinct (fn_addrs es)" "a \<notin> set (arc_addrs es)" "a \<noteq> NULL"
    and "en' e = (en e)\<lparr>fn_arc_head := a\<rparr>" "\<And>b. b \<noteq> e \<Longrightarrow> en' b = en b"
    and "ar' a = \<lparr>arc_next = fn_arc_head (en e), arc_from_pc = f, arc_count = 1\<rparr>" "\<And>b. b \<noteq> a \<Longrightarrow> ar' b = ar b"
  shows "fns_at en' ar' p (upd_arcs e ((#) (a, f, 1)) es)"
  using assms(1-3)
proof (induction es arbitrary: p)
  case (Cons x xs)
  have x: "arcs_at ar' q (snd (snd x)) = arcs_at ar q (snd (snd x))" for q
  proof (rule arcs_at_cong)
    have "a \<notin> fst ` set (snd (snd x))" using Cons.prems(3) by auto
    then show "\<forall>b \<in> fst ` set (snd (snd x)). ar' b = ar b" using assms(8) by metis
  qed
  show ?case
  proof (cases "fst x = e")
    case True
    then have "e \<notin> set (fn_addrs xs)" using Cons.prems(2) by auto
    moreover have "a \<notin> set (arc_addrs xs)" using Cons.prems(3) by auto
    ultimately have rest: "fns_at en' ar' q xs = fns_at en ar q xs" for q
      by (intro fns_at_cong) (use assms(6,8) in metis)+
    show ?thesis using Cons.prems(1) True x rest assms(4,5,7) upd_arcs_other [OF \<open>e \<notin> set (fn_addrs xs)\<close>] by auto
  next
    case False
    with Cons x assms(6) [of "fst x"] show ?thesis by auto
  qed
qed simp

definition count_up :: "addr \<Rightarrow> arc_cell list \<Rightarrow> arc_cell list" where
  "count_up a = map (\<lambda>(b, f, c). (b, f, if b = a then c + 1 else c))"

lemma count_up_simps [simp]:
  "count_up a [] = []" "count_up a (x # xs) = (fst x, fst (snd x), if fst x = a then snd (snd x) + 1 else snd (snd x)) # count_up a xs"
  by (simp_all add: count_up_def split: prod.splits)

lemma count_up_other: "a \<notin> fst ` set xs \<Longrightarrow> count_up a xs = xs"
  by (induction xs) auto

lemma count_up_addrs [simp]: "map fst (count_up a xs) = map fst xs"
  by (induction xs) auto

lemma arcs_at_count_up:
  assumes "arcs_at ar p xs" "distinct (map fst xs)"
    and "ar' a = (ar a)\<lparr>arc_count := arc_count (ar a) + 1\<rparr>" "\<And>b. b \<noteq> a \<Longrightarrow> ar' b = ar b"
  shows "arcs_at ar' p (count_up a xs)"
  using assms(1,2)
proof (induction xs arbitrary: p)
  case (Cons x xs)
  show ?case
  proof (cases "fst x = a")
    case True
    then have "a \<notin> fst ` set xs" using Cons.prems(2) by auto
    moreover from this have "arcs_at ar' q xs = arcs_at ar q xs" for q by (intro arcs_at_cong) (use assms(4) in metis)
    ultimately show ?thesis using Cons.prems(1) True assms(3) by (auto simp: count_up_other)
  next
    case False
    with Cons assms(4) [of "fst x"] show ?thesis by auto
  qed
qed simp

lemma fns_at_count_up:
  assumes "fns_at en ar p es" "distinct (fn_addrs es)" "distinct (arc_addrs es)" "(e, s, as) \<in> set es" "a \<in> fst ` set as"
    and "ar' a = (ar a)\<lparr>arc_count := arc_count (ar a) + 1\<rparr>" "\<And>b. b \<noteq> a \<Longrightarrow> ar' b = ar b"
  shows "fns_at en ar' p (upd_arcs e (count_up a) es)"
  using assms(1-5)
proof (induction es arbitrary: p)
  case (Cons x xs)
  show ?case
  proof (cases "x = (e, s, as)")
    case True
    have "a \<notin> set (arc_addrs xs)" "e \<notin> set (fn_addrs xs)" using Cons.prems True by auto
    moreover from this have "fns_at en ar' q xs = fns_at en ar q xs" for q by (intro fns_at_cong) (use assms(7) in metis)+
    moreover have "arcs_at ar' (fn_arc_head (en e)) (count_up a as)"
      by (rule arcs_at_count_up [where ar = ar]) (use Cons.prems(1,3) True assms(6,7) in auto)
    ultimately show ?thesis using Cons.prems(1) True by (auto simp: upd_arcs_other)
  next
    case False
    then have m: "(e, s, as) \<in> set xs" using Cons.prems(4) by auto
    then have "e \<in> set (fn_addrs xs)" "a \<in> set (arc_addrs xs)"
      using Cons.prems(5) by (force simp: fn_addrs_def arc_addrs_def)+
    then have "fst x \<noteq> e" "a \<notin> fst ` set (snd (snd x))" using Cons.prems(2,3) by auto
    moreover from this have "arcs_at ar' q (snd (snd x)) = arcs_at ar q (snd (snd x))" for q
      by (intro arcs_at_cong) (use assms(7) in metis)
    ultimately show ?thesis using Cons.prems m Cons.IH [of "fn_next (en p)"] by auto
  qed
qed simp

section \<open>The graph in memory\<close>

definition names_ok :: "nat \<Rightarrow> fn_cell list \<Rightarrow> bool" where
  "names_ok i es \<longleftrightarrow> distinct (map (\<lambda>x. fst (snd x)) es) \<and>
     (\<forall>x \<in> set es. mcount_bucket (fst (snd x)) = i \<and> snd (snd x) \<noteq> [] \<and> distinct (map (\<lambda>y. fst (snd y)) (snd (snd x))))"

definition separate :: "(fn_cell list \<Rightarrow> addr list) \<Rightarrow> (nat \<Rightarrow> fn_cell list) \<Rightarrow> bool" where
  "separate f B \<longleftrightarrow> (\<forall>i < HASH_BUCKETS. distinct (f (B i)) \<and>
     (\<forall>j < HASH_BUCKETS. j \<noteq> i \<longrightarrow> set (f (B i)) \<inter> set (f (B j)) = {}))"

definition used :: "(nat \<Rightarrow> fn_cell list) \<Rightarrow> addr set" where
  "used B = (\<Union>i < HASH_BUCKETS. set (fn_addrs (B i)) \<union> set (arc_addrs (B i)))"

definition heap_graph :: "(addr \<Rightarrow> mcount_fn_entry) \<Rightarrow> (addr \<Rightarrow> mcount_fn_arc) \<Rightarrow> addr list \<Rightarrow> (nat \<Rightarrow> fn_cell list) \<Rightarrow> bool" where
  "heap_graph en ar heads B \<longleftrightarrow> length heads = HASH_BUCKETS \<and> separate fn_addrs B \<and> separate arc_addrs B \<and>
     (\<forall>i < HASH_BUCKETS. fns_at en ar (heads ! i) (B i) \<and> names_ok i (B i))"

lemma separate_update:
  assumes "separate f B" "i < HASH_BUCKETS" "distinct (f es)"
    and "set (f es) \<subseteq> insert a (set (f (B i)))" "\<forall>j < HASH_BUCKETS. j \<noteq> i \<longrightarrow> a \<notin> set (f (B j))"
  shows "separate f (B(i := es))"
proof -
  have disj: "set (f es) \<inter> set (f (B j)) = {}" if "j < HASH_BUCKETS" "j \<noteq> i" for j
  proof -
    have "set (f (B i)) \<inter> set (f (B j)) = {}" using assms(1,2) that unfolding separate_def by blast
    with assms(4,5) that show ?thesis by blast
  qed
  then show ?thesis using assms(1,3) unfolding separate_def by (simp add: Int_commute)
qed

lemma separate_same: "separate f B \<Longrightarrow> f es = f (B i) \<Longrightarrow> separate f (B(i := es))"
  by (simp add: separate_def)

lemma used_notin: "a \<notin> used B \<Longrightarrow> i < HASH_BUCKETS \<Longrightarrow> a \<notin> set (fn_addrs (B i)) \<and> a \<notin> set (arc_addrs (B i))"
  by (auto simp: used_def)

lemma arc_addrs_mem: "(e, s, as) \<in> set es \<Longrightarrow> a \<in> fst ` set as \<Longrightarrow> a \<in> set (arc_addrs es)"
  by (force simp: arc_addrs_def)

lemma arc_addrs_new: "e \<in> set (fn_addrs es) \<Longrightarrow> distinct (fn_addrs es) \<Longrightarrow>
    distinct (arc_addrs es) \<Longrightarrow> a \<notin> set (arc_addrs es) \<Longrightarrow>
    distinct (arc_addrs (upd_arcs e ((#) (a, f, c)) es)) \<and> set (arc_addrs (upd_arcs e ((#) (a, f, c)) es)) = insert a (set (arc_addrs es))"
proof (induction es)
  case (Cons x xs)
  then show ?case by (cases "fst x = e") (auto simp: upd_arcs_other)
qed simp

lemma arc_addrs_count [simp]: "arc_addrs (upd_arcs e (count_up a) es) = arc_addrs es"
  by (induction es) auto

lemma names_ok_upd:
  assumes "names_ok i es" "\<And>as. as \<noteq> [] \<Longrightarrow> (e, s, as) \<in> set es \<Longrightarrow> distinct (map (\<lambda>y. fst (snd y)) as) \<Longrightarrow>
      h as \<noteq> [] \<and> distinct (map (\<lambda>y. fst (snd y)) (h as))"
    and "distinct (fn_addrs es)" "(e, s, bs) \<in> set es"
  shows "names_ok i (upd_arcs e h es)"
proof -
  have "map (\<lambda>x. fst (snd x)) (upd_arcs e h es) = map (\<lambda>x. fst (snd x)) es" by (induction es) auto
  moreover have "s' = s" if "(e, s', as) \<in> set es" for s' as
    using that assms(3,4) by (metis distinct_map fn_addrs_def fst_conv inj_onD snd_conv)
  ultimately have *: "names_ok i (upd_arcs e h es) \<longleftrightarrow> (\<forall>x \<in> set (upd_arcs e h es).
      mcount_bucket (fst (snd x)) = i \<and> snd (snd x) \<noteq> [] \<and> distinct (map (\<lambda>y. fst (snd y)) (snd (snd x))))"
    and same: "\<And>s' as. (e, s', as) \<in> set es \<Longrightarrow> s' = s"
    using assms(1) by (simp_all add: names_ok_def)
  show ?thesis unfolding *
  proof
    fix x
    assume "x \<in> set (upd_arcs e h es)"
    then obtain b s' as where x: "(b, s', as) \<in> set es" "x = (b, s', if b = e then h as else as)" by (auto simp: upd_arcs_def)
    then have "mcount_bucket s' = i" "as \<noteq> []" "distinct (map (\<lambda>y. fst (snd y)) as)"
      using assms(1) by (auto simp: names_ok_def)
    with x same assms(2) show "mcount_bucket (fst (snd x)) = i \<and> snd (snd x) \<noteq> [] \<and> distinct (map (\<lambda>y. fst (snd y)) (snd (snd x)))"
      by (cases "b = e") auto
  qed
qed

lemma heap_graphD:
  assumes "heap_graph en ar hds B" "i < HASH_BUCKETS"
  shows "fns_at en ar (hds ! i) (B i)" "names_ok i (B i)" "distinct (fn_addrs (B i))" "distinct (arc_addrs (B i))"
    "\<And>j. j < HASH_BUCKETS \<Longrightarrow> j \<noteq> i \<Longrightarrow> set (fn_addrs (B i)) \<inter> set (fn_addrs (B j)) = {}"
    "\<And>j. j < HASH_BUCKETS \<Longrightarrow> j \<noteq> i \<Longrightarrow> set (arc_addrs (B i)) \<inter> set (arc_addrs (B j)) = {}"
  using assms by (simp_all add: heap_graph_def separate_def)

text \<open>Replacing the cells of one bucket.\<close>

lemma heap_graph_bucket:
  assumes "heap_graph en ar hds B" "i < HASH_BUCKETS" "length hds' = HASH_BUCKETS"
    and "\<And>j. j < HASH_BUCKETS \<Longrightarrow> j \<noteq> i \<Longrightarrow> hds' ! j = hds ! j"
    and "\<And>j b. j < HASH_BUCKETS \<Longrightarrow> j \<noteq> i \<Longrightarrow> b \<in> set (fn_addrs (B j)) \<Longrightarrow> en' b = en b"
    and "\<And>j b. j < HASH_BUCKETS \<Longrightarrow> j \<noteq> i \<Longrightarrow> b \<in> set (arc_addrs (B j)) \<Longrightarrow> ar' b = ar b"
    and "fns_at en' ar' (hds' ! i) es" "names_ok i es" "separate fn_addrs (B(i := es))" "separate arc_addrs (B(i := es))"
  shows "heap_graph en' ar' hds' (B(i := es))"
  unfolding heap_graph_def
proof (intro conjI allI impI)
  fix j
  assume j: "j < HASH_BUCKETS"
  show "fns_at en' ar' (hds' ! j) ((B(i := es)) j)"
  proof (cases "j = i")
    case False
    then have "fns_at en' ar' (hds ! j) (B j) = fns_at en ar (hds ! j) (B j)"
      using assms(5,6) j by (intro fns_at_cong) blast+
    then show ?thesis using False j heap_graphD(1) [OF assms(1) j] assms(4) by simp
  qed (use assms(7) in simp)
  show "names_ok j ((B(i := es)) j)" using assms(8) heap_graphD(2) [OF assms(1) j] by simp
qed (use assms in simp_all)

lemma heap_graph_new_fn:
  assumes "heap_graph en ar hds B" "i < HASH_BUCKETS" "mcount_bucket s = i" "s \<notin> (\<lambda>x. fst (snd x)) ` set (B i)"
    and "e \<notin> used B" "a \<notin> used B" "e \<noteq> NULL" "a \<noteq> NULL"
    and "en' e = \<lparr>fn_next = hds ! i, fn_self_pc = s, fn_arc_head = a\<rparr>" "\<And>b. b \<noteq> e \<Longrightarrow> en' b = en b"
    and "ar' a = \<lparr>arc_next = NULL, arc_from_pc = f, arc_count = 1\<rparr>" "\<And>b. b \<noteq> a \<Longrightarrow> ar' b = ar b"
  shows "heap_graph en' ar' (hds[i := e]) (B(i := (e, s, [(a, f, 1)]) # B i))"
proof (rule heap_graph_bucket [OF assms(1,2)])
  note i = heap_graphD [OF assms(1,2)] used_notin [OF assms(5)] used_notin [OF assms(6)]
  have len: "length hds = HASH_BUCKETS" using assms(1) by (simp add: heap_graph_def)
  show "length (hds[i := e]) = HASH_BUCKETS" using len by simp
  show "hds[i := e] ! j = hds ! j" if "j \<noteq> i" for j using that by simp
  show "en' b = en b" if "j < HASH_BUCKETS" "b \<in> set (fn_addrs (B j))" for j b using that i(7) assms(10) by metis
  show "ar' b = ar b" if "j < HASH_BUCKETS" "b \<in> set (arc_addrs (B j))" for j b using that i(8) assms(12) by metis
  have "fns_at en' ar' (hds ! i) (B i) = fns_at en ar (hds ! i) (B i)"
    using i(7,8) assms(2,10,12) by (intro fns_at_cong) metis+
  then show "fns_at en' ar' (hds[i := e] ! i) ((e, s, [(a, f, 1)]) # B i)"
    using i(1) len assms(2,7,8,9,11) by simp
  show "names_ok i ((e, s, [(a, f, 1)]) # B i)" using i(2) assms(3,4) by (auto simp: names_ok_def)
  show "separate fn_addrs (B(i := (e, s, [(a, f, 1)]) # B i))"
    by (rule separate_update [where a = e]) (use assms(1,2) i(3,7) in \<open>auto simp: heap_graph_def\<close>)
  show "separate arc_addrs (B(i := (e, s, [(a, f, 1)]) # B i))"
    by (rule separate_update [where a = a]) (use assms(1,2) i(4,8) in \<open>auto simp: heap_graph_def\<close>)
qed

lemma heap_graph_new_arc:
  assumes "heap_graph en ar hds B" "i < HASH_BUCKETS" "(e, s, as) \<in> set (B i)" "f \<notin> (\<lambda>y. fst (snd y)) ` set as"
    and "a \<notin> used B" "a \<noteq> NULL"
    and "en' e = (en e)\<lparr>fn_arc_head := a\<rparr>" "\<And>b. b \<noteq> e \<Longrightarrow> en' b = en b"
    and "ar' a = \<lparr>arc_next = fn_arc_head (en e), arc_from_pc = f, arc_count = 1\<rparr>" "\<And>b. b \<noteq> a \<Longrightarrow> ar' b = ar b"
  shows "heap_graph en' ar' hds (B(i := upd_arcs e ((#) (a, f, 1)) (B i)))"
proof (rule heap_graph_bucket [OF assms(1,2)])
  note i = heap_graphD [OF assms(1,2)] used_notin [OF assms(5)]
  have e: "e \<in> set (fn_addrs (B i))" using assms(3) by (force simp: fn_addrs_def)
  show "length hds = HASH_BUCKETS" using assms(1) by (simp add: heap_graph_def)
  show "en' b = en b" if "j < HASH_BUCKETS" "j \<noteq> i" "b \<in> set (fn_addrs (B j))" for j b
    using that i(5) [OF that(1,2)] e assms(8) [of b] by blast
  show "ar' b = ar b" if "j < HASH_BUCKETS" "b \<in> set (arc_addrs (B j))" for j b using that i(7) assms(10) by metis
  show "fns_at en' ar' (hds ! i) (upd_arcs e ((#) (a, f, 1)) (B i))"
    by (rule fns_at_new_arc [where en = en and ar = ar]) (use i assms in auto)
  show "names_ok i (upd_arcs e ((#) (a, f, 1)) (B i))"
  proof (rule names_ok_upd [OF i(2) _ i(3) assms(3)])
    fix bs
    assume "(e, s, bs) \<in> set (B i)" "distinct (map (\<lambda>y. fst (snd y)) bs)"
    moreover from this have "bs = as" using assms(3) i(3) by (metis distinct_map fn_addrs_def fst_conv inj_onD snd_conv)
    ultimately show "(a, f, 1) # bs \<noteq> [] \<and> distinct (map (\<lambda>y. fst (snd y)) ((a, f, 1) # bs))" using assms(4) by auto
  qed
  note new = arc_addrs_new [OF e i(3,4), of a f 1]
  show "separate fn_addrs (B(i := upd_arcs e ((#) (a, f, 1)) (B i)))"
    by (rule separate_update [where a = a]) (use assms(1,2) i(3,7) in \<open>auto simp: heap_graph_def\<close>)
  show "separate arc_addrs (B(i := upd_arcs e ((#) (a, f, 1)) (B i)))"
    by (rule separate_update [where a = a]) (use assms(1,2) i(7) new in \<open>auto simp: heap_graph_def\<close>)
qed simp_all

lemma heap_graph_count:
  assumes "heap_graph en ar hds B" "i < HASH_BUCKETS" "(e, s, as) \<in> set (B i)" "a \<in> fst ` set as"
    and "ar' a = (ar a)\<lparr>arc_count := arc_count (ar a) + 1\<rparr>" "\<And>b. b \<noteq> a \<Longrightarrow> ar' b = ar b"
  shows "heap_graph en ar' hds (B(i := upd_arcs e (count_up a) (B i)))"
proof (rule heap_graph_bucket [OF assms(1,2)])
  note i = heap_graphD [OF assms(1,2)]
  show "length hds = HASH_BUCKETS" using assms(1) by (simp add: heap_graph_def)
  show "ar' b = ar b" if "j < HASH_BUCKETS" "j \<noteq> i" "b \<in> set (arc_addrs (B j))" for j b
    using that i(6) [OF that(1,2)] arc_addrs_mem [OF assms(3,4)] assms(6) [of b] by blast
  show "fns_at en ar' (hds ! i) (upd_arcs e (count_up a) (B i))"
    by (rule fns_at_count_up [where ar = ar]) (use i assms in auto)
  have "map (\<lambda>y. fst (snd y)) (count_up a bs) = map (\<lambda>y. fst (snd y)) bs" for bs by (induction bs) auto
  moreover have "count_up a bs = [] \<longleftrightarrow> bs = []" for bs by (cases bs) simp_all
  ultimately show "names_ok i (upd_arcs e (count_up a) (B i))"
    by (intro names_ok_upd [OF i(2) _ i(3) assms(3)]) simp
  show "separate fn_addrs (B(i := upd_arcs e (count_up a) (B i)))" "separate arc_addrs (B(i := upd_arcs e (count_up a) (B i)))"
    by (rule separate_same; use assms(1) in \<open>simp add: heap_graph_def\<close>)+
qed simp_all

section \<open>What the cells stand for\<close>

definition graph_of :: "(nat \<Rightarrow> fn_cell list) \<Rightarrow> call_graph" where
  "graph_of B = (\<lambda>i. view (B i))"

lemma graph_of_update [simp]: "graph_of (B(i := es)) = (graph_of B)(i := view es)"
  by (auto simp: graph_of_def)

lemma graph_of_apply: "graph_of B i = view (B i)"
  by (simp add: graph_of_def)

lemma view_names: "fst ` set (view es) = (\<lambda>x. fst (snd x)) ` set es"
  by (induction es) auto

lemma map_of_view: "distinct (map (\<lambda>x. fst (snd x)) es) \<Longrightarrow> (e, s, as) \<in> set es \<Longrightarrow> map_of (view es) s = Some (map snd as)"
  by (induction es) force+

lemma view_upd:
  assumes "distinct (map (\<lambda>x. fst (snd x)) es)" "distinct (fn_addrs es)" "(e, s, as) \<in> set es" "map snd (h as) = g (map snd as)"
  shows "view (upd_arcs e h es) = map (\<lambda>(s', as'). (s', if s' = s then g as' else as')) (view es)"
  using assms(1-3)
proof (induction es)
  case (Cons x xs)
  have other: "view (upd_arcs e h ys) = map (\<lambda>(s', as'). (s', if s' = s then g as' else as')) (view ys)"
    if "e \<notin> set (fn_addrs ys)" "s \<notin> (\<lambda>x. fst (snd x)) ` set ys" for ys
    using that by (induction ys) (auto simp: upd_arcs_other)
  show ?case
  proof (cases "x = (e, s, as)")
    case True
    with Cons.prems show ?thesis using other [of xs] assms(4) by auto
  next
    case False
    then have m: "(e, s, as) \<in> set xs" using Cons.prems(3) by auto
    have "e \<in> fst ` set xs" "s \<in> (\<lambda>x. fst (snd x)) ` set xs" by (rule image_eqI [OF _ m], simp)+
    then have "fst x \<noteq> e" "fst (snd x) \<noteq> s" using Cons.prems(1,2) by (auto simp: fn_addrs_def)
    with Cons m show ?thesis by auto
  qed
qed simp

lemma bump_found:
  assumes "names_ok i es" "distinct (fn_addrs es)" "(e, s, as) \<in> set es" "map snd (h as) = bump_arc f (map snd as)"
  shows "view (upd_arcs e h es) = bump s f (view es)"
proof -
  have "s \<in> fst ` set (view es)" using assms(3) by (force simp: view_names)
  with assms view_upd [of es e s as h "bump_arc f"] show ?thesis by (simp add: bump_def names_ok_def)
qed

lemma bump_arc_new: "f \<notin> (\<lambda>y. fst (snd y)) ` set as \<Longrightarrow> map snd ((a, f, 1) # as) = bump_arc f (map snd as)"
  by (force simp: bump_arc_def)

lemma bump_arc_count:
  assumes "(a, f, c) \<in> set as" "distinct (map fst as)" "distinct (map (\<lambda>y. fst (snd y)) as)"
  shows "map snd (count_up a as) = bump_arc f (map snd as)"
proof -
  have "f \<in> fst ` set (map snd as)" using assms(1) by force
  moreover have "map snd (count_up a as) = map (\<lambda>(f', c). (f', if f' = f then c + 1 else c)) (map snd as)"
    using assms
  proof (induction as)
    case (Cons x xs)
    have other: "map snd (count_up a ys) = map (\<lambda>(f', c). (f', if f' = f then c + 1 else c)) (map snd ys)"
      if "a \<notin> fst ` set ys" "f \<notin> (\<lambda>y. fst (snd y)) ` set ys" for ys
      using that by (induction ys) auto
    show ?case
    proof (cases "x = (a, f, c)")
      case True
      with Cons.prems show ?thesis using other [of xs] by auto
    next
      case False
      then have m: "(a, f, c) \<in> set xs" using Cons.prems(1) by auto
      have "a \<in> fst ` set xs" "f \<in> (\<lambda>y. fst (snd y)) ` set xs" by (rule image_eqI [OF _ m], simp)+
      then have "fst x \<noteq> a" "fst (snd x) \<noteq> f" using Cons.prems(2,3) by auto
      with Cons m show ?thesis by (cases x) auto
    qed
  qed simp
  ultimately show ?thesis by (simp add: bump_arc_def)
qed

section \<open>Memory\<close>

definition mem_ok :: "gmon \<Rightarrow> addr set \<Rightarrow> bool" where
  "mem_ok g U \<longleftrightarrow> 0x8000 \<le> unat (heap_end g) \<and> unat (heap_end g) \<le> 0x10000 \<and>
     unat (mcount_slab_ptr g) + unat (mcount_slab_size g) \<le> unat (heap_end g) \<and> unat (mcount_slab_size g) mod 12 = 0 \<and>
     (mcount_slab_size g \<noteq> 0 \<longrightarrow> 0x8000 \<le> unat (mcount_slab_ptr g)) \<and>
     (\<forall>a \<in> U. 0x8000 \<le> unat a \<and> unat a + 12 \<le> unat (mcount_slab_ptr g))"

text \<open>How many blocks can still be cut from the slab and the heap.\<close>

definition blocks_left :: "gmon \<Rightarrow> nat" where
  "blocks_left g = unat (mcount_slab_size g) div 12 + 85 * ((0x10000 - aligned (unat (heap_end g))) div 1020)"

definition with_slab :: "addr \<Rightarrow> u32 \<Rightarrow> addr \<Rightarrow> gmon \<Rightarrow> gmon" where
  "with_slab p n e g = g\<lparr>mcount_slab_ptr := p, mcount_slab_size := n, heap_end := e\<rparr>"

lemma with_slab_simps [simp]:
  "fn_entries (with_slab p n e g) = fn_entries g" "fn_arcs (with_slab p n e g) = fn_arcs g"
  "mcount_fn_head (with_slab p n e g) = mcount_fn_head g" "pcsample_need_init (with_slab p n e g) = pcsample_need_init g"
  "mcount_slab_ptr (with_slab p n e g) = p" "mcount_slab_size (with_slab p n e g) = n" "heap_end (with_slab p n e g) = e"
  by (simp_all add: with_slab_def)

lemma aligned_step: "aligned (aligned e + 1020) = aligned e + 1020"
  by (simp add: aligned_def)

lemma allocate:
  assumes "mem_ok (tick_drivers s) U" "0 < blocks_left (tick_drivers s)"
  shows "\<exists>a p n e. let g' = with_slab p n e (tick_drivers s) in
     mcount_allocate 12 env s = Inr (a, s\<lparr>tick_drivers := g'\<rparr>) \<and> mem_ok g' (insert a U) \<and> a \<notin> U \<and> a \<noteq> NULL \<and>
     OC_MEM_BASE \<le> a \<and> unat a + 12 \<le> unat alt_heap_limit \<and> blocks_left g' = blocks_left (tick_drivers s) - 1"
proof -
  obtain g where g: "g = tick_drivers s" by simp
  note inv = assms [folded g, unfolded mem_ok_def blocks_left_def]
  show ?thesis
  proof (cases "mcount_slab_size g < 12")
    case False
    let ?p = "mcount_slab_ptr g" and ?n = "mcount_slab_size g"
    have n: "12 \<le> unat ?n" "?n \<noteq> 0" using False by (auto simp: word_less_nat_alt)
    have p: "unat (?p + 12) = unat ?p + 12" "unat (?n - 12) = unat ?n - 12"
      using n inv(1) by (auto simp: unat_word_ariths unat_sub word_le_nat_alt)
    have run: "mcount_allocate 12 env s = Inr (?p, s\<lparr>tick_drivers := with_slab (?p + 12) (?n - 12) (heap_end g) g\<rparr>)"
      using False by (simp add: mcount_allocate_def on_gmon_def bnd_def gets_def modify_def ret_def g with_slab_def)
    let ?g = "with_slab (?p + 12) (?n - 12) (heap_end g) g"
    have "(unat ?n - 12) mod 12 = 0" using inv(1) n(1) by (metis le_mod_geq)
    moreover have room: "unat ?p + unat ?n \<le> unat (heap_end g)" and p0: "0x8000 \<le> unat ?p" using inv(1) n(2) by blast+
    moreover have "\<forall>a \<in> insert ?p U. 0x8000 \<le> unat a \<and> unat a + 12 \<le> unat ?p + 12" using inv(1) p0 by fastforce
    ultimately have "mem_ok ?g (insert ?p U)" unfolding mem_ok_def with_slab_simps p using inv(1) n(1) by auto
    moreover have "blocks_left ?g = blocks_left g - 1"
      using n(1) by (simp only: blocks_left_def with_slab_simps p)
    moreover have "?p \<notin> U" using inv(1) by force
    moreover have "?p \<noteq> NULL" using p0 by (auto simp: NULL_def)
    moreover have "OC_MEM_BASE \<le> ?p" "unat ?p + 12 \<le> unat alt_heap_limit"
      using p0 room n(1) inv(1) by (auto simp: OC_MEM_BASE_def alt_heap_limit_def word_le_nat_alt)
    ultimately show ?thesis
      using run unfolding g [symmetric] Let_def by blast
  next
    case True
    let ?b = "aligned (unat (heap_end g))"
    have n0: "unat (mcount_slab_size g) = 0" using True inv(1) by (auto simp: word_less_nat_alt)
    then have "0 < (0x10000 - ?b) div 1020" using inv(2) by simp
    then have fits: "?b + 1020 \<le> 0x10000" by (simp add: div_greater_zero_iff)
    have ub: "unat (of_nat ?b :: u32) = ?b" "unat (of_nat ?b + 12 :: u32) = ?b + 12" "unat (of_nat ?b + 1020 :: u32) = ?b + 1020"
      using fits by (simp_all add: unat_of_nat unat_word_ariths)
    have "ALT_SBRK 1020 env (heap_end g) = Inr (of_nat ?b, of_nat ?b + 1020)"
    proof -
      have "unat (1020 :: u32) = 1020" by simp
      with sbrk_run [of "heap_end g" 1020 env] inv(1) fits show ?thesis by (simp only: of_nat_add of_nat_numeral if_True) simp
    qed
    then have run: "mcount_allocate 12 env s = Inr (of_nat ?b, s\<lparr>tick_drivers := with_slab (of_nat ?b + 12) 1008 (of_nat ?b + 1020) g\<rparr>)"
      using True by (simp add: mcount_allocate_def sbrk_def on_gmon_def bnd_def gets_def modify_def ret_def g with_slab_def MCOUNT_SLAB_INCREMENT_def)
    have b: "unat (heap_end g) \<le> ?b" using aligned(1) .
    let ?g = "with_slab (of_nat ?b + 12) 1008 (of_nat ?b + 1020) g"
    have "\<forall>a \<in> insert (of_nat ?b) U. 0x8000 \<le> unat a \<and> unat a + 12 \<le> ?b + 12" using inv(1) b ub(1) n0 by fastforce
    then have "mem_ok ?g (insert (of_nat ?b) U)" unfolding mem_ok_def with_slab_simps ub using inv(1) b fits by auto
    moreover have "blocks_left ?g = blocks_left g - 1"
    proof -
      have "(0x10000 - aligned (?b + 1020)) div 1020 = (0x10000 - ?b) div 1020 - 1"
        using fits by (simp add: aligned_step le_div_geq)
      moreover obtain k where "(0x10000 - ?b) div 1020 = Suc k" using \<open>0 < (0x10000 - ?b) div 1020\<close> gr0_conv_Suc by blast
      ultimately show ?thesis using n0 by (simp add: blocks_left_def ub)
    qed
    moreover have "of_nat ?b \<notin> U" using inv(1) b ub(1) n0 by force
    moreover have "of_nat ?b \<noteq> NULL" using inv(1) b ub(1) by (auto simp: NULL_def)
    moreover have "OC_MEM_BASE \<le> of_nat ?b" "unat (of_nat ?b :: u32) + 12 \<le> unat alt_heap_limit"
      using inv(1) b ub(1) fits by (auto simp: OC_MEM_BASE_def alt_heap_limit_def word_le_nat_alt)
    ultimately show ?thesis
      using run unfolding g [symmetric] Let_def by blast
  qed
qed

lemma mem_ok_subset: "mem_ok g U \<Longrightarrow> V \<subseteq> U \<Longrightarrow> mem_ok g V"
  by (auto simp: mem_ok_def)

lemma mem_ok_cong:
  "heap_end g' = heap_end g \<Longrightarrow> mcount_slab_ptr g' = mcount_slab_ptr g \<Longrightarrow> mcount_slab_size g' = mcount_slab_size g \<Longrightarrow>
   mem_ok g' U = mem_ok g U \<and> blocks_left g' = blocks_left g"
  by (simp add: mem_ok_def blocks_left_def)

lemma used_update: "used (B(i := es)) \<subseteq> used B \<union> set (fn_addrs es) \<union> set (arc_addrs es)"
  by (auto simp: used_def split: if_splits)

lemma used_bucket: "i < HASH_BUCKETS \<Longrightarrow> set (fn_addrs (B i)) \<union> set (arc_addrs (B i)) \<subseteq> used B"
  by (auto simp: used_def)

section \<open>A call\<close>

text \<open>Sampling is running already or cannot be started as there is no tick.\<close>

definition sampler_idle :: "gmon timer \<Rightarrow> bool" where
  "sampler_idle s \<longleftrightarrow> pcsample_need_init (tick_drivers s) = 0 \<or> pcsample_need_init (tick_drivers s) = 1 \<and> alt_tick_rate s = 0"

definition gmon_graph :: "gmon timer \<Rightarrow> (nat \<Rightarrow> fn_cell list) \<Rightarrow> bool" where
  "gmon_graph s B \<longleftrightarrow> (let g = tick_drivers s in
     heap_graph (fn_entries g) (fn_arcs g) (mcount_fn_head g) B \<and> mem_ok g (used B) \<and> sampler_idle s)"

lemma mcount_bucket_less: "mcount_bucket s < HASH_BUCKETS"
proof -
  have "drop_bit 5 s AND 63 \<le> 63" by (rule word_and_le1)
  then have "unat (drop_bit 5 s AND 63) \<le> 63" by (simp add: word_le_nat_alt)
  then show ?thesis by (simp add: mcount_bucket_def HASH_BUCKETS_def)
qed

lemma record_idle:
  assumes "sampler_idle s"
  shows "mcount_record self_pc from_pc fn_entry i env s =
     bnd (if fn_entry = NULL then new_fn_entry self_pc i else ret fn_entry) (\<lambda>e. new_arc e from_pc) env s"
proof (cases "pcsample_need_init (tick_drivers s) = 0")
  case True
  then show ?thesis by (simp add: mcount_record_def bnd_def gets_def ret_def)
next
  case False
  then have n: "pcsample_need_init (tick_drivers s) = 1" "alt_tick_rate s = 0" using assms by (auto simp: sampler_idle_def)
  then have same: "s\<lparr>tick_drivers := (tick_drivers s)\<lparr>pcsample_need_init := 1\<rparr>\<rparr> = s" by simp
  have "(if pcsample_need_init (tick_drivers s) \<noteq> 0 then
      bnd (on_gmon (\<lambda>g. g\<lparr>pcsample_need_init := 0\<rparr>)) (\<lambda>_. bnd nios2_pcsample_init (\<lambda>r. on_gmon (\<lambda>g. g\<lparr>pcsample_need_init := r\<rparr>)))
      else ret ()) env s = Inr ((), s\<lparr>tick_drivers := (tick_drivers s)\<lparr>pcsample_need_init := 1\<rparr>\<rparr>)"
    using n by (simp add: bnd_def on_gmon_def modify_def nios2_pcsample_init_def alt_ticks_per_second_def gets_def ret_def)
  then show ?thesis unfolding same by (simp add: mcount_record_def bnd_def gets_def)
qed

text \<open>The three cases: a new function, a new caller of a known function, a known arc.\<close>

lemma gmon_graphD:
  assumes "gmon_graph s B"
  shows "heap_graph (fn_entries (tick_drivers s)) (fn_arcs (tick_drivers s)) (mcount_fn_head (tick_drivers s)) B"
    "mem_ok (tick_drivers s) (used B)" "sampler_idle s"
  using assms by (simp_all add: gmon_graph_def Let_def)

definition mcount_step :: "nat \<Rightarrow> u32 \<Rightarrow> u32 \<Rightarrow> env \<Rightarrow> gmon timer \<Rightarrow> (nat \<Rightarrow> fn_cell list) \<Rightarrow> (gmon timer, unit) prog \<Rightarrow> bool" where
  "mcount_step cost self_pc from_pc env s B m \<longleftrightarrow> (\<exists>g' B'. m env s = Inr ((), s\<lparr>tick_drivers := g'\<rparr>) \<and>
     gmon_graph (s\<lparr>tick_drivers := g'\<rparr>) B' \<and> graph_of B' = note_call (self_pc, from_pc) (graph_of B) \<and>
     blocks_left (tick_drivers s) - cost \<le> blocks_left g')"

lemma mcount_step_weaken: "mcount_step 0 self_pc from_pc env s B m \<Longrightarrow> mcount_step cost self_pc from_pc env s B m"
  unfolding mcount_step_def by (metis diff_le_self minus_nat.diff_0 order_trans)

lemma check_memory_ok: "OC_MEM_BASE \<le> a \<Longrightarrow> unat a + 12 \<le> unat alt_heap_limit \<Longrightarrow> check_memory a 12 = ret ()"
  by (simp add: check_memory_def)

lemma record_new_fn:
  assumes "gmon_graph s B" "2 \<le> blocks_left (tick_drivers s)" "self_pc \<notin> (\<lambda>x. fst (snd x)) ` set (B (mcount_bucket self_pc))"
  shows "mcount_step 2 self_pc from_pc env s B (mcount_record self_pc from_pc NULL (mcount_bucket self_pc))"
proof -
  let ?g = "tick_drivers s" and ?i = "mcount_bucket self_pc"
  note G = gmon_graphD [OF assms(1)]
  obtain e p n h where e: "mcount_allocate 12 env s = Inr (e, s\<lparr>tick_drivers := with_slab p n h ?g\<rparr>)"
    "mem_ok (with_slab p n h ?g) (insert e (used B))" "e \<notin> used B" "e \<noteq> NULL" "OC_MEM_BASE \<le> e"
    "unat e + 12 \<le> unat alt_heap_limit" "blocks_left (with_slab p n h ?g) = blocks_left ?g - 1"
    using allocate [OF G(2)] assms(2) unfolding Let_def by fastforce
  define g1 where "g1 = (with_slab p n h ?g)\<lparr>
       fn_entries := (fn_entries ?g)(e := \<lparr>fn_next = mcount_fn_head ?g ! ?i, fn_self_pc = self_pc, fn_arc_head = NULL\<rparr>),
       mcount_fn_head := (mcount_fn_head ?g)[?i := e]\<rparr>"
  have fn: "new_fn_entry self_pc ?i env s = Inr (e, s\<lparr>tick_drivers := g1\<rparr>)"
    using e(1) by (simp add: new_fn_entry_def bnd_def check_memory_ok e(5,6) ret_def on_gmon_def modify_def g1_def)
  have m1: "mem_ok g1 (insert e (used B))" "blocks_left g1 = blocks_left ?g - 1"
    using mem_ok_cong [of g1 "with_slab p n h ?g"] e(2,7) by (simp_all add: g1_def)
  let ?s = "s\<lparr>tick_drivers := g1\<rparr>"
  obtain a p' n' h' where a: "mcount_allocate 12 env ?s = Inr (a, s\<lparr>tick_drivers := with_slab p' n' h' g1\<rparr>)"
    "mem_ok (with_slab p' n' h' g1) (insert a (insert e (used B)))" "a \<notin> insert e (used B)" "a \<noteq> NULL" "OC_MEM_BASE \<le> a"
    "unat a + 12 \<le> unat alt_heap_limit" "blocks_left (with_slab p' n' h' g1) = blocks_left g1 - 1"
    using allocate [of ?s "insert e (used B)" env] m1 assms(2) unfolding Let_def by fastforce
  define g2 where "g2 = (with_slab p' n' h' g1)\<lparr>
       fn_arcs := (fn_arcs g1)(a := \<lparr>arc_next = NULL, arc_from_pc = from_pc, arc_count = 1\<rparr>),
       fn_entries := (fn_entries g1)(e := (fn_entries g1 e)\<lparr>fn_arc_head := a\<rparr>)\<rparr>"
  have "fn_arc_head (fn_entries g1 e) = NULL" by (simp add: g1_def)
  then have "new_arc e from_pc env ?s = Inr ((), s\<lparr>tick_drivers := g2\<rparr>)"
    using a(1) by (simp add: new_arc_def bnd_def check_memory_ok a(5,6) ret_def on_gmon_def modify_def g2_def)
  then have run: "mcount_record self_pc from_pc NULL ?i env s = Inr ((), s\<lparr>tick_drivers := g2\<rparr>)"
    using fn by (simp add: record_idle [OF G(3)] bnd_def)
  let ?B = "B(?i := (e, self_pc, [(a, from_pc, 1)]) # B ?i)"
  have "heap_graph (fn_entries g2) (fn_arcs g2) (mcount_fn_head g2) ?B"
    using heap_graph_new_fn [OF G(1) mcount_bucket_less refl assms(3), of e a "fn_entries g2" "fn_arcs g2" from_pc] a(3,4) e(3,4)
    by (simp add: g2_def g1_def)
  moreover have "mem_ok g2 (used ?B)"
  proof (rule mem_ok_subset)
    show "mem_ok g2 (insert a (insert e (used B)))"
      using mem_ok_cong [of g2 "with_slab p' n' h' g1"] a(2) by (simp add: g2_def)
    show "used ?B \<subseteq> insert a (insert e (used B))"
      using used_update [of B ?i "(e, self_pc, [(a, from_pc, 1)]) # B ?i"] used_bucket [of ?i B] mcount_bucket_less by auto
  qed
  moreover have "sampler_idle (s\<lparr>tick_drivers := g2\<rparr>)" using G(3) by (simp add: sampler_idle_def g2_def g1_def)
  moreover have "blocks_left g2 = blocks_left ?g - 2"
    using mem_ok_cong [of g2 "with_slab p' n' h' g1"] a(7) m1(2) by (simp add: g2_def)
  moreover have "graph_of ?B = note_call (self_pc, from_pc) (graph_of B)"
  proof -
    have "self_pc \<notin> fst ` set (view (B ?i))" using assms(3) by (simp add: view_names)
    then show ?thesis by (simp add: note_call_def bump_def Let_def graph_of_apply)
  qed
  ultimately show ?thesis unfolding mcount_step_def
    using run by (intro exI [of _ g2] exI [of _ ?B]) (simp add: gmon_graph_def Let_def)
qed

lemma note_call_update:
  "view es = bump self_pc from_pc (view (B (mcount_bucket self_pc))) \<Longrightarrow>
   graph_of (B(mcount_bucket self_pc := es)) = note_call (self_pc, from_pc) (graph_of B)"
  by (simp add: note_call_def Let_def graph_of_apply)

lemma record_new_arc:
  assumes "gmon_graph s B" "0 < blocks_left (tick_drivers s)" "(e, self_pc, as) \<in> set (B (mcount_bucket self_pc))"
    and "from_pc \<notin> (\<lambda>y. fst (snd y)) ` set as" "e \<noteq> NULL"
  shows "mcount_step 2 self_pc from_pc env s B (mcount_record self_pc from_pc e (mcount_bucket self_pc))"
proof -
  let ?g = "tick_drivers s" and ?i = "mcount_bucket self_pc"
  note G = gmon_graphD [OF assms(1)]
  note i = heap_graphD [OF G(1) mcount_bucket_less [of self_pc]]
  obtain a p n h where a: "mcount_allocate 12 env s = Inr (a, s\<lparr>tick_drivers := with_slab p n h ?g\<rparr>)"
    "mem_ok (with_slab p n h ?g) (insert a (used B))" "a \<notin> used B" "a \<noteq> NULL" "OC_MEM_BASE \<le> a"
    "unat a + 12 \<le> unat alt_heap_limit" "blocks_left (with_slab p n h ?g) = blocks_left ?g - 1"
    using allocate [OF G(2)] assms(2) unfolding Let_def by fastforce
  define g1 where "g1 = (with_slab p n h ?g)\<lparr>
       fn_arcs := (fn_arcs ?g)(a := \<lparr>arc_next = fn_arc_head (fn_entries ?g e), arc_from_pc = from_pc, arc_count = 1\<rparr>),
       fn_entries := (fn_entries ?g)(e := (fn_entries ?g e)\<lparr>fn_arc_head := a\<rparr>)\<rparr>"
  have run: "mcount_record self_pc from_pc e ?i env s = Inr ((), s\<lparr>tick_drivers := g1\<rparr>)"
    using a(1) assms(5)
    by (simp add: record_idle [OF G(3)] new_arc_def bnd_def check_memory_ok a(5,6) ret_def on_gmon_def modify_def g1_def)
  let ?es = "upd_arcs e ((#) (a, from_pc, 1)) (B ?i)"
  let ?B = "B(?i := ?es)"
  have "heap_graph (fn_entries g1) (fn_arcs g1) (mcount_fn_head g1) ?B"
    using heap_graph_new_arc [OF G(1) mcount_bucket_less assms(3,4), of a "fn_entries g1" "fn_arcs g1"] a(3,4)
    by (simp add: g1_def)
  moreover have "mem_ok g1 (used ?B)"
  proof (rule mem_ok_subset)
    show "mem_ok g1 (insert a (used B))" using mem_ok_cong [of g1 "with_slab p n h ?g"] a(2) by (simp add: g1_def)
    have e: "e \<in> set (fn_addrs (B ?i))" using assms(3) by (force simp: fn_addrs_def)
    have "a \<notin> set (arc_addrs (B ?i))" using used_notin [OF a(3) mcount_bucket_less] by blast
    from arc_addrs_new [OF e i(3,4) this] show "used ?B \<subseteq> insert a (used B)"
      using used_update [of B ?i ?es] used_bucket [of ?i B] mcount_bucket_less by auto
  qed
  moreover have "sampler_idle (s\<lparr>tick_drivers := g1\<rparr>)" using G(3) by (simp add: sampler_idle_def g1_def)
  moreover have "blocks_left g1 = blocks_left ?g - 1"
    using mem_ok_cong [of g1 "with_slab p n h ?g"] a(7) by (simp add: g1_def)
  moreover have "graph_of ?B = note_call (self_pc, from_pc) (graph_of B)"
    by (rule note_call_update, rule bump_found [OF i(2,3) assms(3)], rule bump_arc_new [OF assms(4)])
  ultimately show ?thesis unfolding mcount_step_def
    using run by (intro exI [of _ g1] exI [of _ ?B]) (simp add: gmon_graph_def Let_def)
qed

lemma count_known_arc:
  assumes "gmon_graph s B" "(e, self_pc, as) \<in> set (B (mcount_bucket self_pc))" "(a, from_pc, c) \<in> set as"
  shows "mcount_step 0 self_pc from_pc env s B
     (on_gmon (\<lambda>g. g\<lparr>fn_arcs := (fn_arcs g)(a := (fn_arcs g a)\<lparr>arc_count := arc_count (fn_arcs g a) + 1\<rparr>)\<rparr>))"
proof -
  let ?g = "tick_drivers s" and ?i = "mcount_bucket self_pc"
  note G = gmon_graphD [OF assms(1)]
  note i = heap_graphD [OF G(1) mcount_bucket_less [of self_pc]]
  define g1 where "g1 = ?g\<lparr>fn_arcs := (fn_arcs ?g)(a := (fn_arcs ?g a)\<lparr>arc_count := arc_count (fn_arcs ?g a) + 1\<rparr>)\<rparr>"
  have a: "a \<in> fst ` set as" by (rule image_eqI [OF _ assms(3)]) simp
  let ?es = "upd_arcs e (count_up a) (B ?i)"
  let ?B = "B(?i := ?es)"
  have hg: "heap_graph (fn_entries g1) (fn_arcs g1) (mcount_fn_head g1) ?B"
    using heap_graph_count [OF G(1) mcount_bucket_less assms(2) a, of "fn_arcs g1"] by (simp add: g1_def)
  have "used ?B \<subseteq> used B" using used_update [of B ?i ?es] used_bucket [of ?i B] mcount_bucket_less by auto
  then have mem: "mem_ok g1 (used ?B)" using mem_ok_cong [of g1 ?g] mem_ok_subset [OF G(2)] by (simp add: g1_def)
  have idle: "sampler_idle (s\<lparr>tick_drivers := g1\<rparr>)" using G(3) by (simp add: sampler_idle_def g1_def)
  have left: "blocks_left g1 = blocks_left ?g" using mem_ok_cong [of g1 ?g] by (simp add: g1_def)
  have "distinct (map fst as)" using i(4) assms(2) by (auto simp: arc_addrs_def distinct_concat_iff)
  moreover have "distinct (map (\<lambda>y. fst (snd y)) as)" using i(2) assms(2) by (force simp: names_ok_def)
  ultimately have graph: "graph_of ?B = note_call (self_pc, from_pc) (graph_of B)"
    by (intro note_call_update bump_found [OF i(2,3) assms(2)] bump_arc_count [OF assms(3)])
  show ?thesis
    unfolding mcount_step_def
    by (intro exI [of _ g1] exI [of _ ?B]) (use hg mem idle left graph in \<open>simp add: gmon_graph_def Let_def on_gmon_def modify_def g1_def\<close>)
qed

lemma find_SomeD: "find P xs = Some x \<Longrightarrow> x \<in> set xs \<and> P x"
  by (induction xs) (auto split: if_splits)

lemma fns_at_cell: "fns_at en ar p es \<Longrightarrow> (e, s, as) \<in> set es \<Longrightarrow> e \<noteq> NULL \<and> arcs_at ar (fn_arc_head (en e)) as"
  by (induction es arbitrary: p) auto

lemma arcs_at_cell: "arcs_at ar p as \<Longrightarrow> (a, f, c) \<in> set as \<Longrightarrow> a \<noteq> NULL"
  by (induction as arbitrary: p) auto

lemma mcount_steps:
  assumes "gmon_graph s B" "known (graph_of B) (self_pc, from_pc) \<or> 2 \<le> blocks_left (tick_drivers s)"
  shows "mcount_step (if known (graph_of B) (self_pc, from_pc) then 0 else 2) self_pc from_pc env s B (mcount self_pc from_pc)"
proof -
  let ?g = "tick_drivers s" and ?i = "mcount_bucket self_pc"
  note G = gmon_graphD [OF assms(1)]
  note i = heap_graphD [OF G(1) mcount_bucket_less [of self_pc]]
  note fn = find_fn_at [OF i(1), of self_pc]
  show ?thesis
  proof (cases "find (\<lambda>x. fst (snd x) = self_pc) (B ?i)")
    case None
    then have new: "self_pc \<notin> (\<lambda>x. fst (snd x)) ` set (B ?i)" by (auto simp: find_None_iff)
    then have "\<not> known (graph_of B) (self_pc, from_pc)"
      using map_of_notin [of self_pc "view (B ?i)"] by (auto simp: known_def view_names graph_of_apply)
    moreover from this have "2 \<le> blocks_left ?g" using assms(2) by blast
    ultimately show ?thesis
      using record_new_fn [OF assms(1) _ new, of from_pc env] fn None by (simp add: mcount_step_def mcount_def bnd_def gets_def Let_def)
  next
    case (Some x)
    obtain e s' as where x: "x = (e, s', as)" by (cases x)
    then have m: "(e, self_pc, as) \<in> set (B ?i)" using find_SomeD [OF Some] by auto
    note cells = fns_at_cell [OF i(1) m]
    have "as \<noteq> []" using i(2) m by (force simp: names_ok_def)
    note arc = find_arc_at [OF conjunct2 [OF cells] this, of from_pc]
    have run: "mcount self_pc from_pc env s = (case find (\<lambda>y. fst (snd y) = from_pc) as of
        None \<Rightarrow> mcount_record self_pc from_pc e ?i env s
      | Some y \<Rightarrow> if fst y = NULL then mcount_record self_pc from_pc e ?i env s
          else on_gmon (\<lambda>g. g\<lparr>fn_arcs := (fn_arcs g)(fst y := (fn_arcs g (fst y))\<lparr>arc_count := arc_count (fn_arcs g (fst y)) + 1\<rparr>)\<rparr>) env s)"
      using fn Some x arc cells by (simp add: mcount_def bnd_def gets_def Let_def split: option.splits)
    show ?thesis
    proof (cases "find (\<lambda>y. fst (snd y) = from_pc) as")
      case None
      then have new: "from_pc \<notin> (\<lambda>y. fst (snd y)) ` set as" by (auto simp: find_None_iff)
      have "\<not> known (graph_of B) (self_pc, from_pc)"
        using map_of_view [OF _ m] i(2) new map_of_notin [of from_pc "map snd as"] by (force simp: known_def names_ok_def graph_of_apply)
      moreover from this have "2 \<le> blocks_left ?g" using assms(2) by blast
      ultimately show ?thesis
        using record_new_arc [OF assms(1) _ m new, of env] cells run None by (simp add: mcount_step_def)
    next
      case (Some y)
      obtain a f c where y: "y = (a, f, c)" by (cases y)
      then have ac: "(a, from_pc, c) \<in> set as" using find_SomeD [OF Some] by auto
      from mcount_step_weaken [OF count_known_arc [OF assms(1) m ac, of env]] show ?thesis
        using arcs_at_cell [OF conjunct2 [OF cells] ac] run Some y by (simp add: mcount_step_def)
    qed
  qed
qed

section \<open>Any sequence of calls\<close>

lemma mcount_run:
  assumes "gmon_graph s B" "2 * card {c \<in> set calls. \<not> known (graph_of B) c} \<le> blocks_left (tick_drivers s)"
  shows "\<exists>g' B'. each calls (\<lambda>c. mcount (fst c) (snd c)) env s = Inr ((), s\<lparr>tick_drivers := g'\<rparr>) \<and>
     gmon_graph (s\<lparr>tick_drivers := g'\<rparr>) B' \<and> graph_of B' = fold note_call calls (graph_of B)"
  using assms
proof (induction calls arbitrary: s B)
  case Nil
  then show ?case by (intro exI [of _ "tick_drivers s"] exI [of _ B]) (simp add: ret_def)
next
  case (Cons c calls)
  let ?new = "\<lambda>G. {d \<in> set calls. \<not> known G d}" and ?k = "known (graph_of B) c"
  have count: "card {d \<in> set (c # calls). \<not> known (graph_of B) d} = card (?new (note_call c (graph_of B))) + (if ?k then 0 else 1)"
  proof -
    have "{d \<in> set (c # calls). \<not> known (graph_of B) d} =
        (if ?k then ?new (note_call c (graph_of B)) else insert c (?new (note_call c (graph_of B))))"
      by (auto simp: known_note_call)
    then show ?thesis by (simp add: known_note_call)
  qed
  then have "?k \<or> 2 \<le> blocks_left (tick_drivers s)" using Cons.prems(2) unfolding count by (simp split: if_splits)
  then have "mcount_step (if ?k then 0 else 2) (fst c) (snd c) env s B (mcount (fst c) (snd c))"
    using mcount_steps [OF Cons.prems(1), of "fst c" "snd c" env] by simp
  then obtain g B' where step: "mcount (fst c) (snd c) env s = Inr ((), s\<lparr>tick_drivers := g\<rparr>)"
    "gmon_graph (s\<lparr>tick_drivers := g\<rparr>) B'" "graph_of B' = note_call c (graph_of B)"
    "blocks_left (tick_drivers s) - (if ?k then 0 else 2) \<le> blocks_left g"
    unfolding mcount_step_def by auto
  have "2 * card (?new (graph_of B')) \<le> blocks_left (tick_drivers (s\<lparr>tick_drivers := g\<rparr>))"
    using Cons.prems(2) step(4) unfolding count step(3) by (simp split: if_splits)
  have again: "s\<lparr>tick_drivers := g\<rparr>\<lparr>tick_drivers := g'\<rparr> = s\<lparr>tick_drivers := g'\<rparr>" for g' by simp
  from Cons.IH [OF step(2) \<open>2 * card (?new (graph_of B')) \<le> _\<close>] obtain g' B'' where "each calls (\<lambda>c. mcount (fst c) (snd c)) env (s\<lparr>tick_drivers := g\<rparr>) =
      Inr ((), s\<lparr>tick_drivers := g'\<rparr>)" "gmon_graph (s\<lparr>tick_drivers := g'\<rparr>) B''" "graph_of B'' = fold note_call calls (graph_of B')"
    unfolding again by blast
  with step(1,3) show ?case
    by (intro exI [of _ g'] exI [of _ B'']) (simp add: bnd_def)
qed

text \<open>
  C34: profiling counts calls exactly. On a system without a tick, as this one, after any sequence of
  calls that starts with an empty heap large enough for the distinct arcs, the lists in memory are the
  graph in which every arc called is recorded once, with the number of its calls modulo 2^32.
\<close>

lemma mcount_counts:
  assumes "alt_tick_rate s = 0" "tick_drivers s = gmon_boot stext etext heads heap" "0x8000 \<le> unat heap" "unat heap \<le> 0x10000"
    and "2 * card (set calls) \<le> blocks_left (gmon_boot stext etext heads heap)"
  shows "\<exists>s' B. each calls (\<lambda>c. mcount (fst c) (snd c)) env s = Inr ((), s') \<and> gmon_graph s' B \<and>
     (\<forall>c. known (graph_of B) c = (c \<in> set calls) \<and> tally (graph_of B) c = of_nat (count_list calls c))"
proof -
  have none: "\<not> known (graph_of (\<lambda>_. [])) c" "tally (graph_of (\<lambda>_. [])) c = 0" for c by (simp_all add: known_def tally_def graph_of_apply)
  have "gmon_graph s (\<lambda>_. [])"
    using assms(1,3,4) by (simp add: gmon_graph_def Let_def assms(2) heap_graph_def separate_def names_ok_def mem_ok_def
      used_def sampler_idle_def gmon_boot_def NULL_def)
  moreover have "2 * card {c \<in> set calls. \<not> known (graph_of (\<lambda>_. [])) c} \<le> blocks_left (tick_drivers s)"
    using assms(5) by (simp add: none(1) assms(2))
  ultimately obtain g B where run: "each calls (\<lambda>c. mcount (fst c) (snd c)) env s = Inr ((), s\<lparr>tick_drivers := g\<rparr>)"
    "gmon_graph (s\<lparr>tick_drivers := g\<rparr>) B" "graph_of B = fold note_call calls (graph_of (\<lambda>_. []))"
    using mcount_run [of s "\<lambda>_. []" calls env] by blast
  have "known (fold note_call calls G) c \<longleftrightarrow> c \<in> set calls \<or> known G c" for c G
    by (induction calls arbitrary: G) (auto simp: known_note_call)
  with run none show ?thesis by (auto simp: tally_fold)
qed

lemma mcount_counts_witness:
  "\<exists>s' B. each [(0x8100, 0x8200), (0x8300, 0x8200), (0x8100, 0x8200)] (\<lambda>c. mcount (fst c) (snd c)) (\<lambda>_ _. 0)
     (timer_boot (\<lambda>_. \<lparr>al_time = 0, al_callback = 0, al_rollover = 0, al_context = 0\<rparr>) (gmon_boot 0x8020 0x9000 0x9800 0xA000)) =
     Inr ((), s') \<and> gmon_graph s' B \<and> tally (graph_of B) (0x8100, 0x8200) = 2"
proof -
  let ?s = "timer_boot (\<lambda>_. \<lparr>al_time = 0, al_callback = 0, al_rollover = 0, al_context = 0\<rparr>) (gmon_boot 0x8020 0x9000 0x9800 0xA000)"
  have "alt_tick_rate ?s = 0" "tick_drivers ?s = gmon_boot 0x8020 0x9000 0x9800 0xA000" by (simp_all add: timer_boot_def)
  moreover have "2 * card (set [(0x8100, 0x8200), (0x8300, 0x8200), (0x8100, 0x8200 :: u32)] :: (u32 \<times> u32) set) \<le> blocks_left (gmon_boot 0x8020 0x9000 0x9800 0xA000)"
  proof -
    have "card (set [(0x8100, 0x8200), (0x8300, 0x8200), (0x8100, 0x8200 :: u32)] :: (u32 \<times> u32) set) \<le> 3"
      by (rule order_trans [OF card_length]) simp
    moreover have "6 \<le> blocks_left (gmon_boot 0x8020 0x9000 0x9800 0xA000)" by (simp add: blocks_left_def gmon_boot_def aligned_def)
    ultimately show ?thesis by linarith
  qed
  ultimately show ?thesis
    using mcount_counts [of ?s "0x8020" "0x9000" "0x9800" "0xA000" "[(0x8100, 0x8200), (0x8300, 0x8200), (0x8100, 0x8200)]" "\<lambda>_ _. 0"]
    by fastforce
qed

end
