(* ===== verification/Gmon_Samples.thy ===== *)
theory Gmon_Samples
  imports Gmon
begin

text \<open>
  The histogram of the profiler: starting the sampler, what a tick adds, and the text section whose
  size is not a multiple of a bucket.
\<close>

section \<open>One sample\<close>

definition bucket_of :: "gmon \<Rightarrow> u32 \<Rightarrow> nat" where
  "bucket_of g pc = (unat pc - unat (s_low_pc g)) div 32"

definition profiled :: "gmon \<Rightarrow> u32 \<Rightarrow> bool" where
  "profiled g pc \<longleftrightarrow> s_low_pc g \<le> pc \<and> pc < s_high_pc g \<and> s_pcsamples g \<noteq> 0"

definition sampled :: "u32 \<Rightarrow> gmon \<Rightarrow> gmon" where
  "sampled pc g = (if profiled g pc then g\<lparr>pcsamples := (pcsamples g)[bucket_of g pc := pcsamples g ! bucket_of g pc + 1]\<rparr> else g)"

lemma bucket_word: "s_low_pc g \<le> pc \<Longrightarrow> unat ((pc - s_low_pc g) div PCSAMPLE_BYTES_PER_BUCKET) = bucket_of g pc"
  by (simp add: bucket_of_def PCSAMPLE_BYTES_PER_BUCKET_def unat_div unat_sub)

lemma pcsample_run:
  "nios2_pcsample pc env s =
     (if profiled (tick_drivers s) pc \<and> \<not> bucket_of (tick_drivers s) pc < length (pcsamples (tick_drivers s)) then Inl OutOfBounds
      else Inr (1, s\<lparr>tick_drivers := sampled pc (tick_drivers s)\<rparr>))"
  by (auto simp: nios2_pcsample_def profiled_def sampled_def bnd_def gets_def on_gmon_def modify_def ret_def fail_def Let_def bucket_word)

text \<open>The sampler as the client of the tick.\<close>

definition sample_fits :: "u32 \<Rightarrow> gmon \<Rightarrow> bool" where
  "sample_fits pc g \<longleftrightarrow> (profiled g pc \<longrightarrow> bucket_of g pc < length (pcsamples g))"

interpretation sampler: alarm_callbacks "\<lambda>_ _. nios2_pcsample pc" "sample_fits pc" "\<lambda>_ _. 1" "\<lambda>_ _. sampled pc" env for pc env
  by unfold_locales (auto simp: pcsample_run sample_fits_def sampled_def profiled_def bucket_of_def)

text \<open>A sampler one tick away takes a sample at every tick.\<close>

definition sampling :: "gmon timer \<Rightarrow> bool" where
  "sampling s \<longleftrightarrow> timer_ok s [s_nios2_pcsample_alarm] \<and> ticks_left s s_nios2_pcsample_alarm = 1"

lemma sampler_tick:
  assumes "timer_ok s [s_nios2_pcsample_alarm]" "sample_fits pc (tick_drivers s)" "ticks_left s s_nios2_pcsample_alarm \<le> 2"
  shows "\<exists>s'. alt_tick (\<lambda>_ _. nios2_pcsample pc) env s = Inr ((), s') \<and> sampling s' \<and>
     tick_drivers s' = (if ticks_left s s_nios2_pcsample_alarm = 1 then sampled pc (tick_drivers s) else tick_drivers s)"
proof -
  have "0 < ticks_left s s_nios2_pcsample_alarm" using assms(1) by (simp add: timer_ok_def)
  with assms(3) consider "ticks_left s s_nios2_pcsample_alarm = 1" | "ticks_left s s_nios2_pcsample_alarm = 2" by linarith
  then show ?thesis
  proof cases
    case 1
    with sampler.tick [OF assms(1,2), of env] show ?thesis by (auto simp: sampling_def period_def called_def)
  next
    case 2
    with sampler.tick [OF assms(1,2), of env] show ?thesis by (auto simp: sampling_def)
  qed
qed

lemma sampler_ticks:
  assumes "sampling s" "\<forall>pc \<in> set pcs. sample_fits pc (tick_drivers s)"
  shows "\<exists>s'. each pcs (\<lambda>pc. alt_tick (\<lambda>_ _. nios2_pcsample pc)) env s = Inr ((), s') \<and> sampling s' \<and>
     tick_drivers s' = fold sampled pcs (tick_drivers s)"
  using assms
proof (induction pcs arbitrary: s)
  case (Cons pc pcs)
  obtain t where t: "alt_tick (\<lambda>_ _. nios2_pcsample pc) env s = Inr ((), t)" "sampling t" "tick_drivers t = sampled pc (tick_drivers s)"
    using sampler_tick [of s pc env] Cons.prems by (auto simp: sampling_def)
  have "\<forall>pc' \<in> set pcs. sample_fits pc' (tick_drivers t)"
    using Cons.prems(2) by (auto simp: t(3) sample_fits_def sampled_def profiled_def bucket_of_def)
  from Cons.IH [OF t(2) this] t(1,3) show ?case by (auto simp: bnd_def)
qed (simp add: ret_def)

lemma fold_sampled:
  assumes "\<forall>pc \<in> set pcs. sample_fits pc g"
  shows "length (pcsamples (fold sampled pcs g)) = length (pcsamples g) \<and>
     (b < length (pcsamples g) \<longrightarrow> pcsamples (fold sampled pcs g) ! b =
        pcsamples g ! b + of_nat (length (filter (\<lambda>pc. profiled g pc \<and> bucket_of g pc = b) pcs)))"
  using assms
proof (induction pcs arbitrary: g)
  case (Cons pc pcs)
  have same: "profiled (sampled pc g) = profiled g" "bucket_of (sampled pc g) = bucket_of g"
    "length (pcsamples (sampled pc g)) = length (pcsamples g)" by (auto simp: sampled_def profiled_def bucket_of_def)
  then have "\<forall>pc' \<in> set pcs. sample_fits pc' (sampled pc g)" using Cons.prems by (simp add: sample_fits_def)
  from Cons.IH [OF this] Cons.prems show ?case by (auto simp: same) (auto simp: sampled_def sample_fits_def nth_list_update)
qed simp

section \<open>Starting the sampler\<close>

lemma init_run:
  assumes "timer_ok s []" "alt_tick_rate s \<noteq> 0" "g = tick_drivers s" "n = unat ((s_high_pc g - s_low_pc g) div 32)"
    and "unat (heap_end g) \<le> 0x10000" "0x8000 \<le> unat (heap_end g)" "aligned (unat (heap_end g)) + 2 * n \<le> 0x10000"
    and "length (alt_gmon_data g) = GMON_DATA_SIZE"
  shows "\<exists>s'. nios2_pcsample_init env s = Inr (0, s') \<and> timer_ok s' [s_nios2_pcsample_alarm] \<and>
     ticks_left s' s_nios2_pcsample_alarm = 2 \<and> s_pcsamples (tick_drivers s') \<noteq> 0 \<and>
     pcsamples (tick_drivers s') = replicate n 0 \<and> s_low_pc (tick_drivers s') = s_low_pc g \<and> s_high_pc (tick_drivers s') = s_high_pc g \<and>
     alt_gmon_data (tick_drivers s') ! GMON_DATA_PROFILE_DATA = s_pcsamples (tick_drivers s') \<and>
     alt_gmon_data (tick_drivers s') ! GMON_DATA_PROFILE_RATE = alt_tick_rate s"
proof -
  let ?b = "aligned (unat (heap_end g))" and ?w = "(s_high_pc g - s_low_pc g) div 32"
  have b: "unat (heap_end g) \<le> ?b" using aligned(1) .
  have n: "n < 2 ^ 15" using assms(6,7) b by simp
  have w: "unat (?w * 2) = 2 * n" using n assms(4) by (simp add: unat_word_ariths)
  have "unat (?w * 2) < 2 ^ 31" using n unfolding w by simp
  from sbrk_run [OF assms(5) this, of env] have sb: "ALT_SBRK (?w * 2) env (heap_end g) = Inr (of_nat ?b, of_nat (?b + 2 * n))"
    unfolding w using assms(7) by simp
  have ub: "unat (of_nat ?b :: u32) = ?b" using assms(7) by (simp add: unat_of_nat)
  define p where "p = (of_nat ?b :: u32)"
  have p: "p \<noteq> 0" "OC_MEM_BASE \<le> p" "unat p + 2 * n \<le> unat alt_heap_limit"
    using ub b assms(6,7) by (auto simp: p_def OC_MEM_BASE_def alt_heap_limit_def word_le_nat_alt)
  define g1 where "g1 = g\<lparr>heap_end := of_nat (?b + 2 * n), s_pcsamples := p, pcsamples := replicate n 0,
      alt_gmon_data := (alt_gmon_data g)[GMON_DATA_PROFILE_DATA := p, GMON_DATA_PROFILE_RATE := alt_tick_rate s]\<rparr>"
  let ?s = "s\<lparr>tick_drivers := g1\<rparr>"
  have "timer_ok ?s []" using assms(1) by (simp add: timer_ok_def)
  then have "\<exists>s'. alt_alarm_start s_nios2_pcsample_alarm 1 NIOS2_PCSAMPLE 0 env ?s = Inr (0, s') \<and> timer_ok s' [s_nios2_pcsample_alarm] \<and>
      ticks_left s' s_nios2_pcsample_alarm = uint (1 :: u32) + 1 \<and> (\<forall>b. b \<noteq> s_nios2_pcsample_alarm \<longrightarrow> ticks_left s' b = ticks_left ?s b)"
    by (rule alarm_start) (use assms(2) in \<open>simp_all add: s_nios2_pcsample_alarm_def ALT_ALARM_LIST_def NULL_def\<close>)
  then obtain s' where s': "alt_alarm_start s_nios2_pcsample_alarm 1 NIOS2_PCSAMPLE 0 env ?s = Inr (0, s')"
    "timer_ok s' [s_nios2_pcsample_alarm]" "ticks_left s' s_nios2_pcsample_alarm = 2" by auto
  have td: "tick_drivers s' = g1"
    using s'(1) assms(2) by (auto simp: alt_alarm_start_def alt_ticks_per_second_def update_alarm_def bnd_def gets_def modify_def ret_def
      s_nios2_pcsample_alarm_def NULL_def)
  have "nios2_pcsample_init env s = Inr (0, s')"
    using s'(1) sb p assms(2) w
    by (simp add: nios2_pcsample_init_def alt_ticks_per_second_def sbrk_def on_gmon_def check_memory_def bnd_def gets_def modify_def ret_def
      void_def Let_def PCSAMPLE_BYTES_PER_BUCKET_def assms(3) [symmetric] assms(4) [symmetric] p_def [symmetric] g1_def)
  then show ?thesis using s'(2,3) td p(1) assms(8)
    by (intro exI [of _ s']) (simp add: g1_def GMON_DATA_SIZE_def GMON_DATA_PROFILE_DATA_def GMON_DATA_PROFILE_RATE_def)
qed

section \<open>The histogram\<close>

lemma bucket_range:
  assumes "s_low_pc g \<le> pc" "pc < s_high_pc g" "(unat (s_high_pc g) - unat (s_low_pc g)) mod 32 = 0"
  shows "bucket_of g pc < (unat (s_high_pc g) - unat (s_low_pc g)) div 32"
proof -
  have "unat (s_low_pc g) \<le> unat pc" "unat pc < unat (s_high_pc g)" using assms(1,2) by (simp_all add: word_le_nat_alt word_less_nat_alt)
  moreover obtain k where "unat (s_high_pc g) - unat (s_low_pc g) = 32 * k" using assms(3) by auto
  ultimately show ?thesis by (simp add: bucket_of_def div_less_iff_less_mult)
qed

text \<open>
  C35: once a tick runs, the first call recorded starts the sampler, and from the tick after the next
  every tick counts the bucket of 32 bytes of the program counter it interrupts: after any sequence of
  ticks each bucket holds the number of those in its range modulo 2^16. The text section is taken to
  consist of whole buckets.
\<close>

lemma profile_histogram:
  assumes "timer_ok s []" "alt_tick_rate s \<noteq> 0" "tick_drivers s = gmon_boot stext etext heads heap"
    and "stext \<le> etext" "(unat etext - unat stext) mod 32 = 0"
    and "0x8000 \<le> unat heap" "unat heap \<le> 0x10000" "aligned (unat heap) + 2 * ((unat etext - unat stext) div 32) \<le> 0x10000"
  shows "\<exists>s'. bnd nios2_pcsample_init (\<lambda>_. each (pc # pcs) (\<lambda>pc. alt_tick (\<lambda>_ _. nios2_pcsample pc))) env s = Inr ((), s') \<and>
     length (pcsamples (tick_drivers s')) = (unat etext - unat stext) div 32 \<and>
     (\<forall>b. b < (unat etext - unat stext) div 32 \<longrightarrow> pcsamples (tick_drivers s') ! b =
        of_nat (length (filter (\<lambda>pc. stext \<le> pc \<and> pc < etext \<and> (unat pc - unat stext) div 32 = b) pcs)))"
proof -
  let ?g = "tick_drivers s" and ?n = "(unat etext - unat stext) div 32"
  have boot: "s_low_pc ?g = stext" "s_high_pc ?g = etext" "heap_end ?g = heap" "length (alt_gmon_data ?g) = GMON_DATA_SIZE"
    by (simp_all add: assms(3) gmon_boot_def GMON_DATA_SIZE_def)
  have n: "unat ((s_high_pc ?g - s_low_pc ?g) div 32) = ?n" using assms(4) by (simp add: boot unat_div unat_sub)
  obtain s1 where s1: "nios2_pcsample_init env s = Inr (0, s1)" "timer_ok s1 [s_nios2_pcsample_alarm]"
    "ticks_left s1 s_nios2_pcsample_alarm = 2" "s_pcsamples (tick_drivers s1) \<noteq> 0"
    "pcsamples (tick_drivers s1) = replicate ?n 0" "s_low_pc (tick_drivers s1) = stext" "s_high_pc (tick_drivers s1) = etext"
    using init_run [OF assms(1,2) refl n [symmetric], of env] assms(6-8) by (auto simp: boot)
  let ?h = "tick_drivers s1"
  have range: "sample_fits pc ?h" for pc
    using bucket_range [of ?h pc] assms(5) s1(5-7) by (auto simp: sample_fits_def profiled_def)
  obtain s2 where s2: "alt_tick (\<lambda>_ _. nios2_pcsample pc) env s1 = Inr ((), s2)" "sampling s2" "tick_drivers s2 = ?h"
    using sampler_tick [OF s1(2) range, of pc env] s1(3) by auto
  obtain s3 where s3: "each pcs (\<lambda>pc. alt_tick (\<lambda>_ _. nios2_pcsample pc)) env s2 = Inr ((), s3)" "tick_drivers s3 = fold sampled pcs ?h"
    using sampler_ticks [OF s2(2), of pcs env] range s2(3) by auto
  have p: "profiled ?h pc \<and> bucket_of ?h pc = b \<longleftrightarrow> stext \<le> pc \<and> pc < etext \<and> (unat pc - unat stext) div 32 = b" for pc b
    using s1(4,6,7) by (auto simp: profiled_def bucket_of_def)
  have "bnd nios2_pcsample_init (\<lambda>_. each (pc # pcs) (\<lambda>pc. alt_tick (\<lambda>_ _. nios2_pcsample pc))) env s = Inr ((), s3)"
    using s1(1) s2(1) s3(1) by (simp add: bnd_def)
  with s3(2) fold_sampled [of pcs ?h] range s1(5) show ?thesis
    by (intro exI [of _ s3]) (simp add: p)
qed

definition ticking_profiler :: "gmon timer" where
  "ticking_profiler = (timer_boot (\<lambda>_. \<lparr>al_time = 0, al_callback = 0, al_rollover = 0, al_context = 0\<rparr>)
     (gmon_boot 0x8020 0x8080 0x9800 0xA000))\<lparr>alt_tick_rate := 1000\<rparr>"

lemma profile_histogram_witness:
  "\<exists>s'. bnd nios2_pcsample_init (\<lambda>_. each [0x8020, 0x8044, 0x7000, 0x8020, 0x8040] (\<lambda>pc. alt_tick (\<lambda>_ _. nios2_pcsample pc))) (\<lambda>_ _. 0) ticking_profiler = Inr ((), s') \<and>
     length (pcsamples (tick_drivers s')) = 3 \<and> pcsamples (tick_drivers s') ! 0 = 1 \<and> pcsamples (tick_drivers s') ! 1 = 2"
proof -
  have "timer_ok ticking_profiler []"
    by (simp add: timer_ok_def ticking_profiler_def timer_boot_def llist_of_head)
  from profile_histogram [OF this, of "0x8020" "0x8080" "0x9800" "0xA000" "0x8020" "[0x8044, 0x7000, 0x8020, 0x8040]" "\<lambda>_ _. 0"]
  show ?thesis by (auto simp: ticking_profiler_def timer_boot_def aligned_def)
qed

text \<open>
  C36: the histogram has no bucket for the last bytes of a text section that is not a multiple of 32
  bytes long: a sample there writes behind the buffer.
\<close>

lemma profile_tail_overrun:
  assumes "stext \<le> etext" "s_low_pc (tick_drivers s) = stext" "s_high_pc (tick_drivers s) = etext" "s_pcsamples (tick_drivers s) \<noteq> 0"
    and "length (pcsamples (tick_drivers s)) = unat ((etext - stext) div 32)"
    and "unat stext + 32 * unat ((etext - stext) div 32) \<le> unat pc" "pc < etext"
  shows "nios2_pcsample pc env s = Inl OutOfBounds"
proof -
  let ?k = "unat ((etext - stext) div 32)"
  have "32 * ?k \<le> unat pc - unat stext" using assms(6) by simp
  then have "?k \<le> bucket_of (tick_drivers s) pc" by (simp add: bucket_of_def assms(2) less_eq_div_iff_mult_less_eq)
  moreover have "profiled (tick_drivers s) pc" using assms(2-4,6,7) by (simp add: profiled_def word_le_nat_alt)
  ultimately show ?thesis using assms(5) by (simp add: pcsample_run)
qed

lemma profile_tail_overrun_witness:
  "nios2_pcsample 0x8061 (\<lambda>_ _. 0) (ticking_profiler\<lparr>tick_drivers := (gmon_boot 0x8020 0x8070 0x9800 0xA000)\<lparr>s_pcsamples := 0xA000, pcsamples := [0, 0]\<rparr>\<rparr>) =
     Inl OutOfBounds"
  by (rule profile_tail_overrun [where stext = "0x8020" and etext = "0x8070"]) (simp_all add: gmon_boot_def)

text \<open>The result of \<open>sbrk\<close> is compared with zero, but it reports failure by \<open>-1\<close>: the buffer is then cleared there.\<close>

lemma init_without_memory:
  assumes "alt_tick_rate s \<noteq> 0" "unat (heap_end (tick_drivers s)) \<le> 0x10000"
    and "n = (s_high_pc (tick_drivers s) - s_low_pc (tick_drivers s)) div 32" "n \<noteq> 0" "unat n < 2 ^ 30"
    and "0x10000 < aligned (unat (heap_end (tick_drivers s))) + 2 * unat n"
  shows "nios2_pcsample_init env s = Inl OutOfBounds"
proof -
  have w: "unat (n * 2) = 2 * unat n" using assms(5) by (simp add: unat_word_ariths)
  have "unat (n * 2) < 2 ^ 31" using assms(5) unfolding w by simp
  from sbrk_run [OF assms(2) this, of env] have "\<exists>e. ALT_SBRK (n * 2) env (heap_end (tick_drivers s)) = Inr (- 1, e)"
    unfolding w using assms(6) by simp
  then obtain e where "ALT_SBRK (n * 2) env (heap_end (tick_drivers s)) = Inr (- 1, e)" ..
  moreover have "unat (- 1 :: u32) = 2 ^ 32 - 1" by (simp add: unsigned_minus_1_eq_mask mask_eq_exp_minus_1)
  moreover have "0 < unat n" using assms(4) by (simp add: unat_gt_0)
  ultimately show ?thesis
    using assms(1) by (simp add: nios2_pcsample_init_def alt_ticks_per_second_def sbrk_def on_gmon_def check_memory_def bnd_def gets_def
      modify_def fail_def Let_def PCSAMPLE_BYTES_PER_BUCKET_def assms(3) [symmetric] alt_heap_limit_def)
qed

end
