(* ===== verification/Loader.thy ===== *)
theory Loader
  imports Prelude
begin

text \<open>
  Loading a program that starts from flash, \<^verbatim>\<open>HAL/src/alt_load.c\<close> and \<^verbatim>\<open>HAL/inc/sys/alt_load.h\<close>, and
  the constructors and destructors around \<open>main\<close>, \<^verbatim>\<open>alt_do_ctors.c\<close> and \<^verbatim>\<open>alt_do_dtors.c\<close>. Memory is a
  map from the addresses of words to their contents; the linker's symbols are a parameter. The
  processor has no caches to flush.
\<close>

section \<open>Copying sections\<close>

type_synonym memory = "u32 \<Rightarrow> u32"

text \<open>The loop ends when the pointers meet, and runs on through all of memory when they miss.\<close>

partial_function (option) copy_words :: "u32 \<Rightarrow> u32 \<Rightarrow> u32 \<Rightarrow> memory \<Rightarrow> memory option" where
  "copy_words from to end_addr m =
     (if to = end_addr then Some m else copy_words (from + 4) (to + 4) end_addr (m(to := m from)))"

definition alt_load_section :: "u32 \<Rightarrow> u32 \<Rightarrow> u32 \<Rightarrow> (memory, unit) prog" where
  "alt_load_section from to end_addr =
     (if to \<noteq> from then
        (\<lambda>env m. case copy_words from to end_addr m of None \<Rightarrow> Inl Hang | Some m' \<Rightarrow> Inr ((), m'))
      else ret ())"

record linker_symbols =
  flash_rwdata_start :: u32
  ram_rwdata_start :: u32
  ram_rwdata_end :: u32
  flash_rodata_start :: u32
  ram_rodata_start :: u32
  ram_rodata_end :: u32
  flash_exceptions_start :: u32
  ram_exceptions_start :: u32
  ram_exceptions_end :: u32

definition alt_load :: "linker_symbols \<Rightarrow> (memory, unit) prog" where
  "alt_load l = seqs
     [alt_load_section (flash_rwdata_start l) (ram_rwdata_start l) (ram_rwdata_end l),
      alt_load_section (flash_exceptions_start l) (ram_exceptions_start l) (ram_exceptions_end l),
      alt_load_section (flash_rodata_start l) (ram_rodata_start l) (ram_rodata_end l)]"

section \<open>Constructors and destructors\<close>

text \<open>The table from its last entry down to its first.\<close>

fun run_down :: "('s, unit) prog list \<Rightarrow> nat \<Rightarrow> ('s, unit) prog" where
  "run_down table 0 = ret ()"
| "run_down table (Suc i) = bnd (table ! i) (\<lambda>_. run_down table i)"

definition do_ctors :: "('s, unit) prog list \<Rightarrow> ('s, unit) prog" where
  "do_ctors table = run_down table (length table)"

definition do_dtors :: "('s, unit) prog list \<Rightarrow> ('s, unit) prog" where
  "do_dtors table = run_down table (length table)"

lemma run_down_rev: "i \<le> length table \<Longrightarrow> run_down table i = seqs (rev (take i table))"
  by (induction i) (simp_all add: take_Suc_conv_app_nth)

lemma do_ctors_order: "do_ctors table = seqs (rev table)"
  by (simp add: do_ctors_def run_down_rev)

section \<open>What is copied\<close>

text \<open>The words of a region: start and number.\<close>

definition words :: "u32 \<Rightarrow> nat \<Rightarrow> u32 set" where
  "words a n = (\<lambda>i. a + 4 * of_nat i) ` {..<n}"

lemma words_Suc: "words a (Suc n) = insert a (words (a + 4) n)"
proof -
  have "(\<lambda>i. a + 4 * of_nat i) ` {..<Suc n} = insert a ((\<lambda>i. a + 4 * of_nat (Suc i)) ` {..<n})"
    by (auto simp: lessThan_Suc_eq_insert_0 image_image)
  then show ?thesis by (simp add: words_def add.assoc algebra_simps)
qed

lemma word_multiple: "0 < n \<Longrightarrow> n < 2 ^ 30 \<Longrightarrow> (4 * of_nat n :: u32) \<noteq> 0"
proof -
  assume n: "0 < n" "n < 2 ^ 30"
  have "unat (of_nat (4 * n) :: u32) = 4 * n" using n unat_of_nat [of "4 * n", where 'a = 32] by (simp del: of_nat_mult)
  then show ?thesis using n by auto
qed

lemma words_start:
  assumes "n < 2 ^ 30" shows "a \<notin> words (a + 4) (n - 1)"
proof
  assume "a \<in> words (a + 4) (n - 1)"
  then obtain i where i: "i < n - 1" "a = a + 4 + 4 * of_nat i" by (auto simp: words_def)
  then have "(4 * of_nat (Suc i) :: u32) = 0" by (simp add: algebra_simps)
  moreover have "Suc i < 2 ^ 30" using i(1) assms by simp
  ultimately show False using word_multiple [of "Suc i"] by blast
qed

lemma copy_words_run:
  "n < 2 ^ 30 \<Longrightarrow> words from n \<inter> words to n = {} \<Longrightarrow>
   \<exists>m'. copy_words from to (to + 4 * of_nat n) m = Some m' \<and>
     (\<forall>i < n. m' (to + 4 * of_nat i) = m (from + 4 * of_nat i)) \<and> (\<forall>a. a \<notin> words to n \<longrightarrow> m' a = m a)"
proof (induction n arbitrary: "from" to m)
  case 0
  then show ?case by (simp add: copy_words.simps)
next
  case (Suc k)
  have dis: "words (from + 4) k \<inter> words (to + 4) k = {}" "to \<notin> words (from + 4) k"
    using Suc.prems(2) by (auto simp: words_Suc)
  have self: "to \<notin> words (to + 4) k" using words_start [of "Suc k"] Suc.prems(1) by simp
  obtain m' where m': "copy_words (from + 4) (to + 4) (to + 4 + 4 * of_nat k) (m(to := m from)) = Some m'"
      "\<forall>i < k. m' (to + 4 + 4 * of_nat i) = (m(to := m from)) (from + 4 + 4 * of_nat i)"
      "\<forall>a. a \<notin> words (to + 4) k \<longrightarrow> m' a = (m(to := m from)) a"
    using Suc.IH [of "from + 4" "to + 4"] dis Suc.prems(1) by fastforce
  have run: "copy_words from to (to + 4 * of_nat (Suc k)) m = Some m'"
    using m'(1) word_multiple [of "Suc k"] Suc.prems(1)
    by (subst copy_words.simps) (simp add: algebra_simps)
  have "m' (to + 4 * of_nat i) = m (from + 4 * of_nat i)" if "i < Suc k" for i
  proof (cases i)
    case 0
    then show ?thesis using m'(3) self by simp
  next
    case (Suc j)
    then have "from + 4 + 4 * of_nat j \<in> words (from + 4) k" using that by (auto simp: words_def)
    then have "from + 4 + 4 * of_nat j \<noteq> to" using dis(2) by auto
    then show ?thesis using m'(2) Suc that by (simp add: algebra_simps)
  qed
  moreover have "m' a = m a" if "a \<notin> words to (Suc k)" for a
    using that m'(3) by (simp add: words_Suc)
  ultimately show ?case using run by blast
qed

section \<open>The whole load\<close>

text \<open>
  The sections in the order they are copied: source, target and number of words. A target may not
  run into its own source, unless the two are the same, and no copy may reach the target or the
  source of a later one, nor a later one its target.
\<close>

type_synonym load_section = "u32 \<times> u32 \<times> nat"

fun fits :: "load_section \<Rightarrow> bool" where
  "fits (source, to, n) \<longleftrightarrow> n < 2 ^ 30 \<and> (source = to \<or> words source n \<inter> words to n = {})"

fun apart :: "load_section \<Rightarrow> load_section \<Rightarrow> bool" where
  "apart (source, to, n) (source', to', n') \<longleftrightarrow> words to n \<inter> (words to' n' \<union> words source' n') = {}"

fun loaded :: "memory \<Rightarrow> memory \<Rightarrow> load_section \<Rightarrow> bool" where
  "loaded m m' (source, to, n) \<longleftrightarrow> (\<forall>i < n. m' (to + 4 * of_nat i) = m (source + 4 * of_nat i))"

fun target :: "load_section \<Rightarrow> u32 set" where
  "target (source, to, n) = words to n"

fun load_one :: "load_section \<Rightarrow> (memory, unit) prog" where
  "load_one (source, to, n) = alt_load_section source to (to + 4 * of_nat n)"

lemma load_one_run:
  "fits x \<Longrightarrow> \<exists>m'. load_one x env m = Inr ((), m') \<and> loaded m m' x \<and> (\<forall>a. a \<notin> target x \<longrightarrow> m' a = m a)"
proof (induction x)
  case (fields source to n)
  show ?case
  proof (cases "source = to")
    case True then show ?thesis by (simp add: alt_load_section_def ret_def)
  next
    case False
    then obtain m' where "copy_words source to (to + 4 * of_nat n) m = Some m'"
        "\<forall>i < n. m' (to + 4 * of_nat i) = m (source + 4 * of_nat i)" "\<forall>a. a \<notin> words to n \<longrightarrow> m' a = m a"
      using copy_words_run [of n source to m] fields by auto
    then show ?thesis using False by (auto simp: alt_load_section_def)
  qed
qed

lemma in_words: "i < n \<Longrightarrow> a + 4 * of_nat i \<in> words a n"
  by (auto simp: words_def)

lemma loaded_before:
  "loaded m m' x \<Longrightarrow> \<forall>a. a \<in> target x \<longrightarrow> m'' a = m' a \<Longrightarrow> loaded m m'' x"
  by (induction x) (auto simp: in_words)

lemma loaded_after:
  "loaded m1 m' y \<Longrightarrow> apart x y \<Longrightarrow> \<forall>a. a \<notin> target x \<longrightarrow> m1 a = m a \<Longrightarrow> loaded m m' y"
proof (induction x; induction y)
  fix source to n source' to' n'
  assume l: "loaded m1 m' (source', to', n')" and d: "apart (source, to, n) (source', to', n')"
    and same: "\<forall>a. a \<notin> target (source, to, n) \<longrightarrow> m1 a = m a"
  have "m' (to' + 4 * of_nat i) = m (source' + 4 * of_nat i)" if "i < n'" for i
  proof -
    have "source' + 4 * of_nat i \<notin> words to n" using d in_words [OF that, of source'] by auto
    then show ?thesis using l same that by simp
  qed
  then show "loaded m m' (source', to', n')" by simp
qed

lemma apart_targets: "apart x y \<Longrightarrow> a \<in> target x \<Longrightarrow> a \<notin> target y"
  by (induction x; induction y) auto

lemma load_all_run:
  "\<forall>x \<in> set xs. fits x \<Longrightarrow> sorted_wrt apart xs \<Longrightarrow>
   \<exists>m'. seqs (map load_one xs) env m = Inr ((), m') \<and> (\<forall>x \<in> set xs. loaded m m' x) \<and>
     (\<forall>a. a \<notin> \<Union> (target ` set xs) \<longrightarrow> m' a = m a)"
proof (induction xs arbitrary: m)
  case Nil then show ?case by (simp add: ret_def)
next
  case (Cons x xs)
  obtain m1 where m1: "load_one x env m = Inr ((), m1)" "loaded m m1 x" "\<forall>a. a \<notin> target x \<longrightarrow> m1 a = m a"
    using load_one_run Cons.prems(1) by (meson list.set_intros(1))
  obtain m' where m': "seqs (map load_one xs) env m1 = Inr ((), m')" "\<forall>y \<in> set xs. loaded m1 m' y"
      "\<forall>a. a \<notin> \<Union> (target ` set xs) \<longrightarrow> m' a = m1 a"
    using Cons.IH [of m1] Cons.prems by auto
  have "\<forall>y \<in> set xs. loaded m m' y"
    using m'(2) m1(3) loaded_after Cons.prems(2) by (metis sorted_wrt.simps(2))
  moreover have "loaded m m' x"
    using loaded_before [OF m1(2)] m'(3) apart_targets Cons.prems(2) by (metis UN_E sorted_wrt.simps(2))
  ultimately show ?case using m1(1,3) m'(1,3) by (auto simp: bnd_def)
qed

section \<open>When it ends\<close>

lemma copy_words_apart: "copy_words from to end_addr m = Some m' \<Longrightarrow> \<exists>n. end_addr = to + 4 * of_nat n"
proof (erule copy_words.raw_induct [where P = "\<lambda>from to end_addr m m'. \<exists>n. end_addr = to + 4 * of_nat n", rotated])
  fix copy "from" to end_addr m m'
  assume IH: "\<And>from to end_addr m m'. copy from to end_addr m = Some m' \<Longrightarrow> \<exists>n. end_addr = to + 4 * of_nat n"
    and run: "(if to = end_addr then Some m else copy (from + 4) (to + 4) end_addr (m(to := m from))) = Some m'"
  show "\<exists>n. end_addr = to + 4 * of_nat n"
  proof (cases "to = end_addr")
    case True then show ?thesis by (intro exI [of _ 0]) simp
  next
    case False
    then obtain n where "end_addr = to + 4 + 4 * of_nat n" using IH run by fastforce
    then show ?thesis by (intro exI [of _ "Suc n"]) (simp add: algebra_simps)
  qed
qed

lemma copy_words_returns: "\<exists>m'. copy_words from to (to + 4 * of_nat n) m = Some m'"
proof (induction n arbitrary: "from" to m)
  case 0 then show ?case by (simp add: copy_words.simps)
next
  case (Suc n)
  obtain m' where "copy_words (from + 4) (to + 4) (to + 4 + 4 * of_nat n) (m(to := m from)) = Some m'"
    using Suc by blast
  then show ?case by (subst copy_words.simps) (simp add: algebra_simps)
qed

text \<open>A section is whole words when its end is met: the length in bytes is a multiple of four.\<close>

fun whole :: "u32 \<Rightarrow> u32 \<Rightarrow> bool" where
  "whole to end_addr \<longleftrightarrow> 4 dvd unat (end_addr - to)"

abbreviation length_of :: "u32 \<Rightarrow> u32 \<Rightarrow> nat" where
  "length_of to end_addr \<equiv> unat (end_addr - to) div 4"

lemma whole_end: "whole to end_addr \<Longrightarrow> end_addr = to + 4 * of_nat (length_of to end_addr)"
proof -
  assume "whole to end_addr"
  then have "4 * length_of to end_addr = unat (end_addr - to)" by simp
  then have "(of_nat (4 * length_of to end_addr) :: u32) = end_addr - to" by simp
  then show ?thesis by (simp add: of_nat_mult)
qed

lemma length_of_bound: "length_of to end_addr < 2 ^ 30"
  using unsigned_less [where 'a = nat, of "end_addr - to"] by simp

lemma whole_iff: "whole to end_addr \<longleftrightarrow> (\<exists>n. end_addr = to + 4 * of_nat n)"
proof
  assume "\<exists>n. end_addr = to + 4 * of_nat n"
  then obtain n where "end_addr - to = of_nat (4 * n)" by auto
  then have "unat (end_addr - to) = (4 * n) mod 2 ^ 32" using unat_of_nat [of "4 * n", where 'a = 32] by simp
  then show "whole to end_addr" by (simp add: dvd_mod_iff)
qed (use whole_end in blast)

lemma alt_load_section_ends:
  "if source = to \<or> whole to end_addr then \<exists>m'. alt_load_section source to end_addr env m = Inr ((), m')
   else alt_load_section source to end_addr env m = Inl Hang"
proof (cases "whole to end_addr")
  case True
  then obtain m' where "copy_words source to end_addr m = Some m'"
    using copy_words_returns whole_iff by metis
  then show ?thesis using True by (simp add: alt_load_section_def ret_def)
next
  case False
  then have "copy_words source to end_addr m = None"
    using copy_words_apart whole_iff by (metis not_None_eq)
  then show ?thesis using False by (simp add: alt_load_section_def ret_def)
qed

definition ends_if :: "bool \<Rightarrow> (memory, unit) prog \<Rightarrow> env \<Rightarrow> bool" where
  "ends_if A p env \<longleftrightarrow> (\<forall>m. if A then \<exists>m'. p env m = Inr ((), m') else p env m = Inl Hang)"

lemma ends_if_nil: "ends_if True (seqs []) env"
  by (simp add: ends_if_def ret_def)

lemma ends_if_seqs:
  assumes "ends_if A p env" "ends_if B (seqs ps) env" shows "ends_if (A \<and> B) (seqs (p # ps)) env"
  unfolding ends_if_def
proof
  fix m
  show "if A \<and> B then \<exists>m'. seqs (p # ps) env m = Inr ((), m') else seqs (p # ps) env m = Inl Hang"
  proof (cases A)
    case True
    then obtain m' where "p env m = Inr ((), m')" using assms(1) unfolding ends_if_def by (metis (full_types))
    then have "seqs (p # ps) env m = seqs ps env m'" by (simp add: bnd_def)
    then show ?thesis using assms(2) True by (simp add: ends_if_def)
  next
    case False
    then show ?thesis using assms(1) by (simp add: ends_if_def bnd_def)
  qed
qed

text \<open>
  C38: Loading ends exactly when every section that is not in place has a length that is a multiple
  of four bytes; the loop compares its pointer with the end by inequality, so a length that is not
  a multiple would make it run on for ever, whatever is in memory.
\<close>

theorem alt_load_returns:
  "if (flash_rwdata_start l = ram_rwdata_start l \<or> whole (ram_rwdata_start l) (ram_rwdata_end l)) \<and>
      (flash_exceptions_start l = ram_exceptions_start l \<or> whole (ram_exceptions_start l) (ram_exceptions_end l)) \<and>
      (flash_rodata_start l = ram_rodata_start l \<or> whole (ram_rodata_start l) (ram_rodata_end l))
   then \<exists>m'. alt_load l env m = Inr ((), m') else alt_load l env m = Inl Hang"
proof -
  have one: "ends_if (source = to \<or> whole to end_addr) (alt_load_section source to end_addr) env"
    for source to end_addr
    using alt_load_section_ends by (simp add: ends_if_def)
  have "ends_if
     ((flash_rwdata_start l = ram_rwdata_start l \<or> whole (ram_rwdata_start l) (ram_rwdata_end l)) \<and>
      (flash_exceptions_start l = ram_exceptions_start l \<or> whole (ram_exceptions_start l) (ram_exceptions_end l)) \<and>
      (flash_rodata_start l = ram_rodata_start l \<or> whole (ram_rodata_start l) (ram_rodata_end l)) \<and> True)
     (alt_load l) env"
    unfolding alt_load_def by (intro ends_if_seqs one ends_if_nil)
  then show ?thesis unfolding ends_if_def simp_thms by (rule spec)
qed

section \<open>What a load leaves\<close>

definition load_sections :: "linker_symbols \<Rightarrow> load_section list" where
  "load_sections l =
     [(flash_rwdata_start l, ram_rwdata_start l, length_of (ram_rwdata_start l) (ram_rwdata_end l)),
      (flash_exceptions_start l, ram_exceptions_start l, length_of (ram_exceptions_start l) (ram_exceptions_end l)),
      (flash_rodata_start l, ram_rodata_start l, length_of (ram_rodata_start l) (ram_rodata_end l))]"

definition well_laid :: "linker_symbols \<Rightarrow> bool" where
  "well_laid l \<longleftrightarrow> whole (ram_rwdata_start l) (ram_rwdata_end l) \<and>
     whole (ram_exceptions_start l) (ram_exceptions_end l) \<and> whole (ram_rodata_start l) (ram_rodata_end l) \<and>
     (\<forall>x \<in> set (load_sections l). fits x) \<and> sorted_wrt apart (load_sections l)"

text \<open>
  C37: When the sections are laid out apart, loading ends with every word of the initialised data,
  of the exception handler and of the constants equal to the word of its image in flash as it was
  before, and with every other word of memory untouched.
\<close>

theorem alt_load_copies:
  assumes "well_laid l"
  shows "\<exists>m'. alt_load l env m = Inr ((), m') \<and> (\<forall>x \<in> set (load_sections l). loaded m m' x) \<and>
    (\<forall>a. a \<notin> \<Union> (target ` set (load_sections l)) \<longrightarrow> m' a = m a)"
proof -
  have "alt_load l = seqs (map load_one (load_sections l))"
    using assms whole_end unfolding well_laid_def by (simp add: alt_load_def load_sections_def)
  then show ?thesis using load_all_run assms unfolding well_laid_def by metis
qed

definition flash_layout :: linker_symbols where
  "flash_layout =
     \<lparr>flash_rwdata_start = 0x8000, ram_rwdata_start = 0x20000, ram_rwdata_end = 0x20008,
      flash_rodata_start = 0x9000, ram_rodata_start = 0x20008, ram_rodata_end = 0x2000C,
      flash_exceptions_start = 0x1FF00, ram_exceptions_start = 0x1FF00, ram_exceptions_end = 0x1FF08\<rparr>"

lemma alt_load_copies_witness:
  "\<exists>m'. alt_load flash_layout (\<lambda>_ _. 0) id = Inr ((), m') \<and> (\<forall>x \<in> set (load_sections flash_layout). loaded id m' x) \<and>
    (\<forall>a. a \<notin> \<Union> (target ` set (load_sections flash_layout)) \<longrightarrow> m' a = a)"
proof -
  have n: "words a (Suc 0) = {a}" "words a 2 = {a, a + 4}" for a
    by (simp_all add: words_def lessThan_Suc numeral_2_eq_2 insert_commute)
  have "well_laid flash_layout"
    by (simp add: well_laid_def load_sections_def flash_layout_def n)
  then show ?thesis using alt_load_copies [of flash_layout "\<lambda>_ _. 0" id] by simp
qed

end
