(* ===== verification/Caches.thy ===== *)
theory Caches
  imports Prelude
begin

text \<open>
  Cache control, \<^verbatim>\<open>alt_dcache_flush.c\<close>, \<^verbatim>\<open>alt_dcache_flush_all.c\<close>, \<^verbatim>\<open>alt_dcache_flush_no_writeback.c\<close>,
  \<^verbatim>\<open>alt_icache_flush.c\<close>, \<^verbatim>\<open>alt_icache_flush_all.c\<close> and \<^verbatim>\<open>alt_remap_cached.c\<close>: the addresses that the flush
  instructions are executed with, in order, for any size of cache and line. In this system all sizes are
  zero. \<open>None\<close> is a loop that is never left.
\<close>

section \<open>Flushing\<close>

record cache =
  cache_size :: u32
  line_size :: u32

text \<open>The loop from \<open>i\<close> to \<open>end_addr\<close>: the addresses flushed and the pointer after it.\<close>

partial_function (option) flush_lines :: "u32 \<Rightarrow> u32 \<Rightarrow> u32 \<Rightarrow> (u32 list \<times> u32) option" where
  "flush_lines line i end_addr =
     (if i < end_addr then Option.bind (flush_lines line (i + line) end_addr) (\<lambda>r. Some (i # fst r, snd r))
      else Some ([], i))"

text \<open>An unaligned request has one more line left.\<close>

definition flush_range :: "u32 \<Rightarrow> u32 \<Rightarrow> u32 \<Rightarrow> u32 list option" where
  "flush_range line start end_addr =
     map_option (\<lambda>(as, p). if start AND (line - 1) \<noteq> 0 then as @ [p] else as) (flush_lines line start end_addr)"

definition alt_dcache_flush :: "cache \<Rightarrow> u32 \<Rightarrow> u32 \<Rightarrow> u32 list option" where
  "alt_dcache_flush d start len =
     (if cache_size d > 0 then flush_range (line_size d) start (start + len) else Some [])"

definition alt_dcache_flush_all :: "cache \<Rightarrow> u32 list option" where
  "alt_dcache_flush_all d = (if cache_size d > 0 then map_option fst (flush_lines (line_size d) 0 (cache_size d)) else Some [])"

text \<open>This one does not ask whether there is a cache.\<close>

definition alt_dcache_flush_no_writeback :: "cache \<Rightarrow> u32 \<Rightarrow> u32 \<Rightarrow> u32 list option" where
  "alt_dcache_flush_no_writeback d start len = flush_range (line_size d) start (start + len)"

definition alt_icache_flush :: "cache \<Rightarrow> u32 \<Rightarrow> u32 \<Rightarrow> u32 list option" where
  "alt_icache_flush c start len =
     (if cache_size c > 0 then
        let len = (if len > cache_size c then cache_size c else len) in flush_range (line_size c) start (start + len)
      else Some [])"

definition alt_icache_flush_all :: "cache \<Rightarrow> u32 list option" where
  "alt_icache_flush_all c = (if cache_size c > 0 then alt_icache_flush c 0 (cache_size c) else Some [])"

text \<open>\<open>bypass\<close> is the bypass mask, when the data cache has one; without it the call is a link error.\<close>

definition alt_remap_cached :: "cache \<Rightarrow> u32 option \<Rightarrow> u32 \<Rightarrow> u32 \<Rightarrow> u32" where
  "alt_remap_cached d bypass ptr len =
     (if cache_size d > 0 then (case bypass of Some m \<Rightarrow> ptr AND NOT m | None \<Rightarrow> 0) else ptr)"

declare flush_lines.simps [code]

section \<open>Every line is flushed\<close>

lemma flush_lines_run:
  assumes "0 < line" "unat end_addr \<le> unat i + n * unat line" "unat i + n * unat line < 2 ^ 32"
    and "\<forall>j < n. unat i + j * unat line < unat end_addr"
  shows "flush_lines line i end_addr = Some (map (\<lambda>j. i + of_nat j * line) [0..<n], i + of_nat n * line)"
  using assms(2-4)
proof (induction n arbitrary: i)
  case 0
  then have "\<not> i < end_addr" by (simp add: word_less_nat_alt)
  then show ?case by (simp add: flush_lines.simps)
next
  case (Suc n)
  have less: "i < end_addr" using Suc.prems(3) by (force simp: word_less_nat_alt)
  have step: "unat (i + line) = unat i + unat line" using Suc.prems(2) by (simp add: unat_word_ariths)
  have "flush_lines line (i + line) end_addr =
      Some (map (\<lambda>j. i + line + of_nat j * line) [0..<n], i + line + of_nat n * line)"
  proof (rule Suc.IH)
    show "\<forall>j<n. unat (i + line) + j * unat line < unat end_addr"
    proof (intro allI impI)
      fix j assume "j < n"
      then show "unat (i + line) + j * unat line < unat end_addr" using Suc.prems(3) [rule_format, of "Suc j"] step by simp
    qed
  qed (use Suc.prems step in simp_all)
  moreover have "map (\<lambda>j. i + of_nat j * line) [0..<Suc n] = i # map (\<lambda>j. i + line + of_nat j * line) [0..<n]"
    unfolding upt_conv_Cons [OF zero_less_Suc] map_Suc_upt [symmetric] by (simp add: algebra_simps)
  ultimately show ?case using less by (subst flush_lines.simps) (simp add: algebra_simps)
qed

lemma unat_step: "unat i + j * unat l < 2 ^ 32 \<Longrightarrow> unat (i + of_nat j * l) = unat i + j * unat (l :: u32)"
proof -
  assume b: "unat i + j * unat l < 2 ^ 32"
  have "of_nat (unat i + j * unat l) = i + of_nat j * l" by simp
  then show ?thesis using unat_of_nat [of "unat i + j * unat l", where 'a = 32] b by simp
qed

lemma next_line:
  assumes "r < l"
  shows "(q + r) div l \<noteq> q div l \<Longrightarrow> q mod l \<noteq> (0 :: nat)" "(q + r) div l \<noteq> q div l \<Longrightarrow> (q + r) div l = q div l + 1"
proof -
  have q: "q + r = q div l * l + (q mod l + r)" by simp
  have m: "q mod l < l" using assms by simp
  have e: "(q + r) div l = q div l + (q mod l + r) div l"
    by (subst q) (rule div_mult_self3, use assms in simp)
  show "(q + r) div l \<noteq> q div l \<Longrightarrow> q mod l \<noteq> 0" unfolding e using assms by (metis add.right_neutral add_0 div_less)
  have "q mod l + r < 2 * l" using assms m by linarith
  then have "(q mod l + r) div l < 2" using assms by (simp add: div_less_iff_less_mult)
  then show "(q + r) div l \<noteq> q div l \<Longrightarrow> (q + r) div l = q div l + 1" unfolding e by linarith
qed

text \<open>Every byte of the region lies in a line that was flushed, whatever the alignment of the region.\<close>

lemma flush_range_covers:
  assumes "unat line = 2 ^ k" "unat start + len + unat line < 2 ^ 32"
  shows "\<exists>as. flush_range line start (start + of_nat len) = Some as \<and>
    (\<forall>d < len. \<exists>a \<in> set as. unat a div unat line = (unat start + d) div unat line)"
proof -
  let ?l = "unat line" and ?s = "unat start"
  define n where "n = (len + ?l - 1) div ?l"
  have l: "0 < ?l" "0 < line" using assms(1) by (simp_all add: word_less_nat_alt)
  have n: "len \<le> n * ?l" "n * ?l < len + ?l"
  proof -
    have "n * ?l + (len + ?l - 1) mod ?l = len + ?l - 1" unfolding n_def by (rule div_mult_mod_eq)
    moreover have "(len + ?l - 1) mod ?l < ?l" using l(1) by simp
    ultimately show "len \<le> n * ?l" "n * ?l < len + ?l" using l(1) by linarith+
  qed
  have e: "unat (start + of_nat len) = ?s + len" using unat_step [of start len 1] assms(2) by simp
  have below: "\<forall>j < n. ?s + j * ?l < unat (start + of_nat len)"
  proof (intro allI impI)
    fix j assume "j < n"
    then have "Suc j * ?l \<le> n * ?l" by (intro mult_le_mono1) simp
    then show "?s + j * ?l < unat (start + of_nat len)" unfolding e using n(2) by simp
  qed
  have top: "?s + n * ?l < 2 ^ 32" using n(2) assms(2) by linarith
  have run: "flush_lines line start (start + of_nat len) = Some (map (\<lambda>j. start + of_nat j * line) [0..<n], start + of_nat n * line)"
    by (rule flush_lines_run [OF l(2) _ top below]) (use e n(1) in simp)
  let ?as = "map (\<lambda>j. start + of_nat j * line) [0..<n] @ (if start AND (line - 1) \<noteq> 0 then [start + of_nat n * line] else [])"
  have addr: "unat (start + of_nat j * line) = ?s + j * ?l" if "j \<le> n" for j
  proof (rule unat_step)
    have "j * ?l \<le> n * ?l" using that by simp
    then show "?s + j * ?l < 2 ^ 32" using top by linarith
  qed
  have aligned: "start AND (line - 1) = 0 \<longleftrightarrow> ?s mod ?l = 0"
  proof -
    have "line = 2 ^ k" "k < 32"
    proof -
      have "(2 :: nat) ^ k < 2 ^ 32" using assms(1) unsigned_less [of line, where 'a = nat] by simp
      then show k: "k < 32" by (rule power_less_imp_less_exp [rotated]) simp
      have "unat (2 ^ k :: u32) = 2 ^ k" using k unat_of_nat [of "2 ^ k", where 'a = 32] \<open>2 ^ k < 2 ^ 32\<close> by simp
      then show "line = 2 ^ k" using assms(1) by (metis unsigned_word_eqI)
    qed
    then have "start AND (line - 1) = take_bit k start" by (simp add: take_bit_eq_mask mask_eq_exp_minus_1)
    also have "\<dots> = start mod line" using \<open>line = 2 ^ k\<close> by (simp add: take_bit_eq_mod)
    finally have "unat (start AND (line - 1)) = ?s mod ?l" by (simp only: unat_mod)
    then show ?thesis by (metis unat_eq_0)
  qed
  have "\<exists>a \<in> set ?as. unat a div ?l = (?s + d) div ?l" if "d < len" for d
  proof -
    let ?j = "d div ?l"
    have "?j * ?l < n * ?l" using that n(1) by (meson div_times_less_eq_dividend le_less_trans order_less_le_trans)
    then have j: "?j < n" by simp
    have d: "?s + d = (?s + ?j * ?l) + d mod ?l" by simp
    show ?thesis
    proof (cases "(?s + d) div ?l = (?s + ?j * ?l) div ?l")
      case True
      then show ?thesis using j addr [of ?j] by (intro bexI [of _ "start + of_nat ?j * line"]) auto
    next
      case False
      let ?q = "?s + ?j * ?l" and ?r = "d mod ?l"
      have r: "?r < ?l" using l(1) by simp
      note next_line [OF r, of ?q, folded d]
      from this(1) [OF False] have extra: "start AND (line - 1) \<noteq> 0" using aligned by simp
      from next_line(2) [OF r, of ?q, folded d, OF False] have "(?s + d) div ?l = ?q div ?l + 1" .
      also have "\<dots> = (?q + ?l) div ?l" using div_add_self2 [of ?l ?q] l(1) by simp
      also have "?q + ?l = ?s + Suc ?j * ?l" by simp
      finally have "(?s + d) div ?l = unat (start + of_nat (Suc ?j) * line) div ?l"
        using addr [of "Suc ?j"] j by simp
      moreover have "start + of_nat (Suc ?j) * line \<in> set ?as"
      proof (cases "Suc ?j = n")
        case True then show ?thesis using extra by simp
      next
        case False
        then have "Suc ?j \<in> set [0..<n]" using j by simp
        then show ?thesis by (metis (no_types, lifting) UnI1 image_eqI list.set_map set_append)
      qed
      ultimately show ?thesis by metis
    qed
  qed
  then show ?thesis using run by (auto simp: flush_range_def)
qed

text \<open>
  With a line size of zero the pointer never moves. The calls that look for a cache first do nothing;
  the one that does not never returns for a region that is not empty, which is the case of this system.
\<close>

lemma flush_lines_stuck: "i < end_addr \<Longrightarrow> flush_lines 0 i end_addr = None"
proof (rule ccontr)
  assume less: "i < end_addr" and "flush_lines 0 i end_addr \<noteq> None"
  then obtain r where r: "flush_lines 0 i end_addr = Some r" by auto
  have "line = 0 \<longrightarrow> \<not> i < end_addr" if "flush_lines line i end_addr = Some r" for line i end_addr r
    using that
    by (rule flush_lines.raw_induct [where P = "\<lambda>line i end_addr r. line = 0 \<longrightarrow> \<not> i < end_addr", rotated])
      (force split: if_splits option.splits simp: Option.bind_eq_Some_conv)
  with r less show False by blast
qed

lemma no_cache:
  assumes "cache_size c = 0" "line_size c = 0"
  shows "alt_dcache_flush c start len = Some []" "alt_icache_flush c start len = Some []"
    "alt_dcache_flush_all c = Some []" "alt_icache_flush_all c = Some []" "alt_remap_cached c m ptr len = ptr"
    "start < start + len \<Longrightarrow> alt_dcache_flush_no_writeback c start len = None"
  using assms by (simp_all add: alt_dcache_flush_def alt_icache_flush_def alt_dcache_flush_all_def alt_icache_flush_all_def
      alt_remap_cached_def alt_dcache_flush_no_writeback_def flush_range_def flush_lines_stuck)

lemma dcache_flush_covers:
  assumes "cache_size d > 0" "unat (line_size d) = 2 ^ k" "unat start + unat len + unat (line_size d) < 2 ^ 32"
  shows "\<exists>as. alt_dcache_flush d start len = Some as \<and>
    (\<forall>i < unat len. \<exists>a \<in> set as. unat a div unat (line_size d) = (unat start + i) div unat (line_size d))"
  using flush_range_covers [OF assms(2,3)] assms(1) by (simp add: alt_dcache_flush_def)

end
