(* ===== verification/Printf.thy ===== *)
theory Printf
  imports Prelude
begin

text \<open>
  The HAL's small formatter, \<^verbatim>\<open>HAL/src/alt_printf.c\<close>: the characters it hands to \<open>alt_putchar\<close>, in
  order. The arguments are a list of tagged values; taking one that is missing or of another type,
  which is undefined in C, is \<open>None\<close>.
\<close>

section \<open>Formatting\<close>

datatype printf_arg = ArgInt u32 | ArgString "u8 list"

definition alt_putchar :: "u32 \<Rightarrow> u8" where
  "alt_putchar c = ucast c"

definition ascii :: "char \<Rightarrow> u8" where
  "ascii c = of_char c"

text \<open>
  A string is the list of its characters before the terminating zero. The four bits at \<open>digit_shift\<close>, and the search for the first that are not zero, which the
  code makes only for a value that is not zero: it ends at \<open>n = 0\<close> at the latest.
\<close>

definition hex_bits :: "u32 \<Rightarrow> nat \<Rightarrow> u32" where
  "hex_bits v digit_shift = v AND push_bit digit_shift 0xF"

fun first_digit :: "u32 \<Rightarrow> nat \<Rightarrow> nat" where
  "first_digit v n = (if hex_bits v (4 * n) = 0 \<and> n \<noteq> 0 then first_digit v (n - 1) else n)"

declare first_digit.simps [simp del]

definition hex_char :: "u32 \<Rightarrow> u8" where
  "hex_char digit = (if digit \<le> 9 then ascii CHR ''0'' + ucast digit else ascii CHR ''a'' + ucast digit - 10)"

primrec print_digits :: "u32 \<Rightarrow> nat \<Rightarrow> u8 list" where
  "print_digits v 0 = [hex_char (hex_bits v 0)]"
| "print_digits v (Suc n) = hex_char (drop_bit (4 * Suc n) (hex_bits v (4 * Suc n))) # print_digits v n"

definition print_hex :: "u32 \<Rightarrow> u8 list" where
  "print_hex v = (if v = 0 then [ascii CHR ''0''] else print_digits v (first_digit v 7))"

text \<open>A format character that is not known prints nothing and takes no argument.\<close>

fun alt_printf :: "u8 list \<Rightarrow> printf_arg list \<Rightarrow> u8 list option" where
  "alt_printf [] args = Some []"
| "alt_printf [c] args = (if c \<noteq> ascii CHR ''%'' then Some [c] else Some [])"
| "alt_printf (c # d # w) args =
     (if c \<noteq> ascii CHR ''%'' then map_option ((#) c) (alt_printf (d # w) args)
      else if d = ascii CHR ''%'' then map_option ((#) d) (alt_printf w args)
      else if d = ascii CHR ''c'' then
        (case args of ArgInt v # args' \<Rightarrow> map_option ((#) (alt_putchar v)) (alt_printf w args') | _ \<Rightarrow> None)
      else if d = ascii CHR ''x'' then
        (case args of ArgInt v # args' \<Rightarrow> map_option ((@) (print_hex v)) (alt_printf w args') | _ \<Rightarrow> None)
      else if d = ascii CHR ''s'' then
        (case args of ArgString s # args' \<Rightarrow> map_option ((@) s) (alt_printf w args') | _ \<Rightarrow> None)
      else alt_printf w args)"

section \<open>Hexadecimal numbers\<close>

text \<open>Reading digits back.\<close>

definition hex_value :: "u8 \<Rightarrow> nat" where
  "hex_value c = (if c \<le> ascii CHR ''9'' then unat (c - ascii CHR ''0'') else unat (c - ascii CHR ''a'') + 10)"

definition read_hex :: "u8 list \<Rightarrow> nat" where
  "read_hex = foldl (\<lambda>n c. 16 * n + hex_value c) 0"

lemma hex_chars: "\<forall>n \<in> set [0..<16]. hex_value (hex_char (of_nat n)) = n \<and> (hex_char (of_nat n) = ascii CHR ''0'') = (n = 0)"
  by code_simp

lemma hex_char_value:
  assumes "unat d < 16"
  shows "hex_value (hex_char d) = unat d" "(hex_char d = ascii CHR ''0'') = (d = 0)"
proof -
  have "unat d \<in> set [0..<16]" using assms by simp
  with hex_chars have "hex_value (hex_char (of_nat (unat d))) = unat d \<and>
      (hex_char (of_nat (unat d)) = ascii CHR ''0'') = (unat d = 0)" by blast
  then show "hex_value (hex_char d) = unat d" "(hex_char d = ascii CHR ''0'') = (d = 0)"
    by (simp_all add: unat_eq_0)
qed

lemma digit_bits:
  assumes "m \<le> 7"
  shows "drop_bit (4 * m) (hex_bits v (4 * m)) = take_bit 4 (drop_bit (4 * m) v)"
proof (rule bit_word_eqI)
  fix i
  assume "i < LENGTH(32)"
  have "bit (15 :: u32) i \<longleftrightarrow> i < 4" using bit_mask_iff [of 4 i, where ?'a = u32] by (auto simp: mask_eq_exp_minus_1 dest: bit_imp_le_length)
  then show "bit (drop_bit (4 * m) (hex_bits v (4 * m))) i = bit (take_bit 4 (drop_bit (4 * m) v)) i"
    using assms by (auto simp: hex_bits_def bit_simps dest: bit_imp_le_length)
qed

lemma digit_value:
  assumes "m \<le> 7"
  shows "unat (drop_bit (4 * m) (hex_bits v (4 * m))) = unat v div 16 ^ m mod 16"
    "hex_bits v (4 * m) = 0 \<longleftrightarrow> unat v div 16 ^ m mod 16 = 0"
proof -
  show u: "unat (drop_bit (4 * m) (hex_bits v (4 * m))) = unat v div 16 ^ m mod 16"
  proof -
    have "unat (take_bit 4 (drop_bit (4 * m) v)) = take_bit 4 (drop_bit (4 * m) (unat v))"
      using unsigned_less [of v, where ?'a = nat] by (simp add: unsigned_take_bit_eq unsigned_drop_bit_eq take_bit_nat_eq_self)
    also have "\<dots> = unat v div 2 ^ (4 * m) mod 2 ^ 4" by (simp only: take_bit_eq_mod drop_bit_eq_div)
    also have "\<dots> = unat v div 16 ^ m mod 16" by (simp add: power_mult)
    finally show ?thesis unfolding digit_bits [OF assms] .
  qed
  have "hex_bits v (4 * m) = push_bit (4 * m) (drop_bit (4 * m) (hex_bits v (4 * m)))"
    by (rule bit_word_eqI) (auto simp: hex_bits_def bit_simps)
  then have "hex_bits v (4 * m) = 0 \<longleftrightarrow> drop_bit (4 * m) (hex_bits v (4 * m)) = 0" by (metis drop_bit_of_0 push_bit_of_0)
  with u show "hex_bits v (4 * m) = 0 \<longleftrightarrow> unat v div 16 ^ m mod 16 = 0" by (metis unat_eq_0)
qed

lemma read_print_digits:
  "n \<le> 7 \<Longrightarrow> foldl (\<lambda>n c. 16 * n + hex_value c) a (print_digits v n) = a * 16 ^ Suc n + unat v mod 16 ^ Suc n"
proof (induction n arbitrary: a)
  case 0
  have "unat (hex_bits v 0) = unat v mod 16" using digit_value(1) [of 0 v] by simp
  then show ?case by (simp add: hex_char_value)
next
  case (Suc n)
  let ?d = "unat v div 16 ^ Suc n mod 16"
  have d: "hex_value (hex_char (drop_bit (4 * Suc n) (hex_bits v (4 * Suc n)))) = ?d"
    using Suc.prems digit_value(1) [of "Suc n" v] hex_char_value(1) by simp
  have "unat v mod 16 ^ Suc (Suc n) = 16 ^ Suc n * ?d + unat v mod 16 ^ Suc n"
    using mod_mult2_eq [of "unat v" "16 ^ Suc n" 16] by (simp add: mult.commute)
  with Suc d show ?case by (simp add: algebra_simps)
qed

lemma first_digit_bound:
  "n \<le> 7 \<Longrightarrow> unat v < 16 ^ Suc n \<Longrightarrow> v \<noteq> 0 \<Longrightarrow>
   first_digit v n \<le> n \<and> unat v < 16 ^ Suc (first_digit v n) \<and> unat v div 16 ^ first_digit v n mod 16 \<noteq> 0"
proof (induction n)
  case 0
  then show ?case by (simp add: first_digit.simps [of v 0] unat_eq_0)
next
  case (Suc n)
  have step: "first_digit v (Suc n) = (if hex_bits v (4 * Suc n) = 0 then first_digit v n else Suc n)"
    by (simp add: first_digit.simps [of v "Suc n"])
  show ?case
  proof (cases "hex_bits v (4 * Suc n) = 0")
    case True
    then have "unat v div 16 ^ Suc n mod 16 = 0" using digit_value(2) [OF Suc.prems(1)] by simp
    moreover have "unat v div 16 ^ Suc n < 16" using Suc.prems(2) by (simp add: div_less_iff_less_mult)
    ultimately have "unat v < 16 ^ Suc n" by (simp add: div_eq_0_iff)
    with Suc.IH Suc.prems True show ?thesis unfolding step by auto
  next
    case False
    with Suc.prems digit_value(2) [OF Suc.prems(1), of v] show ?thesis unfolding step by auto
  qed
qed

text \<open>
  The conversion \<open>%x\<close> prints a number of at most eight digits that reads back as the argument and
  starts with a zero for the argument zero only.
\<close>

lemma printf_hex:
  "\<exists>ds. alt_printf [ascii CHR ''%'', ascii CHR ''x''] [ArgInt v] = Some ds \<and> read_hex ds = unat v \<and>
     length ds \<le> 8 \<and> (hd ds = ascii CHR ''0'') = (v = 0)"
proof -
  have len: "length (print_digits v n) = Suc n" for n by (induction n) simp_all
  have hd: "hd (print_digits v n) = hex_char (drop_bit (4 * n) (hex_bits v (4 * n)))" for n by (cases n) simp_all
  have "read_hex (print_hex v) = unat v \<and> length (print_hex v) \<le> 8 \<and> (hd (print_hex v) = ascii CHR ''0'') = (v = 0)"
  proof (cases "v = 0")
    case True
    then show ?thesis by (simp add: print_hex_def read_hex_def hex_value_def ascii_def)
  next
    case False
    let ?n = "first_digit v 7"
    have "unat v < 16 ^ Suc 7" using unsigned_less [of v, where ?'a = nat] by simp
    from first_digit_bound [OF _ this False] have n: "?n \<le> 7" "unat v < 16 ^ Suc ?n" "unat v div 16 ^ ?n mod 16 \<noteq> 0" by simp_all
    have "drop_bit (4 * ?n) (hex_bits v (4 * ?n)) \<noteq> 0" using digit_value(1) [OF n(1), of v] n(3) by (metis unat_0)
    moreover have "unat (drop_bit (4 * ?n) (hex_bits v (4 * ?n))) < 16" using digit_value(1) [OF n(1), of v] by simp
    ultimately have "hd (print_hex v) \<noteq> ascii CHR ''0''" using False hd hex_char_value(2) by (simp add: print_hex_def)
    moreover have "read_hex (print_hex v) = unat v"
      using read_print_digits [OF n(1), of 0 v] n(2) False by (simp add: print_hex_def read_hex_def)
    ultimately show ?thesis using False len n(1) by (simp add: print_hex_def)
  qed
  then show ?thesis by (intro exI [of _ "print_hex v"]) (simp add: ascii_def)
qed

end
