(* ===== verification/Log_Printf.thy ===== *)
theory Log_Printf
  imports Printf
begin

text \<open>
  The HAL's logging formatter, \<^verbatim>\<open>HAL/src/alt_log_printf.c\<close>: the characters that
  \<open>alt_log_txchar\<close> puts on the log's port, in order, and the two reports that do not depend on a
  JTAG UART. It is compiled only where \<open>ALT_LOG_ENABLE\<close> is defined. Arguments are those of \<^verbatim>\<open>Printf\<close>.
\<close>

section \<open>The formatter's variables\<close>

datatype pf_state = PfState_chars | PfState_firstFmtChar | PfState_otherFmtChar

text \<open>The values \<open>fmtBase\<close> takes.\<close>

datatype fmt_base = Base8 | Base10 | Base16

primrec base_value :: "fmt_base \<Rightarrow> u32" where
  "base_value Base8 = 8"
| "base_value Base10 = 10"
| "base_value Base16 = 16"

record pf =
  pf_state :: pf_state
  fmtLeadingZero :: bool
  fmtLong :: bool
  fmtBeforeDecimal :: u32
  fmtAfterDecimal :: u32
  fmtBase :: fmt_base
  fmtSigned :: bool
  fmtCase :: bool

definition start_directive :: "pf \<Rightarrow> pf" where
  "start_directive f = f\<lparr>fmtLeadingZero := False, fmtLong := False, fmtBase := Base10, fmtSigned := True,
     fmtCase := False, fmtBeforeDecimal := -1, fmtAfterDecimal := -1, pf_state := PfState_firstFmtChar\<rparr>"

section \<open>Numbers\<close>

definition alt_log_repchar :: "u8 \<Rightarrow> u32 \<Rightarrow> u8 list" where
  "alt_log_repchar c r = replicate (nat (sint r)) c"

text \<open>The largest power of the base in the value, and the number of its digits.\<close>

function count_digits :: "fmt_base \<Rightarrow> u32 \<Rightarrow> u32 \<Rightarrow> u32 \<Rightarrow> u32 \<times> u32" where
  "count_digits b vShrink p digitCount =
     (let vShrink' = vShrink div base_value b in
      if vShrink' > 0 then count_digits b vShrink' (p * base_value b) (digitCount + 1) else (p, digitCount))"
  by pat_completeness auto

definition radix :: "fmt_base \<Rightarrow> nat" where
  "radix b = unat (base_value b)"

lemma radix_bounds: "8 \<le> radix b" "radix b \<le> 16"
  by (cases b; simp add: radix_def)+

lemma unat_div_base: "unat (v div base_value b) = unat v div radix b"
  by (simp add: radix_def unat_div)

termination count_digits
proof (relation "measure (\<lambda>(b, v, p, n). unat v)")
  fix b :: fmt_base and v v' p n :: u32
  assume "v' = v div base_value b" "v' > 0"
  moreover from this have "0 < unat v div radix b" unfolding unat_div_base [symmetric] by (simp add: unat_gt_0)
  then have "unat v div radix b < unat v" using radix_bounds(1) [of b] by (intro div_less_dividend) (auto intro: Nat.gr0I)
  ultimately show "((b, v', p * base_value b, n + 1), b, v, p, n) \<in> measure (\<lambda>(b, v, p, n). unat v)"
    by (simp add: unat_div_base)
qed simp

declare count_digits.simps [simp del]

definition digit_char :: "bool \<Rightarrow> u32 \<Rightarrow> u8" where
  "digit_char upper q =
     (let d = ucast q + ascii CHR ''0'' in
      if d > ascii CHR ''9'' then d + ((if upper then ascii CHR ''A'' else ascii CHR ''a'') - ascii CHR ''0'' - 10) else d)"

function print_places :: "fmt_base \<Rightarrow> bool \<Rightarrow> u32 \<Rightarrow> u32 \<Rightarrow> u8 list" where
  "print_places b upper v p =
     (if p \<noteq> 0 then digit_char upper (v div p) # print_places b upper (v mod p) (p div base_value b) else [])"
  by pat_completeness auto
termination
proof (relation "measure (\<lambda>(b, upper, v, p). unat p)")
  fix b :: fmt_base and upper :: bool and v p :: u32
  assume "p \<noteq> 0"
  then have "unat p div radix b < unat p" using radix_bounds(1) [of b] by (intro div_less_dividend) (auto simp: unat_gt_0)
  then show "((b, upper, v mod p, p div base_value b), b, upper, v, p) \<in> measure (\<lambda>(b, upper, v, p). unat p)"
    by (simp add: unat_div_base)
qed simp

declare print_places.simps [simp del]

definition print_number :: "pf \<Rightarrow> u32 \<Rightarrow> u8 list" where
  "print_number f a =
     (let sign = fmtSigned f \<and> a AND 0x80000000 \<noteq> 0;
          v = (if sign then NOT a + 1 else a);
          (p, digitCount) = count_digits (fmtBase f) v 1 1;
          width = fmtBeforeDecimal f - digitCount - (if sign then 1 else 0);
          minus = (if sign then [ascii CHR ''-''] else []) in
      (if fmtLeadingZero f then minus @ alt_log_repchar (ascii CHR ''0'') width
       else alt_log_repchar (ascii CHR '' '') width @ minus) @
      print_places (fmtBase f) (fmtCase f) v p)"

section \<open>The state machine\<close>

text \<open>
  One character of the format: what it prints, the formatter's variables and the arguments after
  it. What the variables other than the state hold between two directives is never read.
\<close>

definition directive :: "u8 \<Rightarrow> pf \<Rightarrow> printf_arg list \<Rightarrow> (u8 list \<times> printf_arg list) option" where
  "directive c f args =
     (let integer = (\<lambda>f. case args of ArgInt v # args' \<Rightarrow> Some (print_number f v, args') | _ \<Rightarrow> None) in
      if c = ascii CHR ''d'' \<or> c = ascii CHR ''i'' then integer f
      else if c = ascii CHR ''u'' then integer (f\<lparr>fmtSigned := False\<rparr>)
      else if c = ascii CHR ''o'' then integer (f\<lparr>fmtSigned := False, fmtBase := Base8\<rparr>)
      else if c = ascii CHR ''x'' then integer (f\<lparr>fmtSigned := False, fmtBase := Base16\<rparr>)
      else if c = ascii CHR ''X'' then integer (f\<lparr>fmtSigned := False, fmtBase := Base16, fmtCase := True\<rparr>)
      else if c = ascii CHR ''c'' then
        (case args of ArgInt v # args' \<Rightarrow> Some (alt_log_repchar (ascii CHR '' '') (fmtBeforeDecimal f - 1) @ [ucast v], args')
         | _ \<Rightarrow> None)
      else if c = ascii CHR ''s'' then
        (case args of ArgString s # args' \<Rightarrow>
           Some (alt_log_repchar (ascii CHR '' '') (fmtBeforeDecimal f - of_nat (length s)) @ s, args')
         | _ \<Rightarrow> None)
      else Some ([], args))"

definition otherFmtChar :: "u8 \<Rightarrow> pf \<Rightarrow> printf_arg list \<Rightarrow> (u8 list \<times> pf \<times> printf_arg list) option" where
  "otherFmtChar c f args =
     (if c = ascii CHR ''.'' then Some ([], f\<lparr>fmtAfterDecimal := 0\<rparr>, args)
      else if ascii CHR ''0'' \<le> c \<and> c \<le> ascii CHR ''9'' then
        (let d = ucast (c - ascii CHR ''0'') in
         if sint (fmtAfterDecimal f) < 0 then
           Some ([], f\<lparr>fmtBeforeDecimal := (if sint (fmtBeforeDecimal f) < 0 then 0 else fmtBeforeDecimal f * 10) + d\<rparr>, args)
         else Some ([], f\<lparr>fmtAfterDecimal := fmtAfterDecimal f * 10 + d\<rparr>, args))
      else if c = ascii CHR ''l'' then Some ([], f\<lparr>fmtLong := True\<rparr>, args)
      else map_option (\<lambda>(out, args'). (out, f\<lparr>pf_state := PfState_chars\<rparr>, args')) (directive c f args))"

definition pf_step :: "u8 \<Rightarrow> pf \<Rightarrow> printf_arg list \<Rightarrow> (u8 list \<times> pf \<times> printf_arg list) option" where
  "pf_step c f args =
     (case pf_state f of
        PfState_chars \<Rightarrow> if c = ascii CHR ''%'' then Some ([], start_directive f, args) else Some ([c], f, args)
      | PfState_firstFmtChar \<Rightarrow>
          if c = ascii CHR ''0'' then Some ([], f\<lparr>fmtLeadingZero := True, pf_state := PfState_otherFmtChar\<rparr>, args)
          else if c = ascii CHR ''%'' then Some ([c], f\<lparr>pf_state := PfState_chars\<rparr>, args)
          else otherFmtChar c (f\<lparr>pf_state := PfState_otherFmtChar\<rparr>) args
      | PfState_otherFmtChar \<Rightarrow> otherFmtChar c f args)"

fun pf_chars :: "pf \<Rightarrow> u8 list \<Rightarrow> printf_arg list \<Rightarrow> u8 list option" where
  "pf_chars f [] args = Some []"
| "pf_chars f (c # w) args =
     (case pf_step c f args of
        None \<Rightarrow> None
      | Some (out, f', args') \<Rightarrow> map_option ((@) out) (pf_chars f' w args'))"

definition pf_init :: pf where
  "pf_init = \<lparr>pf_state = PfState_chars, fmtLeadingZero = False, fmtLong = False, fmtBeforeDecimal = 0,
     fmtAfterDecimal = 0, fmtBase = Base10, fmtSigned = False, fmtCase = False\<rparr>"

definition alt_log_private_printf :: "u8 list \<Rightarrow> printf_arg list \<Rightarrow> u8 list option" where
  "alt_log_private_printf fmt args = pf_chars pf_init fmt args"

section \<open>The reports\<close>

definition chars :: "string \<Rightarrow> u8 list" where
  "chars s = map ascii s"

definition alt_log_write_echo_len :: nat where
  "alt_log_write_echo_len = 15"

text \<open>\<open>strncpy\<close> stops at a zero byte and fills up with zeros.\<close>

definition strncpy :: "u8 list \<Rightarrow> nat \<Rightarrow> u8 list" where
  "strncpy s n = (let t = take n (takeWhile (\<lambda>c. c \<noteq> 0) s) in t @ replicate (n - length t) 0)"

definition alt_log_write :: "u8 \<Rightarrow> u8 list \<Rightarrow> u8 list option" where
  "alt_log_write alt_log_write_on_flag bytes =
     (if alt_log_write_on_flag = 0 then Some []
      else
        let len = (if alt_log_write_echo_len > length bytes then length bytes else alt_log_write_echo_len) in
        if len < 2 then Some []
        else
          let buf = (strncpy bytes len)[len - 1 := 10] @ [13, 0];
              buf' = map (\<lambda>c. if c = 4 then ascii CHR ''D'' else c) (take len buf) @ drop len buf in
          alt_log_private_printf (chars ''Write Echo: %s'') [ArgString (takeWhile (\<lambda>c. c \<noteq> 0) buf')])"

record log_clock =
  alt_log_sys_clk_count :: int
  alt_system_clock_in_sec :: u32

text \<open>\<open>interval\<close> is \<open>ALT_LOG_SYS_CLK_INTERVAL\<close>, the ticks in a second.\<close>

definition alt_log_system_clock :: "u8 \<Rightarrow> int \<Rightarrow> log_clock \<Rightarrow> u8 list option \<times> log_clock" where
  "alt_log_system_clock alt_log_sys_clk_on_flag interval s =
     (if alt_log_sys_clk_on_flag \<noteq> 0 then
        let s = s\<lparr>alt_log_sys_clk_count := alt_log_sys_clk_count s + 1\<rparr> in
        if alt_log_sys_clk_count s > interval then
          (alt_log_private_printf (chars ''System Clock On %u'' @ [13, 10]) [ArgInt (alt_system_clock_in_sec s)],
           s\<lparr>alt_log_sys_clk_count := 0, alt_system_clock_in_sec := alt_system_clock_in_sec s + 1\<rparr>)
        else (Some [], s)
      else (Some [], s))"

section \<open>The flags\<close>

text \<open>
  The settings follow the level \<open>ALT_LOG_FLAGS\<close>, unless one is \<open>given\<close> at compile time; those of the JTAG UART
  need one in the system.
\<close>

definition setting :: "u8 option \<Rightarrow> u8 \<Rightarrow> u8" where
  "setting given otherwise = (case given of Some v \<Rightarrow> v | None \<Rightarrow> otherwise)"

definition ALT_LOG_BOOT_ON_FLAG_SETTING :: "u8 option \<Rightarrow> int \<Rightarrow> u8" where
  "ALT_LOG_BOOT_ON_FLAG_SETTING given flags = setting given
     (if flags = 1 then 1 else if flags = 2 then 1 else if flags = 3 then 1 else if flags = -1 then 0 else 1)"

definition ALT_LOG_SYS_CLK_ON_FLAG_SETTING :: "u8 option \<Rightarrow> int \<Rightarrow> u8" where
  "ALT_LOG_SYS_CLK_ON_FLAG_SETTING given flags = setting given
     (if flags = 1 then 1 else if flags = 2 then 1 else if flags = 3 then 1 else if flags = -1 then 0 else 0)"

definition ALT_LOG_WRITE_ON_FLAG_SETTING :: "u8 option \<Rightarrow> int \<Rightarrow> u8" where
  "ALT_LOG_WRITE_ON_FLAG_SETTING given flags = setting given
     (if flags = 1 then 0 else if flags = 2 then 1 else if flags = 3 then 1 else if flags = -1 then 0 else 0)"

definition ALT_LOG_JTAG_UART_ALARM_ON_FLAG_SETTING :: "u8 option \<Rightarrow> bool \<Rightarrow> int \<Rightarrow> u8" where
  "ALT_LOG_JTAG_UART_ALARM_ON_FLAG_SETTING given jtag flags = setting given
     (if \<not> jtag then 0 else if flags = 1 then 0 else if flags = 2 then 1 else if flags = 3 then 1
      else if flags = -1 then 0 else 0)"

definition ALT_LOG_JTAG_UART_STARTUP_INFO_ON_FLAG_SETTING :: "u8 option \<Rightarrow> bool \<Rightarrow> int \<Rightarrow> u8" where
  "ALT_LOG_JTAG_UART_STARTUP_INFO_ON_FLAG_SETTING given jtag flags = setting given
     (if \<not> jtag then 0 else if flags = 1 then 1 else if flags = 2 then 1 else if flags = 3 then 1
      else if flags = -1 then 0 else 0)"

definition ALT_LOG_JTAG_UART_ISR_ON_FLAG_SETTING :: "u8 option \<Rightarrow> bool \<Rightarrow> int \<Rightarrow> u8" where
  "ALT_LOG_JTAG_UART_ISR_ON_FLAG_SETTING given jtag flags = setting given
     (if \<not> jtag then 0 else if flags = 1 then 0 else if flags = 2 then 0 else if flags = 3 then 1
      else if flags = -1 then 0 else 0)"

definition log_settings :: "bool \<Rightarrow> int \<Rightarrow> u8 list" where
  "log_settings jtag flags =
     [ALT_LOG_BOOT_ON_FLAG_SETTING None flags, ALT_LOG_SYS_CLK_ON_FLAG_SETTING None flags,
      ALT_LOG_WRITE_ON_FLAG_SETTING None flags, ALT_LOG_JTAG_UART_ALARM_ON_FLAG_SETTING None jtag flags,
      ALT_LOG_JTAG_UART_STARTUP_INFO_ON_FLAG_SETTING None jtag flags, ALT_LOG_JTAG_UART_ISR_ON_FLAG_SETTING None jtag flags]"

lemmas log_setting_defs = log_settings_def setting_def ALT_LOG_BOOT_ON_FLAG_SETTING_def ALT_LOG_SYS_CLK_ON_FLAG_SETTING_def
  ALT_LOG_WRITE_ON_FLAG_SETTING_def ALT_LOG_JTAG_UART_ALARM_ON_FLAG_SETTING_def
  ALT_LOG_JTAG_UART_STARTUP_INFO_ON_FLAG_SETTING_def ALT_LOG_JTAG_UART_ISR_ON_FLAG_SETTING_def

text \<open>A higher level turns nothing off, and level -1 is silent.\<close>

lemma log_levels: "0 \<le> m \<Longrightarrow> m \<le> n \<Longrightarrow> n \<le> 3 \<Longrightarrow> list_all2 (\<le>) (log_settings jtag m) (log_settings jtag n)"
  by (auto simp: log_setting_defs)

lemma log_silent: "log_settings jtag (-1) = replicate 6 0"
  by (simp add: log_setting_defs numeral_eq_Suc)

end
