(* ===== verification/Log_Numbers.thy ===== *)
theory Log_Numbers
  imports Log_Printf
begin

text \<open>
  The numbers the logging formatter prints: the digits of the value without leading zeros, so that
  the formatter agrees with \<^verbatim>\<open>alt_printf.c\<close> and what it prints reads back.
\<close>

section \<open>Digits\<close>

primrec places :: "nat \<Rightarrow> nat \<Rightarrow> nat \<Rightarrow> nat list" where
  "places B x 0 = [x mod B]"
| "places B x (Suc k) = x div B ^ Suc k mod B # places B x k"

lemma length_places [simp]: "length (places B x k) = Suc k"
  by (induction k) simp_all

lemma places_bound: "0 < B \<Longrightarrow> \<forall>d \<in> set (places B x k). d < B"
  by (induction k) simp_all

lemma place_mod: "j < m \<Longrightarrow> x mod B ^ m div B ^ j mod B = x div B ^ j mod (B :: nat)"
proof -
  assume "j < m"
  then obtain i where m: "m = j + Suc i" using less_imp_Suc_add by (metis add_Suc_right)
  have "x mod B ^ m div B ^ j = x div B ^ j mod B ^ Suc i"
  proof (cases "B = 0")
    case False
    have "x mod B ^ m = B ^ j * (x div B ^ j mod B ^ Suc i) + x mod B ^ j"
      unfolding m power_add by (rule mod_mult2_eq)
    then show ?thesis using False by (simp del: power_Suc)
  qed (simp add: m)
  then show ?thesis by (simp add: mod_mult2_eq)
qed

lemma places_mod: "k < m \<Longrightarrow> places B (x mod B ^ m) k = places B x k"
proof (induction k)
  case 0
  then show ?case using place_mod [of 0 m x B] by simp
next
  case (Suc k)
  then show ?case using place_mod [of "Suc k" m x B] by simp
qed

lemma read_places: "foldl (\<lambda>n d. B * n + d) a (places B x k) = a * B ^ Suc k + x mod B ^ Suc k"
proof (induction k arbitrary: a)
  case 0 then show ?case by simp
next
  case (Suc k)
  have "x mod B ^ Suc (Suc k) = B ^ Suc k * (x div B ^ Suc k mod B) + x mod B ^ Suc k"
    using mod_mult2_eq [of x "B ^ Suc k" B] by (simp add: mult.commute)
  with Suc show ?case by (simp add: algebra_simps)
qed

text \<open>The place of the first digit of a number.\<close>

definition top :: "nat \<Rightarrow> nat \<Rightarrow> nat \<Rightarrow> bool" where
  "top B x k \<longleftrightarrow> x < B ^ Suc k \<and> (k = 0 \<or> B ^ k \<le> x)"

lemma top_unique:
  assumes "1 < B" "top B x k" "top B x k'" shows "k = k'"
proof -
  have "\<not> i < j" if "top B x i" "top B x j" for i j
  proof
    assume "i < j"
    then have "B ^ Suc i \<le> B ^ j" using assms(1) by (intro power_increasing) simp_all
    then show False using that \<open>i < j\<close> by (auto simp: top_def)
  qed
  then show ?thesis using assms(2,3) by (metis linorder_neqE_nat)
qed

section \<open>The two loops\<close>

lemma count_digits_top:
  "\<exists>k. top (radix b) (unat v) k \<and> count_digits b v p n = (p * of_nat (radix b ^ k), n + of_nat k)"
proof (induction b v p n rule: count_digits.induct)
  case (1 b v p n)
  let ?v = "v div base_value b"
  have v: "unat ?v = unat v div radix b" by (rule unat_div_base)
  have B: "0 < radix b" using radix_bounds(1) [of b] by linarith
  show ?case
  proof (cases "0 < ?v")
    case True
    then obtain k where k: "top (radix b) (unat ?v) k"
        "count_digits b ?v (p * base_value b) (n + 1) = (p * base_value b * of_nat (radix b ^ k), n + 1 + of_nat k)"
      using 1 by blast
    have "1 \<le> unat ?v" using True by (simp add: unat_gt_0 Suc_le_eq)
    then have "radix b ^ k \<le> unat v div radix b" using k(1) v by (cases k) (auto simp: top_def)
    then have "radix b ^ Suc k \<le> unat v" using B by (simp add: less_eq_div_iff_mult_less_eq mult.commute)
    moreover have "unat v < radix b ^ Suc (Suc k)"
      using k(1) B unfolding top_def v by (simp add: div_less_iff_less_mult mult.commute)
    ultimately have "top (radix b) (unat v) (Suc k)" by (simp add: top_def)
    moreover have "(of_nat (radix b) :: u32) = base_value b" by (simp add: radix_def)
    ultimately show ?thesis
      using True k(2) by (intro exI [of _ "Suc k"]) (subst count_digits.simps, simp add: algebra_simps)
  next
    case False
    then have "unat v div radix b = 0" unfolding v [symmetric] by (simp add: word_gt_0)
    then have "top (radix b) (unat v) 0" using B by (simp add: top_def div_eq_0_iff)
    with False show ?thesis by (intro exI [of _ 0]) (subst count_digits.simps, simp)
  qed
qed

lemma eq_of_nat: "unat w = n \<Longrightarrow> (w :: u32) = of_nat n"
  by auto

lemma print_places_digits:
  "unat v < radix b ^ Suc k \<Longrightarrow> radix b ^ k < 2 ^ 32 \<Longrightarrow>
   print_places b upper v (of_nat (radix b ^ k)) = map (digit_char upper \<circ> of_nat) (places (radix b) (unat v) k)"
proof (induction k arbitrary: v)
  case 0
  have "print_places b upper v 1 = [digit_char upper v]"
    by (cases b) (simp_all add: print_places.simps [of _ upper v 1] print_places.simps [of _ upper _ 0])
  with 0 show ?case by simp
next
  case (Suc k)
  let ?B = "radix b" let ?p = "of_nat (?B ^ Suc k) :: u32"
  have B: "1 < ?B" using radix_bounds(1) [of b] by linarith
  have p: "unat ?p = ?B ^ Suc k" using Suc.prems(2) by (simp only: unat_of_nat) simp
  then have "?p \<noteq> 0" using B by (metis power_eq_0_iff unat_0 not_one_less_zero)
  moreover have "?p div base_value b = of_nat (?B ^ k)"
  proof -
    have "unat (?p div base_value b) = ?B ^ k" unfolding unat_div_base p using B by simp
    then show ?thesis by (rule eq_of_nat)
  qed
  moreover have "print_places b upper (v mod ?p) (of_nat (?B ^ k)) =
      map (digit_char upper \<circ> of_nat) (places ?B (unat v) k)"
  proof -
    have m: "unat (v mod ?p) = unat v mod ?B ^ Suc k" by (simp only: unat_mod p)
    have "?B ^ k < 2 ^ 32" using Suc.prems(2) B by (simp add: order_le_less_trans [rotated])
    moreover have "unat (v mod ?p) < ?B ^ Suc k" unfolding m using B by simp
    ultimately show ?thesis using Suc.IH [of "v mod ?p"] places_mod [of k "Suc k" ?B "unat v"] by (simp only: m)
  qed
  moreover have "v div ?p = of_nat (unat v div ?B ^ Suc k mod ?B)"
  proof -
    have "unat v div ?B ^ Suc k < ?B" using Suc.prems(1) B by (simp add: div_less_iff_less_mult)
    moreover have "unat (v div ?p) = unat v div ?B ^ Suc k" by (simp only: unat_div p)
    ultimately show ?thesis by (simp add: eq_of_nat)
  qed
  ultimately show ?case by (subst print_places.simps) simp
qed

section \<open>Numbers without a width\<close>

lemma no_padding: "\<forall>k \<in> set [0..<12]. sint (- 1 - (1 + of_nat k) - (0 :: u32)) \<le> 0 \<and> sint (- 1 - (1 + of_nat k) - (1 :: u32)) \<le> 0"
  by (simp add: upt_rec)

lemma top_bound:
  assumes "top (radix b) (unat (v :: u32)) k" shows "k < 12" "radix b ^ k < 2 ^ 32"
proof -
  have v: "unat v < 2 ^ 32" using unsigned_less [of v, where 'a = nat] by simp
  show r: "radix b ^ k < 2 ^ 32" using assms v by (cases k) (auto simp: top_def)
  have "(8 :: nat) ^ k \<le> radix b ^ k" using radix_bounds(1) by (simp add: power_mono)
  then have "(8 :: nat) ^ k < 8 ^ 12" using r by (rule order_le_less_trans [OF _ order_less_trans]) simp
  then show "k < 12" by (rule power_less_imp_less_exp [rotated]) simp
qed

lemma print_number_bare:
  fixes f :: pf and a :: u32
  assumes "fmtBeforeDecimal f = -1"
  defines "sign \<equiv> fmtSigned f \<and> a AND 0x80000000 \<noteq> 0"
  defines "v \<equiv> (if sign then NOT a + 1 else a)"
  shows "\<exists>k. top (radix (fmtBase f)) (unat v) k \<and>
    print_number f a = (if sign then [ascii CHR ''-''] else []) @
      map (digit_char (fmtCase f) \<circ> of_nat) (places (radix (fmtBase f)) (unat v) k)"
proof -
  obtain k where k: "top (radix (fmtBase f)) (unat v) k"
      "count_digits (fmtBase f) v 1 1 = (1 * of_nat (radix (fmtBase f) ^ k), 1 + of_nat k)"
    using count_digits_top by blast
  have "sint (-1 - (1 + of_nat k) - (if sign then 1 else 0) :: u32) \<le> 0"
    using no_padding top_bound(1) [OF k(1)] by (cases sign) (simp_all del: upt_conv_Cons_Cons upt.simps)
  then have pad: "alt_log_repchar c (fmtBeforeDecimal f - (1 + of_nat k) - (if sign then 1 else 0)) = []" for c
    by (simp add: alt_log_repchar_def assms(1))
  have digits: "print_places (fmtBase f) (fmtCase f) v (of_nat (radix (fmtBase f) ^ k)) =
      map (digit_char (fmtCase f) \<circ> of_nat) (places (radix (fmtBase f)) (unat v) k)"
    using k(1) top_bound(2) [OF k(1)] by (intro print_places_digits) (simp_all add: top_def)
  have "print_number f a = (if sign then [ascii CHR ''-''] else []) @
      map (digit_char (fmtCase f) \<circ> of_nat) (places (radix (fmtBase f)) (unat v) k)"
    unfolding print_number_def Let_def sign_def [symmetric] v_def [symmetric] k(2) mult_1 prod.case pad digits by simp
  then show ?thesis using k(1) by blast
qed

section \<open>Agreement with the small formatter\<close>

lemma hex_digit_chars: "\<forall>n \<in> set [0..<16]. digit_char False (of_nat n) = hex_char (of_nat n)"
  by code_simp

lemma print_digits_places: "n \<le> 7 \<Longrightarrow> print_digits v n = map (hex_char \<circ> of_nat) (places 16 (unat v) n)"
proof (induction n)
  case 0
  have "hex_bits v 0 = of_nat (unat v mod 16)" using digit_value(1) [of 0 v] by (simp add: eq_of_nat)
  then show ?case by simp
next
  case (Suc n)
  have "drop_bit (4 * Suc n) (hex_bits v (4 * Suc n)) = of_nat (unat v div 16 ^ Suc n mod 16)"
    using digit_value(1) [OF Suc.prems] by (rule eq_of_nat)
  then show ?case using Suc by simp
qed

lemma print_hex_places: "\<exists>k. top 16 (unat v) k \<and> print_hex v = map (hex_char \<circ> of_nat) (places 16 (unat v) k)"
proof (cases "v = 0")
  case True
  then show ?thesis by (intro exI [of _ 0]) (simp add: top_def print_hex_def hex_char_def)
next
  case False
  let ?n = "first_digit v 7"
  have "unat v < 16 ^ Suc 7" using unsigned_less [of v, where 'a = nat] by simp
  from first_digit_bound [OF _ this False] have n: "?n \<le> 7" "unat v < 16 ^ Suc ?n" "unat v div 16 ^ ?n mod 16 \<noteq> 0"
    by simp_all
  have "16 ^ ?n \<le> unat v" using n(3) by (metis div_less mod_0 not_le)
  then show ?thesis using n False print_digits_places [OF n(1)] by (intro exI [of _ ?n]) (simp add: top_def print_hex_def)
qed

lemma print_number_hex:
  assumes "fmtBeforeDecimal f = -1" "\<not> fmtSigned f" "fmtBase f = Base16" "\<not> fmtCase f"
  shows "print_number f v = print_hex v"
proof -
  obtain k where k: "top 16 (unat v) k" "print_number f v = map (digit_char False \<circ> of_nat) (places 16 (unat v) k)"
    using print_number_bare [OF assms(1), of v] assms(2-4) by (auto simp: radix_def)
  obtain k' where k': "top 16 (unat v) k'" "print_hex v = map (hex_char \<circ> of_nat) (places 16 (unat v) k')"
    using print_hex_places by blast
  have "k' = k" using top_unique k(1) k'(1) by (metis one_less_numeral_iff semiring_norm(76))
  moreover have "map (digit_char False \<circ> of_nat) (places 16 (unat v) k) = map (hex_char \<circ> of_nat) (places 16 (unat v) k)"
    using places_bound [of 16 "unat v" k] hex_digit_chars by (intro map_cong) (simp_all del: upt_conv_Cons_Cons upt.simps)
  ultimately show ?thesis using k(2) k'(2) by simp
qed

end
