(* ===== verification/Log_Format.thy ===== *)
theory Log_Format
  imports Log_Numbers
begin

text \<open>
  What the logging formatter promises: it prints what the small formatter prints wherever both
  know the conversions, its decimal numbers read back, and the echo of a write is its start.
\<close>

section \<open>Agreement with the small formatter\<close>

definition short :: "printf_arg list \<Rightarrow> bool" where
  "short args = list_all (\<lambda>a. case a of ArgInt v \<Rightarrow> True | ArgString s \<Rightarrow> length s < 2 ^ 31) args"

fun plain :: "u8 list \<Rightarrow> bool" where
  "plain [] = True"
| "plain [c] = True"
| "plain (c # d # w) =
     (if c = ascii CHR ''%'' then d \<in> {ascii CHR ''%'', ascii CHR ''c'', ascii CHR ''x'', ascii CHR ''s''} \<and> plain w
      else plain (d # w))"

lemma no_string_padding: "n < 2 ^ 31 \<Longrightarrow> alt_log_repchar c (-1 - of_nat n) = []"
proof -
  assume n: "n < 2 ^ 31"
  have "(-1 - of_nat n :: u32) = of_int (-1 - int n)" by simp
  then have "sint (-1 - of_nat n :: u32) = signed_take_bit 31 (-1 - int n)" by (simp only: signed_of_int) simp
  also have "\<dots> = -1 - int n" using n by (intro signed_take_bit_int_eq_self) auto
  finally show ?thesis by (simp add: alt_log_repchar_def)
qed

lemma ascii_values [simp]:
  "ascii CHR ''%'' = 37" "ascii CHR ''0'' = 48" "ascii CHR ''9'' = 57" "ascii CHR ''.'' = 46" "ascii CHR ''l'' = 108"
  "ascii CHR ''c'' = 99" "ascii CHR ''d'' = 100" "ascii CHR ''i'' = 105" "ascii CHR ''o'' = 111" "ascii CHR ''s'' = 115"
  "ascii CHR ''u'' = 117" "ascii CHR ''x'' = 120" "ascii CHR ''X'' = 88" "ascii CHR ''-'' = 45" "ascii CHR ''a'' = 97"
  "ascii CHR ''A'' = 65" "ascii CHR ''D'' = 68"
  by (simp_all add: ascii_def)

text \<open>The steps from the state that prints, and a conversion without flags or width.\<close>

lemma pf_ordinary:
  "pf_state f = PfState_chars \<Longrightarrow> c \<noteq> 37 \<Longrightarrow> pf_chars f (c # w) args = map_option ((#) c) (pf_chars f w args)"
  by (cases "pf_chars f w args") (simp_all add: pf_step_def)

lemma pf_percent: "pf_state f = PfState_chars \<Longrightarrow> pf_chars f (37 # w) args = pf_chars (start_directive f) w args"
  by (cases "pf_chars (start_directive f) w args") (simp_all add: pf_step_def)

lemma pf_conversion:
  assumes "pf_state f = PfState_firstFmtChar" "d = 99 \<or> d = 100 \<or> d = 115 \<or> d = 120"
  shows "pf_chars f (d # w) args =
    (case directive d (f\<lparr>pf_state := PfState_otherFmtChar\<rparr>) args of None \<Rightarrow> None
     | Some (out, args') \<Rightarrow> map_option ((@) out) (pf_chars (f\<lparr>pf_state := PfState_chars\<rparr>) w args'))"
proof -
  have "pf_step d f args = map_option (\<lambda>(out, args'). (out, f\<lparr>pf_state := PfState_chars\<rparr>, args'))
      (directive d (f\<lparr>pf_state := PfState_otherFmtChar\<rparr>) args)"
    using assms by (elim disjE) (simp_all add: pf_step_def otherFmtChar_def)
  then show ?thesis by (simp split: option.split)
qed

lemma pf_directive:
  assumes "pf_state f = PfState_chars" "d = 99 \<or> d = 100 \<or> d = 115 \<or> d = 120"
  defines "g \<equiv> start_directive f"
  shows "pf_chars f (37 # d # w) args =
    (case directive d (g\<lparr>pf_state := PfState_otherFmtChar\<rparr>) args of None \<Rightarrow> None
     | Some (out, args') \<Rightarrow> map_option ((@) out) (pf_chars (g\<lparr>pf_state := PfState_chars\<rparr>) w args'))"
  using pf_percent [OF assms(1)] pf_conversion [OF _ assms(2), of g] by (simp add: g_def start_directive_def del: pf_chars.simps)

lemma started:
  "fmtBeforeDecimal (start_directive f) = -1" "fmtCase (start_directive f) = False"
  "fmtSigned (start_directive f) = True" "fmtBase (start_directive f) = Base10"
  by (simp_all add: start_directive_def)

lemma bare_directive:
  assumes "g = start_directive f\<lparr>pf_state := st\<rparr>"
  shows "directive 99 g [] = None" "directive 115 g [] = None" "directive 120 g [] = None"
    "directive 99 g (ArgString s # args) = None" "directive 120 g (ArgString s # args) = None"
    "directive 115 g (ArgInt v # args) = None"
    "directive 99 g (ArgInt v # args) = Some ([ucast v], args)"
    "directive 120 g (ArgInt v # args) = Some (print_hex v, args)"
    "length s < 2 ^ 31 \<Longrightarrow> directive 115 g (ArgString s # args) = Some (s, args)"
  by (simp_all add: directive_def assms started print_number_hex no_string_padding, simp add: alt_log_repchar_def)

lemma pf_chars_plain:
  "pf_state f = PfState_chars \<Longrightarrow> plain w \<Longrightarrow> short args \<Longrightarrow> pf_chars f w args = alt_printf w args"
proof (induction w arbitrary: f args rule: plain.induct)
  case 1
  then show ?case by simp
next
  case (2 c)
  then show ?case by (simp add: pf_step_def)
next
  case (3 c d w)
  let ?f = "start_directive f\<lparr>pf_state := PfState_chars\<rparr>"
  show ?case
  proof (cases "c = 37")
    case False
    then show ?thesis using "3.IH"(2) [of f] "3.prems" by (simp add: pf_ordinary del: pf_chars.simps)
  next
    case True
    then have w: "plain w" and d: "d = 37 \<or> d = 99 \<or> d = 115 \<or> d = 120" using "3.prems"(2) by auto
    have IH: "pf_chars ?f w as = alt_printf w as" if "short as" for as
      using "3.IH"(1) [of ?f as] True d w that by auto
    show ?thesis
    proof (cases "d = 37")
      case percent: True
      have "pf_step d (start_directive f) args = Some ([d], ?f, args)"
        using percent by (simp add: pf_step_def start_directive_def)
      then show ?thesis using True percent pf_percent [OF "3.prems"(1)] IH [OF "3.prems"(3)]
        by (cases "alt_printf w args") simp_all
    next
      case False
      note run = pf_directive [OF "3.prems"(1)] and g = bare_directive [OF refl, where f = f and st = PfState_otherFmtChar]
      show ?thesis
      proof (cases args)
        case Nil
        then show ?thesis using True d False by (elim disjE) (simp_all add: run g del: pf_chars.simps)
      next
        case (Cons a as)
        then have as: "short as" "\<And>s. a = ArgString s \<Longrightarrow> length s < 2 ^ 31"
          using "3.prems"(3) by (auto simp: short_def)
        show ?thesis using True d False Cons as(2) IH [OF as(1)]
          by (cases "alt_printf w as"; cases a; elim disjE) (simp_all add: run g alt_putchar_def del: pf_chars.simps)
      qed
    qed
  qed
qed

lemma log_printf_plain:
  "plain fmt \<Longrightarrow> short args \<Longrightarrow> alt_log_private_printf fmt args = alt_printf fmt args"
  by (simp add: alt_log_private_printf_def pf_chars_plain pf_init_def)

text \<open>
  C39: On formats whose conversions are \<open>%c\<close>, \<open>%s\<close>, \<open>%x\<close> and \<open>%%\<close> without flags or widths, the logging
  formatter prints exactly what the small formatter prints, and like it prints nothing defined when
  an argument is missing or of another type. Its numbers come from dividing by powers of the base,
  the other's from masking four bits at a time.
\<close>

theorem log_printf_agrees:
  assumes "plain fmt" "short args"
  shows "alt_log_private_printf fmt args = alt_printf fmt args"
  using assms by (rule log_printf_plain)

lemma log_printf_agrees_witness:
  "alt_log_private_printf (chars ''id %x, %s%%'') [ArgInt 0xBEEF, ArgString (chars ''on'')] = Some (chars ''id beef, on%'')"
proof -
  have "alt_printf (chars ''id %x, %s%%'') [ArgInt 0xBEEF, ArgString (chars ''on'')] = Some (chars ''id beef, on%'')"
    by code_simp
  moreover have "plain (chars ''id %x, %s%%'')" "short [ArgInt 0xBEEF, ArgString (chars ''on'')]"
    by (simp_all add: chars_def short_def ascii_def)
  ultimately show ?thesis using log_printf_agrees by simp
qed

section \<open>Decimal numbers read back\<close>

definition read_decimal :: "u8 list \<Rightarrow> nat" where
  "read_decimal = foldl (\<lambda>n c. 10 * n + unat (c - ascii CHR ''0'')) 0"

fun read_int :: "u8 list \<Rightarrow> int" where
  "read_int [] = 0"
| "read_int (c # cs) = (if c = ascii CHR ''-'' then - int (read_decimal cs) else int (read_decimal (c # cs)))"

lemma read_int_signed:
  "hd ds \<noteq> 45 \<and> ds \<noteq> [] \<Longrightarrow>
   read_int ((if neg then [45] else []) @ ds) = (if neg then - int (read_decimal ds) else int (read_decimal ds))"
  by (cases ds) simp_all

lemma decimal_chars: "\<forall>n \<in> set [0..<10]. unat (digit_char up (of_nat n) - 48) = n \<and> digit_char up (of_nat n) \<noteq> 45"
  by (simp add: upt_rec digit_char_def)

lemma decimal_char:
  "n < 10 \<Longrightarrow> unat (digit_char up (of_nat n) - 48) = n" "n < 10 \<Longrightarrow> digit_char up (of_nat n) \<noteq> 45"
  using decimal_chars [of up] by (simp_all del: upt_conv_Cons_Cons upt.simps)

lemma read_decimal_places:
  assumes "top 10 x k" shows "read_decimal (map (digit_char up \<circ> of_nat) (places 10 x k)) = x"
proof -
  have "foldl (\<lambda>n c. 10 * n + unat (c - 48)) a (map (digit_char up \<circ> of_nat) ds) = foldl (\<lambda>n d. 10 * n + d) a ds"
    if "\<forall>d \<in> set ds. d < 10" for a ds
    using that by (induction ds arbitrary: a) (simp_all add: decimal_char)
  then have "read_decimal (map (digit_char up \<circ> of_nat) (places 10 x k)) = x mod 10 ^ Suc k"
    using places_bound [of 10 x k] read_places [of 10 0 x k] by (simp add: read_decimal_def del: foldl_map)
  then show ?thesis using assms by (simp add: top_def)
qed

lemma sign_bit: "(a :: u32) AND 0x80000000 \<noteq> 0 \<longleftrightarrow> sint a < 0"
proof -
  have "a AND 0x80000000 \<noteq> 0 \<longleftrightarrow> bit a 31" using and_exp_eq_0_iff_not_bit [of a 31] by simp
  also have "\<dots> \<longleftrightarrow> sint a < 0" using bit_last_iff [of a] by simp
  finally show ?thesis .
qed

lemma magnitude: "int (unat (if sint a < 0 then NOT a + 1 else (a :: u32))) = \<bar>sint a\<bar>"
proof -
  have b: "- (2 ^ 31) \<le> sint a" "sint a < 2 ^ 31" using sint_greater_eq [of a] sint_less [of a] by simp_all
  have "NOT a + 1 = word_of_int (- sint a)" by (simp add: not_eq_complement)
  then have "(if sint a < 0 then NOT a + 1 else a) = word_of_int \<bar>sint a\<bar>" by simp
  moreover have "uint (word_of_int \<bar>sint a\<bar> :: u32) = \<bar>sint a\<bar>"
    using b by (simp add: uint_word_of_int_eq take_bit_int_eq_self)
  ultimately show ?thesis by simp
qed

text \<open>
  C40: The conversion \<open>%d\<close> prints any 32-bit integer, the most negative included, as a decimal
  number of at most ten digits and a sign, which reads back as the argument.
\<close>

theorem log_decimal_reads_back:
  "\<exists>ds. alt_log_private_printf [ascii CHR ''%'', ascii CHR ''d''] [ArgInt a] = Some ds \<and>
     read_int ds = sint a \<and> length ds \<le> 11"
proof -
  let ?f = "start_directive pf_init\<lparr>pf_state := PfState_otherFmtChar\<rparr>"
  let ?v = "if sint a < 0 then NOT a + 1 else a"
  obtain k where k: "top 10 (unat ?v) k" and n: "print_number ?f a = (if sint a < 0 then [45] else []) @
      map (digit_char False \<circ> of_nat) (places 10 (unat ?v) k)"
    using print_number_bare [of ?f a] by (auto simp: started radix_def sign_bit)
  have len: "k < 10"
  proof -
    have "radix Base10 ^ k < 2 ^ 32" using k by (intro top_bound(2)) (simp add: radix_def)
    then have "(10 :: nat) ^ k < 10 ^ 10" by (simp add: radix_def)
    then show ?thesis by (rule power_less_imp_less_exp [rotated]) simp
  qed
  let ?ds = "map (digit_char False \<circ> of_nat) (places 10 (unat ?v) k)"
  have "hd ?ds \<noteq> 45 \<and> ?ds \<noteq> []" using decimal_char(2) by (cases k) simp_all
  then have "read_int (print_number ?f a) = (if sint a < 0 then - int (read_decimal ?ds) else int (read_decimal ?ds))"
    unfolding n by (rule read_int_signed)
  also have "\<dots> = sint a" using read_decimal_places [OF k] magnitude [of a] by (simp split: if_splits)
  finally have "read_int (print_number ?f a) = sint a" .
  moreover have "length (print_number ?f a) \<le> 11" unfolding n using len by simp
  moreover have "alt_log_private_printf [37, 100] [ArgInt a] = Some (print_number ?f a)"
    unfolding alt_log_private_printf_def
    by (subst pf_directive) (simp_all add: directive_def pf_init_def)
  ultimately show ?thesis by simp
qed

section \<open>The reports\<close>

definition escape :: "u8 \<Rightarrow> u8" where
  "escape c = (if c = 4 then ascii CHR ''D'' else c)"

lemma takeWhile_nonzero: "0 \<notin> set s \<Longrightarrow> takeWhile (\<lambda>c. c \<noteq> 0) (s @ 0 # t) = (s :: u8 list)"
  by (subst takeWhile_append2) auto

lemma strncpy_nonzero: "0 \<notin> set s \<Longrightarrow> n \<le> length s \<Longrightarrow> strncpy s n = take n s"
proof -
  assume s: "0 \<notin> set s" "n \<le> length s"
  then have all: "takeWhile (\<lambda>c. c \<noteq> 0) s = s" by (subst takeWhile_eq_all_conv) auto
  show ?thesis unfolding strncpy_def all Let_def using s by simp
qed

lemma print_string:
  assumes "length s < 2 ^ 31"
  shows "alt_log_private_printf (chars ''Write Echo: %s'') [ArgString s] = Some (chars ''Write Echo: '' @ s)"
  using assms by (subst log_printf_plain) (simp_all add: chars_def short_def ascii_def)

text \<open>
  The echo of a write without zero bytes is one character shorter than the macro's name says: the
  newline takes the place of the last one.
\<close>

lemma write_echo:
  assumes "flag \<noteq> 0" "2 \<le> length bytes" "0 \<notin> set bytes"
  defines "n \<equiv> min alt_log_write_echo_len (length bytes)"
  shows "alt_log_write flag bytes = Some (chars ''Write Echo: '' @ map escape (take (n - 1) bytes) @ [10, 13])"
proof -
  have n: "2 \<le> n" "n \<le> length bytes" "n \<le> 15" using assms by (auto simp: alt_log_write_echo_len_def)
  let ?buf = "(take n bytes)[n - 1 := 10] @ [13, 0]"
  let ?copy = "map escape (take n ?buf) @ drop n ?buf"
  have upd: "(take n bytes)[n - 1 := 10] = take (n - 1) bytes @ [10]"
    using n by (simp add: list_update_beyond upd_conv_take_nth_drop min_def)
  have "take n ?buf = take (n - 1) bytes @ [10]" "drop n ?buf = [13, 0]" using n upd by simp_all
  then have copy: "?copy = (map escape (take (n - 1) bytes) @ [10, 13]) @ [0]"
    by (simp add: escape_def)
  have "0 \<notin> set (map escape (take (n - 1) bytes) @ [10, 13])"
    using assms(3) in_set_takeD [of 0 "n - 1" bytes] by (auto simp: escape_def split: if_splits)
  then have "takeWhile (\<lambda>c. c \<noteq> 0) ?copy = map escape (take (n - 1) bytes) @ [10, 13]"
    unfolding copy by (rule takeWhile_nonzero)
  moreover have "alt_log_write flag bytes =
      alt_log_private_printf (chars ''Write Echo: %s'') [ArgString (takeWhile (\<lambda>c. c \<noteq> 0) ?copy)]"
  proof -
    have len: "(if alt_log_write_echo_len > length bytes then length bytes else alt_log_write_echo_len) = n"
      by (simp add: n_def)
    have esc: "(\<lambda>c. if c = 4 then ascii CHR ''D'' else c) = escape" by (simp add: escape_def fun_eq_iff)
    show ?thesis
      using assms(1) n(1)
      unfolding alt_log_write_def Let_def len esc strncpy_nonzero [OF assms(3) n(2)] by (simp only: if_False not_less [symmetric])
  qed
  ultimately show ?thesis using print_string n by simp
qed

text \<open>The heartbeat is silent while its counter is below the interval and speaks at the tick after.\<close>

lemma clock_silent:
  "flag \<noteq> 0 \<Longrightarrow> alt_log_sys_clk_count s < interval \<Longrightarrow>
   alt_log_system_clock flag interval s = (Some [], s\<lparr>alt_log_sys_clk_count := alt_log_sys_clk_count s + 1\<rparr>)"
  by (simp add: alt_log_system_clock_def)

lemma clock_period:
  "flag \<noteq> 0 \<Longrightarrow> alt_log_sys_clk_count s = 0 \<Longrightarrow> 
   alt_log_system_clock flag (int n) (((\<lambda>s. snd (alt_log_system_clock flag (int n) s)) ^^ n) s) =
   (alt_log_private_printf (chars ''System Clock On %u'' @ [13, 10]) [ArgInt (alt_system_clock_in_sec s)],
    s\<lparr>alt_log_sys_clk_count := 0, alt_system_clock_in_sec := alt_system_clock_in_sec s + 1\<rparr>)"
proof -
  assume flag: "flag \<noteq> 0" and start: "alt_log_sys_clk_count s = 0"
  have "((\<lambda>s. snd (alt_log_system_clock flag (int n) s)) ^^ i) s = s\<lparr>alt_log_sys_clk_count := int i\<rparr>" if "i \<le> n" for i
    using that by (induction i) (simp_all add: clock_silent flag start)
  then show ?thesis using flag by (simp add: alt_log_system_clock_def)
qed

end
