(* ===== verification/Exceptions.thy ===== *)
theory Exceptions
  imports Irq_Calls
begin

text \<open>
  Exceptions, \<^verbatim>\<open>HAL/src/alt_exception_entry.S\<close>, \<^verbatim>\<open>alt_irq_entry.S\<close>,
  \<^verbatim>\<open>alt_instruction_exception_entry.c\<close>, \<^verbatim>\<open>alt_instruction_exception_register.c\<close> and
  \<^verbatim>\<open>HAL/inc/sys/alt_exceptions.h\<close>: the test for an interrupt, the call of the handler registered for
  instruction exceptions, and the address at which the program goes on. This build has the
  interface for instruction exceptions, no registers with their cause, and a debug stub. The
  emulation of multiplications and divisions, which comes between the two, is left out: what is
  modelled is an instruction that it passes on.
\<close>

section \<open>Causes and results\<close>

datatype alt_exception_cause =
    NIOS2_EXCEPTION_CAUSE_NOT_PRESENT
  | NIOS2_EXCEPTION_RESET
  | NIOS2_EXCEPTION_CPU_ONLY_RESET_REQUEST
  | NIOS2_EXCEPTION_INTERRUPT
  | NIOS2_EXCEPTION_TRAP_INST
  | NIOS2_EXCEPTION_UNIMPLEMENTED_INST
  | NIOS2_EXCEPTION_ILLEGAL_INST
  | NIOS2_EXCEPTION_MISALIGNED_DATA_ADDR
  | NIOS2_EXCEPTION_MISALIGNED_TARGET_PC
  | NIOS2_EXCEPTION_DIVISION_ERROR
  | NIOS2_EXCEPTION_SUPERVISOR_ONLY_INST_ADDR
  | NIOS2_EXCEPTION_SUPERVISOR_ONLY_INST
  | NIOS2_EXCEPTION_SUPERVISOR_ONLY_DATA_ADDR
  | NIOS2_EXCEPTION_TLB_MISS
  | NIOS2_EXCEPTION_TLB_EXECUTE_PERM_VIOLATION
  | NIOS2_EXCEPTION_TLB_READ_PERM_VIOLATION
  | NIOS2_EXCEPTION_TLB_WRITE_PERM_VIOLATION
  | NIOS2_EXCEPTION_MPU_INST_REGION_VIOLATION
  | NIOS2_EXCEPTION_MPU_DATA_REGION_VIOLATION
  | NIOS2_EXCEPTION_ECC_TLB_ERR
  | NIOS2_EXCEPTION_ECC_FETCH_ERR
  | NIOS2_EXCEPTION_ECC_REGISTER_FILE_ERR
  | NIOS2_EXCEPTION_ECC_DATA_ERR
  | NIOS2_EXCEPTION_ECC_DATA_CACHE_WRITEBACK_ERR

definition alt_exception_cause_generated_bad_addr :: "alt_exception_cause \<Rightarrow> int" where
  "alt_exception_cause_generated_bad_addr cause =
     (case cause of
        NIOS2_EXCEPTION_SUPERVISOR_ONLY_DATA_ADDR \<Rightarrow> 1
      | NIOS2_EXCEPTION_MISALIGNED_DATA_ADDR \<Rightarrow> 1
      | NIOS2_EXCEPTION_MISALIGNED_TARGET_PC \<Rightarrow> 1
      | NIOS2_EXCEPTION_TLB_READ_PERM_VIOLATION \<Rightarrow> 1
      | NIOS2_EXCEPTION_TLB_WRITE_PERM_VIOLATION \<Rightarrow> 1
      | NIOS2_EXCEPTION_MPU_DATA_REGION_VIOLATION \<Rightarrow> 1
      | NIOS2_EXCEPTION_ECC_DATA_ERR \<Rightarrow> 1
      | NIOS2_EXCEPTION_TLB_MISS \<Rightarrow> 0
      | NIOS2_EXCEPTION_ECC_TLB_ERR \<Rightarrow> 0
      | _ \<Rightarrow> 0)"

datatype alt_exception_result = NIOS2_EXCEPTION_RETURN_REISSUE_INST | NIOS2_EXCEPTION_RETURN_SKIP_INST

section \<open>Entry\<close>

type_synonym 'w exception_handler = "alt_exception_cause \<Rightarrow> u32 \<Rightarrow> u32 \<Rightarrow> ('w, alt_exception_result) prog"

record 'w exceptions =
  alt_instruction_exception_handler :: "'w exception_handler option"

definition alt_instruction_exception_register :: "'w exception_handler option \<Rightarrow> 'w exceptions \<Rightarrow> 'w exceptions" where
  "alt_instruction_exception_register exception_handler x = x\<lparr>alt_instruction_exception_handler := exception_handler\<rparr>"

text \<open>Without a handler the processor stops for the debugger: \<open>None\<close>.\<close>

definition alt_instruction_exception_entry :: "'w exceptions \<Rightarrow> u32 \<Rightarrow> ('w cpu, alt_exception_result option) prog" where
  "alt_instruction_exception_entry x exception_pc =
     (let cause = NIOS2_EXCEPTION_CAUSE_NOT_PRESENT; badaddr = 0 in
      case alt_instruction_exception_handler x of
        Some h \<Rightarrow> bnd (on_cpu (h cause exception_pc badaddr)) (\<lambda>r. ret (Some r))
      | None \<Rightarrow> ret None)"

text \<open>
  The entry code saves \<open>estatus\<close> and the exception's return address \<open>ea\<close>, and leaves at an address of
  its own: that of the instruction, to run it again, or \<open>ea\<close>, the one after it.
\<close>

datatype exception_end = Resume u32 | Break

definition alt_exception_unknown :: "'w exceptions \<Rightarrow> u32 \<Rightarrow> ('w cpu, exception_end) prog" where
  "alt_exception_unknown x ea =
     bnd (alt_instruction_exception_entry x (ea - 4)) (\<lambda>r. ret
       (case r of
          None \<Rightarrow> Break
        | Some NIOS2_EXCEPTION_RETURN_SKIP_INST \<Rightarrow> Resume ea
        | Some NIOS2_EXCEPTION_RETURN_REISSUE_INST \<Rightarrow> Resume (ea - 4)))"

definition alt_exception :: "'w lines \<Rightarrow> 'w exceptions \<Rightarrow> u32 \<Rightarrow> u32 \<Rightarrow> ('w cpu, exception_end) prog" where
  "alt_exception lines x estatus ea =
     bnd (alt_irq_pending lines) (\<lambda>ipending.
     if estatus AND 1 \<noteq> 0 \<and> ipending \<noteq> 0
     then bnd (alt_irq_handler lines) (\<lambda>_. ret (Resume (ea - 4)))
     else alt_exception_unknown x ea)"

section \<open>Where the program goes on\<close>

text \<open>
  An interrupt runs the handlers of the pending lines and then the interrupted instruction again. The dispatcher, which never
  ends without a pending line, is entered with one only: it fails to return when the line stays up.
\<close>

lemma interrupt_resumes:
  assumes "uart_only s" "estatus AND 1 \<noteq> 0" "lines env (cpu_drivers s) AND cpu_ienable s \<noteq> 0"
  shows "(\<exists>n t. alt_exception lines x estatus ea env s = Inr (Resume (ea - 4), t) \<and> 0 < n \<and> dispatched lines env s n t) \<or>
     alt_exception lines x estatus ea env s = Inl Hang \<and> (\<nexists>n t. 0 < n \<and> dispatched lines env s n t)"
proof -
  let ?a = "lines env (cpu_drivers s) AND cpu_ienable s"
  have a: "?a AND cpu_ienable s = ?a" by (simp add: ac_simps)
  have run: "alt_exception lines x estatus ea env s =
      (case irq_loop lines ?a env s of None \<Rightarrow> Inl Hang
       | Some (Inl f) \<Rightarrow> Inl f | Some (Inr r) \<Rightarrow> Inr (Resume (ea - 4), snd r))"
    using assms(2,3)
    by (auto simp: alt_exception_def alt_irq_handler_def alt_irq_pending_def bnd_def ret_def split: option.split sum.split)
  show ?thesis
  proof (cases "irq_loop lines ?a env s")
    case None
    have "\<not> dispatched lines env s n t" if "0 < n" for n t
      using irq_loop_returns [OF _ assms(1) a assms(3)] None that by (metis gr0_conv_Suc)
    with None run show ?thesis by auto
  next
    case (Some r)
    from irq_loop_result [OF Some assms(1) a] run Some show ?thesis by auto
  qed
qed

text \<open>Any other exception is the registered handler's to decide, or the debugger's.\<close>

lemma instruction_exception:
  assumes "estatus AND 1 = 0 \<or> lines env (cpu_drivers s) AND cpu_ienable s = 0"
  shows "alt_exception lines (alt_instruction_exception_register None x) estatus ea env s = Inr (Break, s)"
    "h NIOS2_EXCEPTION_CAUSE_NOT_PRESENT (ea - 4) 0 env (cpu_drivers s) = Inr (r, w) \<Longrightarrow>
     alt_exception lines (alt_instruction_exception_register (Some h) x) estatus ea env s =
     Inr (Resume (if r = NIOS2_EXCEPTION_RETURN_SKIP_INST then ea else ea - 4), s\<lparr>cpu_drivers := w\<rparr>)"
  using assms
  by (cases r; auto simp: alt_exception_def alt_exception_unknown_def alt_instruction_exception_entry_def
      alt_instruction_exception_register_def alt_irq_pending_def on_cpu_def bnd_def ret_def)+

end
