(* ===== verification/Device_Classes.thy ===== *)
theory Device_Classes
  imports Hal_Calls
begin

text \<open>
  The other device classes of the HAL, and its stubs: DMA channels (\<^verbatim>\<open>alt_dma.h\<close>, \<^verbatim>\<open>alt_dma_dev.h\<close>,
  \<^verbatim>\<open>alt_dma_txchan_open.c\<close>, \<^verbatim>\<open>alt_dma_rxchan_open.c\<close>) and flash devices (\<^verbatim>\<open>alt_flash.h\<close>, \<^verbatim>\<open>alt_flash_dev.h\<close>,
  \<^verbatim>\<open>alt_flash_dev.c\<close>), whose calls vector to a driver's callbacks, and the calls of a process, \<^verbatim>\<open>alt_kill.c\<close>,
  \<^verbatim>\<open>alt_exit.c\<close>, \<^verbatim>\<open>alt_getpid.c\<close>, \<^verbatim>\<open>alt_wait.c\<close>, \<^verbatim>\<open>alt_fork.c\<close> and its like. Every device structure starts with
  the list element and the name of \<open>alt_dev_llist\<close>, so that one lookup serves all classes: the names are
  those of \<open>alt_devs\<close>. The system has no instance of either class; the devices are a parameter.
\<close>

section \<open>State\<close>

definition ENOSYS :: int where "ENOSYS = 88"
definition ECHILD :: int where "ECHILD = 10"
definition ESRCH :: int where "ESRCH = 3"

definition ALT_DMA_TXCHAN_LIST :: addr where "ALT_DMA_TXCHAN_LIST = 0x8018"
definition ALT_DMA_RXCHAN_LIST :: addr where "ALT_DMA_RXCHAN_LIST = 0x8020"
definition ALT_FLASH_DEV_LIST :: addr where "ALT_FLASH_DEV_LIST = 0x8028"

record 'w alt_dma_txchan_dev =
  tx_space :: "('w, int) prog"
  tx_dma_send :: "addr \<Rightarrow> u32 \<Rightarrow> addr \<Rightarrow> u32 \<Rightarrow> ('w, int) prog"
  tx_ioctl :: "int \<Rightarrow> u32 \<Rightarrow> ('w, int) prog"

record 'w alt_dma_rxchan_dev =
  rx_depth :: u32
  rx_prepare :: "addr \<Rightarrow> u32 \<Rightarrow> addr \<Rightarrow> u32 \<Rightarrow> ('w, int) prog"
  rx_ioctl :: "int \<Rightarrow> u32 \<Rightarrow> ('w, int) prog"

record flash_region =
  region_offset :: int
  region_size :: int
  number_of_blocks :: int
  block_size :: int

record 'w alt_flash_dev =
  flash_open :: "(string \<Rightarrow> ('w, addr) prog) option"
  flash_close :: "('w, int) prog option"
  flash_write :: "int \<Rightarrow> u8 list \<Rightarrow> int \<Rightarrow> ('w, int) prog"
  flash_read :: "int \<Rightarrow> int \<Rightarrow> ('w, int \<times> u8 list) prog"
  flash_get_info :: "('w, int \<times> flash_region list) prog"
  flash_erase_block :: "int \<Rightarrow> ('w, int) prog"
  flash_write_block :: "int \<Rightarrow> int \<Rightarrow> u8 list \<Rightarrow> int \<Rightarrow> ('w, int) prog"
  flash_lock :: "u32 \<Rightarrow> ('w, int) prog"

record 'w classes =
  class_hal :: "'w hal"
  dma_tx :: "addr \<Rightarrow> 'w alt_dma_txchan_dev"
  dma_rx :: "addr \<Rightarrow> 'w alt_dma_rxchan_dev"
  flash_devs :: "addr \<Rightarrow> 'w alt_flash_dev"

definition on_hal :: "('w hal, 'a) prog \<Rightarrow> ('w classes, 'a) prog" where
  "on_hal m = (\<lambda>env s. case m env (class_hal s) of
     Inl f \<Rightarrow> Inl f | Inr (a, h) \<Rightarrow> Inr (a, s\<lparr>class_hal := h\<rparr>))"

definition on_driver :: "('w, 'a) prog \<Rightarrow> ('w classes, 'a) prog" where
  "on_driver m = on_hal (\<lambda>env h. case m env (drivers h) of
     Inl f \<Rightarrow> Inl f | Inr (a, w) \<Rightarrow> Inr (a, h\<lparr>drivers := w\<rparr>))"

section \<open>DMA channels\<close>

definition alt_dma_txchan_reg :: "addr \<Rightarrow> ('w classes, int) prog" where
  "alt_dma_txchan_reg dev = on_hal (alt_dev_llist_insert dev ALT_DMA_TXCHAN_LIST)"

definition alt_dma_rxchan_reg :: "addr \<Rightarrow> ('w classes, int) prog" where
  "alt_dma_rxchan_reg dev = on_hal (alt_dev_llist_insert dev ALT_DMA_RXCHAN_LIST)"

definition alt_dma_txchan_open :: "string \<Rightarrow> ('w classes, addr) prog" where
  "alt_dma_txchan_open name =
     bnd (on_hal (alt_find_dev name ALT_DMA_TXCHAN_LIST)) (\<lambda>dev.
     bnd (if dev = NULL then on_hal (set_errno ENODEV) else ret ()) (\<lambda>_. ret dev))"

definition alt_dma_rxchan_open :: "string \<Rightarrow> ('w classes, addr) prog" where
  "alt_dma_rxchan_open name =
     bnd (on_hal (alt_find_dev name ALT_DMA_RXCHAN_LIST)) (\<lambda>dev.
     bnd (if dev = NULL then on_hal (set_errno ENODEV) else ret ()) (\<lambda>_. ret dev))"

definition alt_dma_txchan_close :: "addr \<Rightarrow> ('w classes, int) prog" where
  "alt_dma_txchan_close dma = ret 0"

definition alt_dma_rxchan_close :: "addr \<Rightarrow> ('w classes, int) prog" where
  "alt_dma_rxchan_close dma = ret 0"

definition alt_dma_txchan_send :: "addr \<Rightarrow> addr \<Rightarrow> u32 \<Rightarrow> addr \<Rightarrow> u32 \<Rightarrow> ('w classes, int) prog" where
  "alt_dma_txchan_send dma from_addr len done_callback handle =
     (if dma \<noteq> NULL then bnd (gets (\<lambda>s. dma_tx s dma)) (\<lambda>d. on_driver (tx_dma_send d from_addr len done_callback handle))
      else ret (- ENODEV))"

definition alt_dma_txchan_space :: "addr \<Rightarrow> ('w classes, int) prog" where
  "alt_dma_txchan_space dma =
     (if dma \<noteq> NULL then bnd (gets (\<lambda>s. dma_tx s dma)) (\<lambda>d. on_driver (tx_space d)) else ret (- ENODEV))"

definition alt_dma_txchan_ioctl :: "addr \<Rightarrow> int \<Rightarrow> u32 \<Rightarrow> ('w classes, int) prog" where
  "alt_dma_txchan_ioctl dma req arg =
     (if dma \<noteq> NULL then bnd (gets (\<lambda>s. dma_tx s dma)) (\<lambda>d. on_driver (tx_ioctl d req arg)) else ret (- ENODEV))"

definition alt_dma_rxchan_prepare :: "addr \<Rightarrow> addr \<Rightarrow> u32 \<Rightarrow> addr \<Rightarrow> u32 \<Rightarrow> ('w classes, int) prog" where
  "alt_dma_rxchan_prepare dma to_addr len done_callback handle =
     (if dma \<noteq> NULL then bnd (gets (\<lambda>s. dma_rx s dma)) (\<lambda>d. on_driver (rx_prepare d to_addr len done_callback handle))
      else ret (- ENODEV))"

definition alt_dma_rxchan_ioctl :: "addr \<Rightarrow> int \<Rightarrow> u32 \<Rightarrow> ('w classes, int) prog" where
  "alt_dma_rxchan_ioctl dma req arg =
     (if dma \<noteq> NULL then bnd (gets (\<lambda>s. dma_rx s dma)) (\<lambda>d. on_driver (rx_ioctl d req arg)) else ret (- ENODEV))"

text \<open>The only call of a channel that does not look for a null pointer first.\<close>

definition alt_dma_rxchan_depth :: "addr \<Rightarrow> ('w classes, u32) prog" where
  "alt_dma_rxchan_depth dma = (if dma = NULL then fail OutOfBounds else gets (\<lambda>s. rx_depth (dma_rx s dma)))"

section \<open>Flash devices\<close>

definition alt_flash_device_register :: "addr \<Rightarrow> ('w classes, int) prog" where
  "alt_flash_device_register fd = on_hal (alt_dev_llist_insert fd ALT_FLASH_DEV_LIST)"

definition alt_flash_open_dev :: "string \<Rightarrow> ('w classes, addr) prog" where
  "alt_flash_open_dev name =
     bnd (on_hal (alt_find_dev name ALT_FLASH_DEV_LIST)) (\<lambda>dev.
     if dev = NULL then ret dev
     else bnd (gets (\<lambda>s. flash_open (flash_devs s dev))) (\<lambda>f.
       case f of Some open_dev \<Rightarrow> on_driver (open_dev name) | None \<Rightarrow> ret dev))"

definition alt_flash_close_dev :: "addr \<Rightarrow> ('w classes, unit) prog" where
  "alt_flash_close_dev fd =
     (if fd = NULL then ret ()
      else bnd (gets (\<lambda>s. flash_close (flash_devs s fd))) (\<lambda>f.
        case f of Some close_dev \<Rightarrow> void (on_driver close_dev) | None \<Rightarrow> ret ()))"

text \<open>The calls on an open device use its pointer unchecked. There is no data cache to flush.\<close>

definition flash_call :: "addr \<Rightarrow> ('w alt_flash_dev \<Rightarrow> ('w, 'a) prog) \<Rightarrow> ('w classes, 'a) prog" where
  "flash_call fd f = (if fd = NULL then fail OutOfBounds else bnd (gets (\<lambda>s. flash_devs s fd)) (\<lambda>d. on_driver (f d)))"

definition alt_lock_flash :: "addr \<Rightarrow> u32 \<Rightarrow> ('w classes, int) prog" where
  "alt_lock_flash fd sectors_to_lock = flash_call fd (\<lambda>d. flash_lock d sectors_to_lock)"

definition alt_write_flash :: "addr \<Rightarrow> int \<Rightarrow> u8 list \<Rightarrow> int \<Rightarrow> ('w classes, int) prog" where
  "alt_write_flash fd offset src len = flash_call fd (\<lambda>d. flash_write d offset src len)"

definition alt_read_flash :: "addr \<Rightarrow> int \<Rightarrow> int \<Rightarrow> ('w classes, int \<times> u8 list) prog" where
  "alt_read_flash fd offset len = flash_call fd (\<lambda>d. flash_read d offset len)"

definition alt_get_flash_info :: "addr \<Rightarrow> ('w classes, int \<times> flash_region list) prog" where
  "alt_get_flash_info fd = flash_call fd flash_get_info"

definition alt_erase_flash_block :: "addr \<Rightarrow> int \<Rightarrow> int \<Rightarrow> ('w classes, int) prog" where
  "alt_erase_flash_block fd offset len = bnd (flash_call fd (\<lambda>d. flash_erase_block d offset)) ret"

definition alt_write_flash_block :: "addr \<Rightarrow> int \<Rightarrow> int \<Rightarrow> u8 list \<Rightarrow> int \<Rightarrow> ('w classes, int) prog" where
  "alt_write_flash_block fd block_offset data_offset src len =
     bnd (flash_call fd (\<lambda>d. flash_write_block d block_offset data_offset src len)) ret"

section \<open>Processes\<close>

datatype signal =
    NullSignal | SIGABRT | SIGALRM | SIGFPE | SIGILL | SIGKILL | SIGPIPE | SIGQUIT | SIGSEGV | SIGTERM
  | SIGUSR1 | SIGUSR2 | SIGBUS | SIGPOLL | SIGPROF | SIGSYS | SIGTRAP | SIGVTALRM | SIGXCPU | SIGXFSZ
  | SIGCHLD | SIGURG | OtherSignal int

text \<open>Leaving the program means spinning for ever.\<close>

definition ALT_EXIT :: "int \<Rightarrow> ('w hal, 'a) prog" where
  "ALT_EXIT exit_code = fail Hang"

definition fatal_signals :: "signal list" where
  "fatal_signals = [SIGABRT, SIGALRM, SIGFPE, SIGILL, SIGKILL, SIGPIPE, SIGQUIT, SIGSEGV, SIGTERM, SIGUSR1, SIGUSR2,
     SIGBUS, SIGPOLL, SIGPROF, SIGSYS, SIGTRAP, SIGVTALRM, SIGXCPU, SIGXFSZ]"

definition ALT_KILL :: "int \<Rightarrow> signal \<Rightarrow> ('w hal, int) prog" where
  "ALT_KILL pid sig =
     bnd (if pid \<le> 0 then
            if sig = NullSignal then ret 0
            else if sig \<in> set fatal_signals then ALT_EXIT 0
            else if sig = SIGCHLD \<or> sig = SIGURG then ret 0
            else ret EINVAL
          else ret ESRCH) (\<lambda>status.
     if status \<noteq> 0 then errno_return status else ret 0)"

definition ALT_GETPID :: "('w hal, int) prog" where "ALT_GETPID = ret 0"
definition ALT_WAIT :: "('w hal, int) prog" where "ALT_WAIT = errno_return ECHILD"
definition ALT_FORK :: "('w hal, int) prog" where "ALT_FORK = errno_return ENOSYS"

definition ALT_EXECVE :: "string \<Rightarrow> string list \<Rightarrow> string list \<Rightarrow> ('w hal, int) prog" where
  "ALT_EXECVE name argv e = errno_return ENOSYS"

definition ALT_LINK :: "string \<Rightarrow> string \<Rightarrow> ('w hal, int) prog" where
  "ALT_LINK existing new = errno_return ENOSYS"

definition ALT_RENAME :: "string \<Rightarrow> string \<Rightarrow> ('w hal, int) prog" where
  "ALT_RENAME existing new = errno_return ENOSYS"

definition ALT_UNLINK :: "string \<Rightarrow> ('w hal, int) prog" where
  "ALT_UNLINK name = errno_return ENOSYS"

section \<open>From registration to the driver\<close>

text \<open>A channel that was registered is found under its name, and a request on it is the driver's call.\<close>

lemma on_hal_find:
  assumes "llist_of (hal_links (class_hal s)) lst ds"
  shows "on_hal (alt_find_dev name lst) env s =
    Inr (case find (\<lambda>p. dev_name (alt_devs (class_hal s) p) = Some name) ds of None \<Rightarrow> NULL | Some p \<Rightarrow> p, s)"
  using alt_find_dev_list [OF assms, of name env] by (simp add: on_hal_def)

lemma on_hal_insert:
  assumes "llist_of (hal_links (class_hal s)) lst ds" "dev \<notin> set (lst # NULL # ds)"
    and "dev_name (alt_devs (class_hal s) dev) = Some name"
  shows "\<exists>s'. on_hal (alt_dev_llist_insert dev lst) env s = Inr (0, s') \<and>
    llist_of (hal_links (class_hal s')) lst (dev # ds) \<and> alt_devs (class_hal s') = alt_devs (class_hal s) \<and>
    drivers (class_hal s') = drivers (class_hal s) \<and> dma_tx s' = dma_tx s \<and> dma_rx s' = dma_rx s \<and> flash_devs s' = flash_devs s"
  using llist_of_insert [OF assms(1), of dev] assms(2,3)
  by (simp add: on_hal_def alt_dev_llist_insert_def bnd_def gets_def modify_def ret_def)

lemma on_driver_run:
  "on_driver m env s = (case m env (drivers (class_hal s)) of
     Inl f \<Rightarrow> Inl f | Inr (a, w) \<Rightarrow> Inr (a, s\<lparr>class_hal := (class_hal s)\<lparr>drivers := w\<rparr>\<rparr>))"
  by (simp add: on_driver_def on_hal_def split: sum.splits prod.splits)

lemma dma_send_registered:
  assumes "llist_of (hal_links (class_hal s)) ALT_DMA_TXCHAN_LIST ds" "dev \<notin> set (ALT_DMA_TXCHAN_LIST # NULL # ds)"
    and "dev_name (alt_devs (class_hal s) dev) = Some name"
    and "tx_dma_send (dma_tx s dev) a n cb h env (drivers (class_hal s)) = Inr (r, w)"
  shows "\<exists>s'. bnd (alt_dma_txchan_reg dev) (\<lambda>_. bnd (alt_dma_txchan_open name) (\<lambda>d. alt_dma_txchan_send d a n cb h)) env s =
      Inr (r, s') \<and> drivers (class_hal s') = w"
proof -
  obtain s1 where s1: "alt_dma_txchan_reg dev env s = Inr (0, s1)"
      "llist_of (hal_links (class_hal s1)) ALT_DMA_TXCHAN_LIST (dev # ds)" "alt_devs (class_hal s1) = alt_devs (class_hal s)"
      "drivers (class_hal s1) = drivers (class_hal s)" "dma_tx s1 = dma_tx s"
    using on_hal_insert [OF assms(1-3), of env] by (auto simp: alt_dma_txchan_reg_def)
  have "alt_dma_txchan_open name env s1 = Inr (dev, s1)"
    using on_hal_find [OF s1(2), of name env] s1(3) assms(2,3) by (simp add: alt_dma_txchan_open_def bnd_def ret_def)
  then show ?thesis
    using s1 assms(2,4) by (simp add: bnd_def alt_dma_txchan_send_def gets_def on_driver_run)
qed

text \<open>Without a device the calls report it, except the one that reads through the null pointer.\<close>

lemma dma_without_device:
  assumes "llist_of (hal_links (class_hal s)) ALT_DMA_RXCHAN_LIST []"
  shows "alt_dma_rxchan_open name env s = Inr (NULL, s\<lparr>class_hal := (class_hal s)\<lparr>hal_errno := ENODEV\<rparr>\<rparr>)"
    "alt_dma_rxchan_prepare NULL a n cb h env s = Inr (- ENODEV, s)" "alt_dma_rxchan_depth NULL env s = Inl OutOfBounds"
  using on_hal_find [OF assms, of name env]
  by (simp_all add: alt_dma_rxchan_open_def alt_dma_rxchan_prepare_def alt_dma_rxchan_depth_def bnd_def on_hal_def
      set_errno_def modify_def ret_def fail_def)

text \<open>A signal to the program itself ends it, is ignored or is refused; another process does not exist.\<close>

lemma kill_cases:
  "ALT_KILL pid sig env s =
     (if pid > 0 then Inr (-1, s\<lparr>hal_errno := ESRCH\<rparr>)
      else if sig \<in> set fatal_signals then Inl Hang
      else if sig \<in> {NullSignal, SIGCHLD, SIGURG} then Inr (0, s)
      else Inr (-1, s\<lparr>hal_errno := EINVAL\<rparr>))"
  by (auto simp: ALT_KILL_def ALT_EXIT_def errno_return_def set_errno_def bnd_def modify_def ret_def fail_def ESRCH_def
      EINVAL_def fatal_signals_def)

end
