(* ===== verification/Spec2Isabelle.thy ===== *)
theory Spec2Isabelle
  imports Command_Effects Commands Drivers Programming Uart_Polled Uart_Device Irq_Calls Clock Busy_Sleep Heap
    Gmon_Graph Gmon_Samples Loader Caches Log_Format Exceptions Device_Classes
begin

text \<open>
  The firmware of the LimeSDR-PCIe board's control processor, a Nios II in the FPGA, and the parts of
  its board support package (BSP) that the firmware, its drivers and their devices rest on.

  \<^bold>\<open>The program.\<close> The host sends 64-byte control packets through a FIFO; \<^verbatim>\<open>main()\<close> of
  \<^verbatim>\<open>src/software/lms_ctr_app/main.c\<close> reads one at a time, executes its command on the board's chips and
  answers with a packet of the same layout. The chips hang on four SPI cores (LMS7002M transceiver,
  FPGA registers and DAC, ADF4002 synthesiser, configuration flash) and one I2C core (EEPROM,
  temperature sensor, expander). Below the firmware lies the Altera BSP under
  \<^verbatim>\<open>src/software/lms_ctr_bsp\<close>: the register macros, the SPI and I2C drivers, the interrupt-driven UART
  driver, the HAL's file descriptors and the interrupt dispatcher.

  \<^bold>\<open>The model.\<close> A C function is a program \<open>('s, 'a) prog\<close>: from an environment and a state to a fault
  or a value and the next state (\<open>Prelude\<close>). The state carries the history of all bus accesses; a load
  is answered by the environment, an arbitrary function of this history and the address, so a
  statement for all environments is one for all hardware. \<open>Hang\<close> is a loop that is never left,
  \<open>OutOfBounds\<close> an access outside an array or through a null pointer, \<open>DivByZero\<close> a division by
  zero. Integers have the width of the C type (\<open>u8\<close>, \<open>u16\<close>, \<open>u32\<close>, wrap-around included); a signed
  counter of the gateware upload that the code bounds is an integer with its bounds in the invariant
  \<open>fw_ok\<close>, and the page number, which nothing bounds, a 32-bit word read as signed, which wraps. \<open>wp\<close> is
  the weakest precondition the proofs run on. The components:

  \<^item> \<open>Platform\<close>, \<open>Bus\<close>: \<^verbatim>\<open>HAL/inc/io.h\<close> and the address map of \<^verbatim>\<open>system.h\<close>; which accesses belong to which
    device, as the locale \<open>bus_observer\<close> that the decoders of the serial cores interpret.
  \<^item> \<open>Spi_Driver\<close>, \<open>Spi_Contract\<close>, \<open>I2c_Driver\<close>, \<open>Drivers\<close>: \<^verbatim>\<open>altera_avalon_spi.c\<close> and \<^verbatim>\<open>i2c_opencores.c\<close>,
    the protocol assumed of a core, and what a call puts on the bus and returns.
  \<^item> \<open>Protocol\<close>, \<open>Firmware_State\<close>, \<open>Peripherals\<close>, \<open>Handlers\<close>, \<open>Gateware\<close>, \<open>Mcu\<close>, \<open>Flash\<close>, \<open>Main_Loop\<close>:
    \<^verbatim>\<open>LMS64C_protocol.h\<close>, the globals and helpers of \<^verbatim>\<open>main.c\<close>, one definition per command, the
    gateware and MCU uploads, \<^verbatim>\<open>spi_flash_lib.c\<close>, and start-up, dispatch and reply. The endless loop
    is the inductive relation \<open>main_reaches\<close>.
  \<^item> \<open>Actions\<close>, \<open>Board\<close>, \<open>Handler_Contracts\<close>, \<open>Command_Effects\<close>, \<open>Commands\<close>, \<open>Programming\<close>: a command's
    effect as a list of driver-level actions, the wires such a list leaves behind, the contract of
    every handler, what one round of the loop is (the protocol's table of command codes and handlers,
    the packet received, the reply sent), and the exact effect of single commands and of the uploads.
    \<open>Bench\<close> is a board for the concrete instances.
  \<^item> \<open>Ring\<close>, \<open>Uart\<close>, \<open>Uart_Line\<close>, \<open>Uart_Interrupts\<close>, \<open>Uart_Read\<close>, \<open>Uart_Write\<close>, \<open>Uart_Calls\<close>, \<open>Uart_Polled\<close>: the
    UART driver \<^verbatim>\<open>drivers/src/altera_avalon_uart_*.c\<close>. The two circular buffers implement the locale
    \<open>byte_queue\<close>; an interrupt may come between any two accesses of the foreground to shared state, and
    \<open>isr_rel\<close> is what the foreground can rely on across it. \<open>tx_out\<close> is every byte stored to the
    transmit register, \<open>line_out\<close> what goes on the line, the bytes stored while the transmitter was seen
    ready; \<open>tx_serves\<close> says that a transmitter whose interrupt stays enabled is served sooner or later.
  \<^item> \<open>Llist\<close>, \<open>Fd_Table\<close>, \<open>Fd_Pool\<close>, \<open>Hal_Calls\<close>, \<open>Uart_Device\<close>: the HAL's lists, its pool of file
    descriptors and the system calls, over arbitrary devices; the UART as such a device, an
    interpretation of the locale \<open>stream_device\<close>, from \<open>alt_sys_init\<close> to the bytes on the line.
  \<^item> \<open>Irq\<close>, \<open>Irq_Calls\<close>, \<open>Exceptions\<close>: the interrupt controller, registration of handlers and the
    dispatcher, and the entry that chooses between an interrupt and an instruction exception.
  \<^item> \<open>Alarms\<close>, \<open>Clock\<close>, \<open>Busy_Sleep\<close>, \<open>Heap\<close>, \<open>Printf\<close>: services of the HAL that the image links without a
    tick timer: \<^verbatim>\<open>alt_alarm_start.c\<close> and \<^verbatim>\<open>alt_tick.c\<close>, the time of day (\<^verbatim>\<open>alt_settod.c\<close>, \<^verbatim>\<open>alt_gettod.c\<close>,
    \<^verbatim>\<open>alt_times.c\<close>), the delay loops, the heap break \<^verbatim>\<open>alt_sbrk.c\<close> and \<^verbatim>\<open>alt_printf.c\<close>. The locale
    \<open>alarm_callbacks\<close> holds the contract of the tick with its callbacks.
  \<^item> \<open>Gmon\<close>, \<open>Gmon_Graph\<close>, \<open>Gmon_Samples\<close>: the profiler \<^verbatim>\<open>alt_gmon.c\<close>, \<^verbatim>\<open>alt_mcount.S\<close> on top of the heap and
    the tick: its lists in memory against an abstract call graph, and its callback as an
    interpretation of \<open>alarm_callbacks\<close>.
  \<^item> \<open>Loader\<close>, \<open>Caches\<close>: \<^verbatim>\<open>alt_load.c\<close>, \<^verbatim>\<open>alt_do_ctors.c\<close>, \<^verbatim>\<open>alt_do_dtors.c\<close>, over arbitrary linker symbols, and
    the cache control \<^verbatim>\<open>alt_dcache_flush*.c\<close>, \<^verbatim>\<open>alt_icache_flush*.c\<close>, over arbitrary cache sizes.
  \<^item> \<open>Device_Classes\<close>: DMA channels and flash devices of the HAL over arbitrary drivers, and the calls of a
    process (\<^verbatim>\<open>alt_kill.c\<close> and the stubs).
  \<^item> \<open>Log_Printf\<close>, \<open>Log_Numbers\<close>, \<open>Log_Format\<close>: the logging formatter \<^verbatim>\<open>alt_log_printf.c\<close> as a state machine
    over the format, its numbers, and its agreement with \<^verbatim>\<open>alt_printf.c\<close>.

  \<^bold>\<open>What is shown.\<close> For the firmware: an invariant of the endless loop (array sizes, ranges of the
  bounded counters, every bus released, every I2C transaction complete), that a round with a packet
  waiting runs exactly the handler of its command code on it and sends one reply and a round without
  one always returns, that a command is always answered on a board that keeps its protocol, and that commands
  with checked counts stay within the packet on any hardware; the exact bus traffic and reply of
  register, converter, GPIO and EEPROM commands; that the gateware upload programs the stream that
  was sent, page by page; bounds and termination of the waits. For the UART: no byte is lost,
  doubled or reordered between the caller and the data registers whatever the timing, blocking calls
  return when the transmitter's interrupt is served, both variants of the driver put a blocking
  writer's data on the line. For the HAL: the
  invariant of the descriptor pool under any sequence of calls, the device list as an abstract list,
  open and close, exclusive access, and printing from start-up to the line. For the interrupts: the
  table and the enable mask agree, and the dispatcher runs registered handlers only. For the other
  services: a tick is an abstract countdown of all alarms, wrap-around included; the wall clock runs
  on from the time set; the exact number of passes of a delay; disjoint heap blocks; the profiler
  counts every call and every sampled tick exactly; loading copies the sections and nothing else,
  and ends exactly when their lengths are whole words; the two formatters agree, and hexadecimal and
  decimal output read back. The theorems on what the code gets wrong (unchecked counts, the straddling
  packet, the eight-bit retry counter, the full receive ring, the lock that misses a descriptor, the
  delay that wraps around, the histogram's missing bucket) name packets and calls for which it happens.

  \<^bold>\<open>Loops and bounds.\<close> No fuel is used. Loops bounded by a counter are recursions on lists or numbers;
  loops that may wait for ever are \<open>partial_function (option)\<close>, \<open>None\<close> is not returning and becomes
  \<open>Hang\<close>, and the conditions under which they return are theorems.

  \<^bold>\<open>Abstractions.\<close> Data handed to the SPI driver is passed by value, as no call aliases its buffers.
  Globals that are never read are left out. The number of handler runs at an interruption point is
  the environment's answer at the pseudo register \<open>IPENDING\<close>; \<open>Irq_Calls\<close> shows that the dispatcher's
  loop has this effect. A callback's use of its descriptor is limited to the \<open>priv\<close> field. The
  error number of the UART driver and the one of the HAL's calls are separate fields.

  \<^bold>\<open>Not modelled.\<close> The FPGA gateware (VHDL) is the environment. Of the BSP: the system identifier
  test, semihosting and the log's reports on a JTAG UART, which this build compiles to nothing;
  wrappers over the C library's streams; the saving of registers and the emulation of
  multiplications in assembly; the wrappers over the C library's allocator; the sequence of
  \<^verbatim>\<open>alt_main.c\<close>, whose parts are modelled on states of their own; the generated constants no code uses.
\<close>

section \<open>The command interpreter\<close>

text \<open>
  C1: whatever the hardware answers, at every head of the endless loop of \<open>main()\<close> the firmware's
  arrays have their sizes and the flash counters their ranges; on a board whose serial cores keep
  their protocol the I2C log is then a sequence of complete transactions and no chip is left
  selected.
\<close>

lemma main_loop_invariant:
  assumes "main_reaches env s"
  shows "fw_ok s \<and>
     (board_ok env \<longrightarrow>
        i2c_whole (i2c_log (i2c_bus I2C_OPENCORES_0_BASE (hist s))) \<and>
        (\<forall>base\<in>spi_bases. line_cs (spi_wire base (hist s)) = None))"
proof -
  obtain acts where "fw_ok s" "after env [] acts s" "tidy acts"
    using main_reaches_invariant [OF assms] by blast
  with tidy_wires [of env "[]" acts s] show ?thesis by simp
qed

lemma main_loop_invariant_witness:
  "\<exists>s. main_reaches (bench (\<lambda>_ _. 0)) s \<and> line_cs (spi_wire SPI_LMS_BASE (hist s)) = None"
proof -
  obtain acts s where "performs (bench (\<lambda>_ _. 0)) main_init fw_boot acts () s"
    using twp_unitD [OF twp_main_init [of "\<lambda>_. False", OF disjI2 [OF board_ok_bench] fw_ok_boot]] by blast
  then have "main_reaches (bench (\<lambda>_ _. 0)) s" by (auto simp: performs_def intro: main_start)
  with main_loop_invariant [OF this] show ?thesis by (auto simp: board_ok_bench)
qed

text \<open>
  C2: one round of the endless loop. When the FIFO's status says empty, the round always returns and
  has only shown the switches on the LEDs and read the status. Otherwise 64 bytes are read, exactly the
  handler of the received command code runs on exactly this packet (\<open>carried_out\<close>, with the effect of
  every command that is a fixed exchange), the reply echoes the packet's header and has a final status,
  and its 64 bytes are written back. Such a round fails to return only by waiting for the
  hardware, which a board that keeps its protocol excludes for all commands but the MCU upload, or by
  running out of bounds on a packet whose unchecked counts do not fit.
\<close>

lemma main_round:
  assumes "fw_ok s"
  shows "if fifo_status env s AND 1 = 0
    then case main_iter env s of
        Inl f \<Rightarrow> f = Hang \<and> (\<not> board_ok env \<or> rx_hdr HDR_COMMAND (received env s) = CMD_LMS_MCU_FW_WR) \<or>
          f = OutOfBounds \<and> \<not> packet_fits (received env s)
      | Inr (_, s') \<Rightarrow> \<exists>acts t. carried_out env (received env s) acts t \<and> tidy acts \<and>
          replied (received env s) t \<and> s' = sent_back t
    else main_iter env s = Inr ((), fifo_looked env s)"
proof (cases "fifo_status env s AND 1 = 0")
  case True
  let ?F = "\<lambda>f. f = Hang \<and> (\<not> board_ok env \<or> rx_hdr HDR_COMMAND (received env s) = CMD_LMS_MCU_FW_WR) \<or>
    f = OutOfBounds \<and> \<not> packet_fits (received env s)"
  have "wp process_cmd env (\<lambda>_. wp send_reply env (\<lambda>_ s'. \<exists>acts t. carried_out env (received env s) acts t \<and>
      tidy acts \<and> replied (received env s) t \<and> s' = sent_back t) ?F) ?F (received env s)"
    by (rule wp_process_cmd [OF _ fw_ok_received [OF assms]])
      (auto simp: wp_send_reply fw_ok_lengths replied_def)
  with True wp_main_iter [OF assms] have "wp main_iter env (\<lambda>_ s'. \<exists>acts t. carried_out env (received env s) acts t \<and>
      tidy acts \<and> replied (received env s) t \<and> s' = sent_back t) ?F s" by simp
  with True show ?thesis by (auto simp: wp_def split: sum.splits)
next
  case False
  with wp_main_iter [OF assms, of env "\<lambda>_ s'. s' = fifo_looked env s" "\<lambda>_. False"] show ?thesis
    by (auto simp: wp_def split: sum.splits)
qed

text \<open>An all-zero packet is \<open>CMD_GET_INFO\<close>: the round sends the board's five identification bytes.\<close>

lemma main_round_witness:
  "\<exists>s'. main_iter (bench (\<lambda>_ _. 0)) fw_boot = Inr ((), s') \<and>
     take 5 (drop HDR_SIZE (glEp0Buffer_Tx s')) = [7, 15, 1, 3, 0]"
proof -
  let ?e = "bench (\<lambda>_ _. 0)" let ?t = "received ?e fw_boot"
  have zero: "?e h (IOADDR AV_FIFO_INT_0_BASE r) = 0" if "r \<in> {1, 2}" for h r
    using that by (auto simp: bench_def IOADDR_def address_map)
  have st: "fifo_status ?e fw_boot AND 1 = 0" by (simp add: fifo_status_def zero)
  have cmd: "rx_hdr HDR_COMMAND ?t = 0"
    by (simp add: received_def Let_def rx_hdr_def zero protocol_defs del: upt.simps)
  then have "packet_fits ?t"
    by (simp add: packet_fits_def CMD_ANALOG_VAL_RD_def CMD_MEMORY_WR_def CMD_MEMORY_RD_def CMD_ALTERA_FPGA_GW_WR_def)
  with cmd show ?thesis
    using main_round [OF fw_ok_boot, of ?e] st
    by (auto simp: board_ok_bench carried_out_def command_effect_def reply_at_def sent_back_def
        CMD_LMS_MCU_FW_WR_def split: sum.splits)
qed

text \<open>
  C3: on a board whose cores keep their protocol, every command but the MCU upload ends, for every
  packet whose counts fit its data field: the reply echoes command, block count and peripheral, its
  status is final (never busy), every I2C transaction is complete and every chip released.
\<close>

lemma command_answered:
  assumes "board_ok env" "fw_ok s" "packet_fits s" "rx_hdr HDR_COMMAND s \<noteq> CMD_LMS_MCU_FW_WR"
  shows "\<exists>acts s'. performs env process_cmd s acts () s' \<and> tidy acts \<and> fw_ok s' \<and>
     tx_hdr HDR_STATUS s' \<in> final_statuses \<and> tx_hdr HDR_STATUS s' \<noteq> STATUS_BUSY_CMD \<and>
     (\<forall>i \<in> {HDR_COMMAND, HDR_DATA_BLOCKS, HDR_PERIPH_ID}. tx_hdr i s' = rx_hdr i s)"
proof -
  have "twp process_cmd env (\<lambda>_ acts s'. replied s s' \<and> tidy acts) (\<lambda>_. False) s"
    by (rule twp_process_cmd) (use assms in auto)
  from twp_unitD [OF this] show ?thesis
    unfolding replied_def by (blast dest: final_not_busy)
qed

lemma command_answered_witness:
  "\<exists>acts s'. performs (bench (\<lambda>_ _. 0)) process_cmd (with_packet [0x21, 0, 2, 7] [0, 0x20]) acts () s' \<and>
     tx_hdr HDR_PERIPH_ID s' = 7"
  using command_answered [OF board_ok_bench fw_ok_with_packet, of "[0x21, 0, 2, 7]" "[0, 0x20]" "\<lambda>_ _. 0"]
  by (auto simp: packet_fits_def with_packet_simps protocol_defs)

text \<open>
  C4: memory safety on any hardware: whatever the registers answer, no command accesses memory out of
  bounds or divides by zero, as long as the packet's unchecked counts fit; a command either returns
  or waits for ever.
\<close>

lemma command_memory_safe:
  assumes "fw_ok s" "packet_fits s"
  shows "process_cmd env s \<noteq> Inl OutOfBounds \<and> process_cmd env s \<noteq> Inl DivByZero"
proof -
  have "twp process_cmd env (\<lambda>_ acts s'. replied s s' \<and> tidy acts) (\<lambda>f. f = Hang) s"
    by (rule twp_process_cmd) (use assms in auto)
  from wp_faultD [OF twp_wp [OF this, of "\<lambda>_ _. True"]] show ?thesis by blast
qed

lemma command_memory_safe_witness:
  "process_cmd (\<lambda>_ _. 0xFFFFFFFF) (with_packet [0x8C, 0, 1] [0, 0, 0, 0, 0, 32]) \<noteq> Inl OutOfBounds"
  using command_memory_safe [of "with_packet [0x8C, 0, 1] [0, 0, 0, 0, 0, 32]"]
  by (simp add: packet_fits_def with_packet_simps protocol_defs)

text \<open>
  C5: type soundness of the command interpreter: on any hardware and for any packet, counts that do
  not fit included, a command started in a well-formed state (array sizes, counter ranges) ends in a
  well-formed state with a final status and the packet's command, block count and peripheral echoed,
  or in one of two faults: it waits for ever or has run out of bounds. It never divides by zero.
\<close>

lemma command_keeps_types:
  assumes "fw_ok s"
  shows "case process_cmd env s of
       Inl f \<Rightarrow> f = Hang \<or> f = OutOfBounds
     | Inr (_, s') \<Rightarrow> fw_ok s' \<and> tx_hdr HDR_STATUS s' \<in> final_statuses \<and>
         (\<forall>i \<in> {HDR_COMMAND, HDR_DATA_BLOCKS, HDR_PERIPH_ID}. tx_hdr i s' = rx_hdr i s)"
proof -
  have "twp process_cmd env (\<lambda>_ acts s'. replied s s' \<and> tidy acts) (\<lambda>f. f = Hang \<or> f = OutOfBounds) s"
    by (rule twp_process_cmd) (use assms in auto)
  from twp_wp [OF this, of "\<lambda>_ s'. replied s s'"] show ?thesis
    by (auto simp: wp_def replied_def split: sum.splits)
qed

lemma command_keeps_types_witness:
  "case process_cmd (\<lambda>_ _. 0) (with_packet [0x61, 0, 62] []) of
     Inl f \<Rightarrow> f \<noteq> DivByZero | Inr (_, s') \<Rightarrow> tx_hdr HDR_COMMAND s' = 0x61"
  using command_keeps_types [OF fw_ok_with_packet, of "[0x61, 0, 62]" "[]" "\<lambda>_ _. 0"]
  by (auto simp: with_packet_simps protocol_defs split: sum.splits)

end
